theory Spec2Isabelle
  imports Main "HOL-Library.List_Lexorder" "HOL-Library.Char_ord"
begin

section \<open>Go runtime and library pieces the driver relies on\<close>

text \<open>
  The driver is written in Go.  Strings are byte strings (\<open>string\<close>), \<open>int64\<close> values are
  integers with the wrap-around written out, and a read of a missing map key gives the
  zero value (the empty string).
\<close>

definition comma :: char where
  "comma = CHR '',''"

definition slash :: char where
  "slash = CHR ''/''"

definition dquote :: char where
  "dquote = CHR 0x22"

text \<open>\<open>strings.Split(s, sep)\<close> for a one-character separator: the pieces between the
  separators; an empty input gives one empty piece.\<close>

fun Split :: "char \<Rightarrow> string \<Rightarrow> string list" where
  "Split sep [] = [[]]"
| "Split sep (c # cs) =
     (if c = sep then [] # Split sep cs
      else (case Split sep cs of [] \<Rightarrow> [[c]] | w # ws \<Rightarrow> (c # w) # ws))"

text \<open>\<open>int64\<close>: the representable range, the wrap-around of an arithmetic result, and
  Go's division, which truncates towards zero.\<close>

definition int64 :: "int \<Rightarrow> bool" where
  "int64 x \<longleftrightarrow> - (2 ^ 63) \<le> x \<and> x < 2 ^ 63"

definition wrap64 :: "int \<Rightarrow> int" where
  "wrap64 x = (x + 2 ^ 63) mod 2 ^ 64 - 2 ^ 63"

definition quo :: "int \<Rightarrow> int \<Rightarrow> int" where
  "quo a b = sgn a * sgn b * (\<bar>a\<bar> div \<bar>b\<bar>)"

text \<open>\<open>strconv.FormatInt(i, 10)\<close> and \<open>strconv.ParseInt(s, 10, 64)\<close>.\<close>

fun digits :: "nat \<Rightarrow> string" where
  "digits n =
     (if n < 10 then [char_of (48 + n)]
      else digits (n div 10) @ [char_of (48 + n mod 10)])"

declare digits.simps [simp del]

definition FormatInt :: "int \<Rightarrow> string" where
  "FormatInt i = (if i < 0 then CHR ''-'' # digits (nat (- i)) else digits (nat i))"

definition digit :: "char \<Rightarrow> nat option" where
  "digit c =
     (let n = (of_char c :: nat) in if 48 \<le> n \<and> n \<le> 57 then Some (n - 48) else None)"

fun parse_digits :: "string \<Rightarrow> nat \<Rightarrow> nat option" where
  "parse_digits [] acc = Some acc"
| "parse_digits (c # cs) acc =
     (case digit c of None \<Rightarrow> None | Some d \<Rightarrow> parse_digits cs (10 * acc + d))"

definition ParseInt :: "string \<Rightarrow> int option" where
  "ParseInt s =
     (case s of
        [] \<Rightarrow> None
      | c # cs \<Rightarrow>
          (let neg = (c = CHR ''-'');
               ds = (if c = CHR ''-'' \<or> c = CHR ''+'' then cs else s)
           in if ds = [] then None
              else (case parse_digits ds 0 of
                      None \<Rightarrow> None
                    | Some n \<Rightarrow>
                        (let v = (if neg then - int n else int n)
                         in if int64 v then Some v else None))))"

text \<open>Errors: a gRPC status built with \<open>status.Errorf\<close>, an error of the object store's
  API (only its reason matters to the driver), a plain \<open>errors.New\<close> value, or a
  run-time panic (a nil pointer dereference).\<close>

datatype code = InvalidArgument | FailedPrecondition | Unknown | Unimplemented

datatype reason = NotFound | AlreadyExists | Conflict | ServerError

datatype error = Status code string | ApiError reason | ErrorString string | Panic string

section \<open>The staged-on-nodes encoding (pkg/csiplugin/common/pvc.go)\<close>

text \<open>
  A Go \<open>map[string]struct{}\<close> is a finite set of strings.  Ranging over a map visits its
  keys once each, in an order the runtime picks; \<open>iter\<close> stands for that order.
\<close>

definition valid_range :: "(string set \<Rightarrow> string list) \<Rightarrow> bool" where
  "valid_range iter \<longleftrightarrow> (\<forall>S. finite S \<longrightarrow> set (iter S) = S \<and> distinct (iter S))"

definition stringListToSet :: "string \<Rightarrow> string set" where
  "stringListToSet list =
     (if list \<noteq> [] then foldl (\<lambda>s item. insert item s) {} (Split comma list) else {})"

fun setToStringList_loop :: "string list \<Rightarrow> string \<Rightarrow> bool \<Rightarrow> string" where
  "setToStringList_loop [] builder emptyb = builder"
| "setToStringList_loop (item # rest) builder emptyb =
     setToStringList_loop rest
       ((if \<not> emptyb then builder @ [comma] else builder) @ item) False"

definition setToStringList :: "(string set \<Rightarrow> string list) \<Rightarrow> string set \<Rightarrow> string" where
  "setToStringList iter s = setToStringList_loop (iter s) [] True"

section \<open>Capacity validation (controller)\<close>

record CapacityRange =
  RequiredBytes :: int
  LimitBytes :: int

text \<open>The four results of the Go function are returned as a tuple
  \<open>(capacity, minCapacity, maxCapacity, err)\<close>.\<close>

definition validateCapacity :: "CapacityRange option \<Rightarrow> int \<times> int \<times> int \<times> error option" where
  "validateCapacity capacityRange =
     (case capacityRange of
        None \<Rightarrow> (- 1, - 1, - 1, Some (Status InvalidArgument ''must specify capacity''))
      | Some r \<Rightarrow>
          (let minCapacity = RequiredBytes r;
               maxCapacity = LimitBytes r
           in if minCapacity = 0 then
                (- 1, - 1, - 1, Some (Status InvalidArgument ''must specify minimum capacity''))
              else if maxCapacity \<noteq> 0 \<and> maxCapacity < minCapacity then
                (- 1, - 1, - 1,
                 Some (Status InvalidArgument ''minimum capacity must not exceed maximum capacity''))
              else
                (let capacity = wrap64 (quo (wrap64 (minCapacity + 511)) 512 * 512)
                 in if maxCapacity \<noteq> 0 \<and> maxCapacity < capacity then
                      (- 1, - 1, - 1,
                       Some (Status InvalidArgument ''capacity must be a multiple of 512''))
                    else (capacity, minCapacity, maxCapacity, None))))"

section \<open>The object store\<close>

text \<open>
  The driver keeps no state of its own: everything lives on objects of the orchestrator's
  store.  Only the metadata of a claim or a snapshot is read or written by the code.
\<close>

record ObjectMeta =
  Name :: string
  Namespace :: string
  UID :: string
  Labels :: "string \<rightharpoonup> string"
  Annotations :: "string \<rightharpoonup> string"
  Finalizers :: "string list"
  DeletionTimestamp :: "nat option"

record JobConfig =
  cfgName :: string
  cfgNamespace :: string
  cfgLabels :: "string \<rightharpoonup> string"
  Image :: string
  Command :: "string list"
  Args :: "string list"
  BackingPvcName :: string
  BackingPvcBasePath :: string

record Job =
  config :: JobConfig
  Succeeded :: nat
  deleting :: bool

definition Domain' :: string where
  "Domain' = ''subprovisioner.gitlab.io''"

text \<open>\<open>m[k]\<close> on a Go map: the empty string when the key is missing (also on a nil map).\<close>

definition lookup :: "(string \<rightharpoonup> string) \<Rightarrow> string \<Rightarrow> string" where
  "lookup m k = (case m k of None \<Rightarrow> [] | Some v \<Rightarrow> v)"

text \<open>
  What the rest of the cluster does is a script: every call to the store and every
  \<open>time.Sleep\<close> of a polling loop takes the next step of it.  A step may let the call fail
  (\<open>Fault\<close>; a conflict on update is such a fault), let a job succeed, or remove a job whose
  deletion was asked for.  When the script is used up the cluster is quiescent: calls are
  answered from the store and nothing changes between them.  The trace lists the calls the
  driver made, oldest first, each with the error it got.

  The calls are modelled from the side of the store.  The client library refuses a get, a
  creation or a deletion whose namespace is empty before it sends anything; that check is
  not modelled, and such a call is answered by the store like any other (a get or a
  deletion finds nothing, a creation succeeds).
\<close>

datatype env_step = Quiet | Fault reason | JobSucceeds string string | JobRemoved string string

datatype call =
    PvcGet string string
  | PvcList string
  | PvcUpdate ObjectMeta
  | PvcPatch string string ObjectMeta
  | SnapshotList string
  | JobCreate JobConfig
  | JobGet string string
  | JobDelete string string

record world =
  pvcs :: "ObjectMeta list"
  snapshots :: "ObjectMeta list"
  jobs :: "Job list"
  script :: "env_step list"
  trace :: "(call \<times> reason option) list"

definition is_job :: "string \<Rightarrow> string \<Rightarrow> Job \<Rightarrow> bool" where
  "is_job ns n j \<longleftrightarrow> cfgNamespace (config j) = ns \<and> cfgName (config j) = n"

definition is_obj :: "string \<Rightarrow> string \<Rightarrow> ObjectMeta \<Rightarrow> bool" where
  "is_obj ns n ob \<longleftrightarrow> Namespace ob = ns \<and> Name ob = n"

definition env_apply :: "env_step \<Rightarrow> world \<Rightarrow> world" where
  "env_apply s w =
     (case s of
        JobSucceeds ns n \<Rightarrow>
          w\<lparr>jobs := map (\<lambda>j. if is_job ns n j then j\<lparr>Succeeded := Succeeded j + 1\<rparr> else j) (jobs w)\<rparr>
      | JobRemoved ns n \<Rightarrow>
          w\<lparr>jobs := filter (\<lambda>j. \<not> (is_job ns n j \<and> deleting j)) (jobs w)\<rparr>
      | _ \<Rightarrow> w)"

definition interact :: "world \<Rightarrow> reason option \<times> world" where
  "interact w =
     (case script w of
        [] \<Rightarrow> (None, w)
      | s # rest \<Rightarrow>
          ((case s of Fault r \<Rightarrow> Some r | _ \<Rightarrow> None), env_apply s (w\<lparr>script := rest\<rparr>)))"

definition Sleep :: "world \<Rightarrow> world" where
  "Sleep w = snd (interact w)"

definition record_call :: "call \<Rightarrow> reason option \<Rightarrow> world \<Rightarrow> world" where
  "record_call c r w = w\<lparr>trace := trace w @ [(c, r)]\<rparr>"

subsection \<open>Claims\<close>

definition pvcs_Get :: "string \<Rightarrow> string \<Rightarrow> world \<Rightarrow> (error + ObjectMeta) \<times> world" where
  "pvcs_Get ns n w =
     (case interact w of
        (Some r, w1) \<Rightarrow> (Inl (ApiError r), record_call (PvcGet ns n) (Some r) w1)
      | (None, w1) \<Rightarrow>
          (case find (is_obj ns n) (pvcs w1) of
             None \<Rightarrow> (Inl (ApiError NotFound), record_call (PvcGet ns n) (Some NotFound) w1)
           | Some p \<Rightarrow> (Inr p, record_call (PvcGet ns n) None w1)))"

text \<open>An update that leaves a claim marked for deletion without finalizers lets the store
  remove it.\<close>

definition store_obj :: "ObjectMeta \<Rightarrow> ObjectMeta list \<Rightarrow> ObjectMeta list" where
  "store_obj p objs =
     (if DeletionTimestamp p \<noteq> None \<and> Finalizers p = []
      then filter (\<lambda>ob. \<not> is_obj (Namespace p) (Name p) ob) objs
      else map (\<lambda>ob. if is_obj (Namespace p) (Name p) ob then p else ob) objs)"

definition pvcs_Update :: "ObjectMeta \<Rightarrow> world \<Rightarrow> error option \<times> world" where
  "pvcs_Update p w =
     (case interact w of
        (Some r, w1) \<Rightarrow> (Some (ApiError r), record_call (PvcUpdate p) (Some r) w1)
      | (None, w1) \<Rightarrow>
          (case find (is_obj (Namespace p) (Name p)) (pvcs w1) of
             None \<Rightarrow> (Some (ApiError NotFound), record_call (PvcUpdate p) (Some NotFound) w1)
           | Some _ \<Rightarrow>
               (None, record_call (PvcUpdate p) None (w1\<lparr>pvcs := store_obj p (pvcs w1)\<rparr>))))"

text \<open>A strategic merge patch of the metadata: labels and annotations are merged key by
  key, the finalizers of the patch are added to the list when not yet in it.\<close>

definition merge_patch :: "ObjectMeta \<Rightarrow> ObjectMeta \<Rightarrow> ObjectMeta" where
  "merge_patch patch ob =
     ob\<lparr>Labels := Labels ob ++ Labels patch,
        Annotations := Annotations ob ++ Annotations patch,
        Finalizers := Finalizers ob @
          filter (\<lambda>f. f \<notin> set (Finalizers ob)) (remdups (Finalizers patch))\<rparr>"

definition pvcs_Patch :: "string \<Rightarrow> string \<Rightarrow> ObjectMeta \<Rightarrow> world \<Rightarrow> error option \<times> world" where
  "pvcs_Patch ns n patch w =
     (case interact w of
        (Some r, w1) \<Rightarrow> (Some (ApiError r), record_call (PvcPatch ns n patch) (Some r) w1)
      | (None, w1) \<Rightarrow>
          (case find (is_obj ns n) (pvcs w1) of
             None \<Rightarrow>
               (Some (ApiError NotFound), record_call (PvcPatch ns n patch) (Some NotFound) w1)
           | Some _ \<Rightarrow>
               (None,
                record_call (PvcPatch ns n patch) None
                  (w1\<lparr>pvcs :=
                       map (\<lambda>ob. if is_obj ns n ob then merge_patch patch ob else ob) (pvcs w1)\<rparr>))))"

text \<open>Listing with a label selector made of \<open>key=value\<close> and \<open>key\<close> requirements, joined by
  commas (the only selectors the driver builds).\<close>

fun split_eq :: "string \<Rightarrow> string \<times> string option" where
  "split_eq [] = ([], None)"
| "split_eq (c # cs) =
     (if c = CHR ''='' then ([], Some cs)
      else (case split_eq cs of (k, v) \<Rightarrow> (c # k, v)))"

definition requirement_holds :: "(string \<rightharpoonup> string) \<Rightarrow> string \<Rightarrow> bool" where
  "requirement_holds labels r =
     (case split_eq r of
        (k, None) \<Rightarrow> labels k \<noteq> None
      | (k, Some v) \<Rightarrow> labels k = Some v)"

definition selects :: "string \<Rightarrow> ObjectMeta \<Rightarrow> bool" where
  "selects selector ob \<longleftrightarrow>
     selector = [] \<or> list_all (requirement_holds (Labels ob)) (Split comma selector)"

definition pvcs_List :: "string \<Rightarrow> world \<Rightarrow> (error + ObjectMeta list) \<times> world" where
  "pvcs_List selector w =
     (case interact w of
        (Some r, w1) \<Rightarrow> (Inl (ApiError r), record_call (PvcList selector) (Some r) w1)
      | (None, w1) \<Rightarrow>
          (Inr (filter (selects selector) (pvcs w1)), record_call (PvcList selector) None w1))"

definition snapshots_List :: "string \<Rightarrow> world \<Rightarrow> (error + ObjectMeta list) \<times> world" where
  "snapshots_List selector w =
     (case interact w of
        (Some r, w1) \<Rightarrow> (Inl (ApiError r), record_call (SnapshotList selector) (Some r) w1)
      | (None, w1) \<Rightarrow>
          (Inr (filter (selects selector) (snapshots w1)),
           record_call (SnapshotList selector) None w1))"

subsection \<open>Jobs\<close>

definition jobs_Create :: "JobConfig \<Rightarrow> world \<Rightarrow> error option \<times> world" where
  "jobs_Create cfg w =
     (case interact w of
        (Some r, w1) \<Rightarrow> (Some (ApiError r), record_call (JobCreate cfg) (Some r) w1)
      | (None, w1) \<Rightarrow>
          (case find (is_job (cfgNamespace cfg) (cfgName cfg)) (jobs w1) of
             Some _ \<Rightarrow>
               (Some (ApiError AlreadyExists), record_call (JobCreate cfg) (Some AlreadyExists) w1)
           | None \<Rightarrow>
               (None,
                record_call (JobCreate cfg) None
                  (w1\<lparr>jobs := jobs w1 @ [\<lparr>config = cfg, Succeeded = 0, deleting = False\<rparr>]\<rparr>))))"

definition jobs_Get :: "string \<Rightarrow> string \<Rightarrow> world \<Rightarrow> (error + Job) \<times> world" where
  "jobs_Get ns n w =
     (case interact w of
        (Some r, w1) \<Rightarrow> (Inl (ApiError r), record_call (JobGet ns n) (Some r) w1)
      | (None, w1) \<Rightarrow>
          (case find (is_job ns n) (jobs w1) of
             None \<Rightarrow> (Inl (ApiError NotFound), record_call (JobGet ns n) (Some NotFound) w1)
           | Some j \<Rightarrow> (Inr j, record_call (JobGet ns n) None w1)))"

text \<open>Deletion with foreground propagation: the job stays, marked, until the cluster has
  removed what depends on it.\<close>

definition jobs_Delete :: "string \<Rightarrow> string \<Rightarrow> world \<Rightarrow> error option \<times> world" where
  "jobs_Delete ns n w =
     (case interact w of
        (Some r, w1) \<Rightarrow> (Some (ApiError r), record_call (JobDelete ns n) (Some r) w1)
      | (None, w1) \<Rightarrow>
          (case find (is_job ns n) (jobs w1) of
             None \<Rightarrow> (Some (ApiError NotFound), record_call (JobDelete ns n) (Some NotFound) w1)
           | Some _ \<Rightarrow>
               (None,
                record_call (JobDelete ns n) None
                  (w1\<lparr>jobs := map (\<lambda>j. if is_job ns n j then j\<lparr>deleting := True\<rparr> else j) (jobs w1)\<rparr>))))"

section \<open>Helpers shared by the controller and the node (pkg/csiplugin/common)\<close>

text \<open>A call that polls may never return: \<open>Hangs\<close> is the outcome of a polling loop whose
  condition is not met once the cluster is quiescent.\<close>

datatype 'a run = Hangs | Returns 'a

text \<open>The zero value \<open>metav1.ObjectMeta{}\<close>, from which the patches are built.\<close>

definition no_meta :: ObjectMeta where
  "no_meta =
     \<lparr>Name = [], Namespace = [], UID = [], Labels = Map.empty, Annotations = Map.empty,
      Finalizers = [], DeletionTimestamp = None\<rparr>"

definition FindPvcByLabelSelector :: "string \<Rightarrow> world \<Rightarrow> (error + ObjectMeta) \<times> world" where
  "FindPvcByLabelSelector labelSelector w =
     (case pvcs_List labelSelector w of
        (Inl err, w1) \<Rightarrow> (Inl err, w1)
      | (Inr items, w1) \<Rightarrow>
          (case items of
             [] \<Rightarrow> (Inl (ErrorString ''no objects found''), w1)
           | [item] \<Rightarrow> (Inr item, w1)
           | _ \<Rightarrow> (Inl (ErrorString ''more than one object found''), w1)))"

definition FindVolumeSnapshotByLabelSelector ::
  "string \<Rightarrow> world \<Rightarrow> (error + ObjectMeta) \<times> world" where
  "FindVolumeSnapshotByLabelSelector labelSelector w =
     (case snapshots_List labelSelector w of
        (Inl err, w1) \<Rightarrow> (Inl err, w1)
      | (Inr items, w1) \<Rightarrow>
          (case items of
             [] \<Rightarrow> (Inl (ErrorString ''no objects found''), w1)
           | [item] \<Rightarrow> (Inr item, w1)
           | _ \<Rightarrow> (Inl (ErrorString ''more than one object found''), w1)))"

definition StrategicMergePatchPvc ::
  "string \<Rightarrow> string \<Rightarrow> ObjectMeta \<Rightarrow> world \<Rightarrow> error option \<times> world" where
  "StrategicMergePatchPvc pvcName pvcNamespace patch w = pvcs_Patch pvcNamespace pvcName patch w"

definition SetPvcStateToIdle :: "string \<Rightarrow> string \<Rightarrow> world \<Rightarrow> error option \<times> world" where
  "SetPvcStateToIdle pvcName pvcNamespace w =
     StrategicMergePatchPvc pvcName pvcNamespace
       (no_meta\<lparr>Annotations := [Domain' @ ''/state'' \<mapsto> ''idle'']\<rparr>) w"

text \<open>\<open>retry.RetryOnConflict\<close> of client-go: the function runs until it returns no error or
  an error that is not a conflict, at most \<open>steps\<close> times; after that the last conflict is
  returned.  \<open>retry.DefaultRetry\<close> has five steps.\<close>

fun RetryOnConflict ::
  "nat \<Rightarrow> (world \<Rightarrow> error option \<times> world) \<Rightarrow> world \<Rightarrow> error option \<times> world" where
  "RetryOnConflict 0 fn w = (None, w)"
| "RetryOnConflict (Suc n) fn w =
     (case fn w of
        (None, w1) \<Rightarrow> (None, w1)
      | (Some err, w1) \<Rightarrow>
          (if err = ApiError Conflict \<and> n > 0 then RetryOnConflict n fn w1
           else (Some err, w1)))"

definition DefaultRetry :: nat where
  "DefaultRetry = 5"

text \<open>The body of the closure that \<open>SetPvcStateTo\<close> hands to \<open>RetryOnConflict\<close>.\<close>

definition SetPvcStateTo_body ::
  "string \<Rightarrow> string \<Rightarrow> string \<Rightarrow> world \<Rightarrow> error option \<times> world" where
  "SetPvcStateTo_body pvcName pvcNamespace newState w =
     (case pvcs_Get pvcNamespace pvcName w of
        (Inl err, w1) \<Rightarrow> (Some err, w1)
      | (Inr pvc, w1) \<Rightarrow>
          (if DeletionTimestamp pvc \<noteq> None then
             (Some (Status FailedPrecondition ''volume is being deleted''), w1)
           else
             (let state = lookup (Annotations pvc) (Domain' @ ''/state'')
              in if state = newState then (None, w1)
                 else if state = ''idle'' then
                   pvcs_Update
                     (pvc\<lparr>Annotations := (Annotations pvc)(Domain' @ ''/state'' \<mapsto> newState)\<rparr>) w1
                 else if state = ''expanding'' then
                   (Some (Status FailedPrecondition ''volume is being expanded''), w1)
                 else if state = ''cloning'' then
                   (Some (Status FailedPrecondition ''volume is being cloned''), w1)
                 else if state = ''snapshotting'' then
                   (Some (Status FailedPrecondition ''volume is being snapshotted''), w1)
                 else if state = ''staged'' then
                   (Some (Status FailedPrecondition ''volume is staged''), w1)
                 else (Some (Status FailedPrecondition ''volume is in an unknown state''), w1))))"

definition SetPvcStateTo ::
  "string \<Rightarrow> string \<Rightarrow> string \<Rightarrow> world \<Rightarrow> error option \<times> world" where
  "SetPvcStateTo pvcName pvcNamespace newState w =
     RetryOnConflict DefaultRetry (SetPvcStateTo_body pvcName pvcNamespace newState) w"

definition StagePvcOnNode_body ::
  "(string set \<Rightarrow> string list) \<Rightarrow> string \<Rightarrow> string \<Rightarrow> string \<Rightarrow> world \<Rightarrow>
     error option \<times> world" where
  "StagePvcOnNode_body iter pvcName pvcNamespace nodeName w =
     (case pvcs_Get pvcNamespace pvcName w of
        (Inl err, w1) \<Rightarrow> (Some err, w1)
      | (Inr pvc, w1) \<Rightarrow>
          (let state = lookup (Annotations pvc) (Domain' @ ''/state'')
           in if DeletionTimestamp pvc \<noteq> None then
                (Some (Status FailedPrecondition ''volume is being deleted''), w1)
              else if state = ''expanding'' then
                (Some (Status FailedPrecondition ''volume is being expanded''), w1)
              else if state = ''snapshotting'' then
                (Some (Status FailedPrecondition ''volume is being snapshotted''), w1)
              else if state = ''cloning'' then
                (Some (Status FailedPrecondition ''volume is being cloned''), w1)
              else if state \<noteq> ''idle'' \<and> state \<noteq> ''staged'' then
                (Some (Status FailedPrecondition ''volume is in an unknown state''), w1)
              else
                (let stagedOnNodes =
                       insert nodeName
                         (stringListToSet (lookup (Annotations pvc) (Domain' @ ''/staged-on-nodes'')))
                 in pvcs_Update
                      (pvc\<lparr>Annotations :=
                             (Annotations pvc)
                               (Domain' @ ''/state'' \<mapsto> ''staged'',
                                Domain' @ ''/staged-on-nodes'' \<mapsto>
                                  setToStringList iter stagedOnNodes)\<rparr>) w1)))"

definition StagePvcOnNode ::
  "(string set \<Rightarrow> string list) \<Rightarrow> string \<Rightarrow> string \<Rightarrow> string \<Rightarrow> world \<Rightarrow>
     error option \<times> world" where
  "StagePvcOnNode iter pvcName pvcNamespace nodeName w =
     RetryOnConflict DefaultRetry (StagePvcOnNode_body iter pvcName pvcNamespace nodeName) w"

definition UnstagePvcFromNode_body ::
  "(string set \<Rightarrow> string list) \<Rightarrow> string \<Rightarrow> string \<Rightarrow> string \<Rightarrow> world \<Rightarrow>
     error option \<times> world" where
  "UnstagePvcFromNode_body iter pvcName pvcNamespace nodeName w =
     (case pvcs_Get pvcNamespace pvcName w of
        (Inl err, w1) \<Rightarrow> (Some err, w1)
      | (Inr pvc, w1) \<Rightarrow>
          pvcs_Update
            (if lookup (Annotations pvc) (Domain' @ ''/state'') = ''staged'' then
               (let stagedOnNodes =
                      stringListToSet (lookup (Annotations pvc) (Domain' @ ''/staged-on-nodes''))
                        - {nodeName}
                in if card stagedOnNodes = 0 then
                     pvc\<lparr>Annotations :=
                           ((Annotations pvc)(Domain' @ ''/staged-on-nodes'' := None))
                             (Domain' @ ''/state'' \<mapsto> ''idle'')\<rparr>
                   else
                     pvc\<lparr>Annotations :=
                           (Annotations pvc)
                             (Domain' @ ''/staged-on-nodes'' \<mapsto>
                                setToStringList iter stagedOnNodes)\<rparr>)
             else pvc) w1)"

definition UnstagePvcFromNode ::
  "(string set \<Rightarrow> string list) \<Rightarrow> string \<Rightarrow> string \<Rightarrow> string \<Rightarrow> world \<Rightarrow>
     error option \<times> world" where
  "UnstagePvcFromNode iter pvcName pvcNamespace nodeName w =
     RetryOnConflict DefaultRetry (UnstagePvcFromNode_body iter pvcName pvcNamespace nodeName) w"

subsection \<open>Jobs (pkg/csiplugin/common/job.go)\<close>

definition CreateJob :: "JobConfig \<Rightarrow> world \<Rightarrow> error option \<times> world" where
  "CreateJob cfg w =
     (case jobs_Create cfg w of
        (Some err, w1) \<Rightarrow> (if err \<noteq> ApiError AlreadyExists then (Some err, w1) else (None, w1))
      | (None, w1) \<Rightarrow> (None, w1))"

lemma script_interact_le: "length (script (snd (interact w))) \<le> length (script w)"
  by (cases "script w") (auto simp: interact_def env_apply_def split: env_step.splits)

lemma script_Sleep_less: "script w \<noteq> [] \<Longrightarrow> length (script (Sleep w)) < length (script w)"
  by (cases "script w") (auto simp: Sleep_def interact_def env_apply_def split: env_step.splits)

lemma script_jobs_Get_le: "length (script (snd (jobs_Get ns n w))) \<le> length (script w)"
  using script_interact_le [of w]
  by (auto simp: jobs_Get_def record_call_def split: prod.splits option.splits)

text \<open>The polling loop of \<open>WaitForJobToSucceed\<close>.  With the script used up the next poll
  would see the same job again, so the loop would never end.\<close>

function WaitForJobToSucceed :: "string \<Rightarrow> string \<Rightarrow> world \<Rightarrow> error option run \<times> world" where
  "WaitForJobToSucceed jobName jobNamespace w =
     (case jobs_Get jobNamespace jobName w of
        (Inl err, w1) \<Rightarrow> (Returns (Some err), w1)
      | (Inr job, w1) \<Rightarrow>
          (if Succeeded job > 0 then (Returns None, w1)
           else if script w1 = [] then (Hangs, w1)
           else WaitForJobToSucceed jobName jobNamespace (Sleep w1)))"
  by pat_completeness auto
termination
proof (relation "measure (\<lambda>(jobName, jobNamespace, w). length (script w))", goal_cases)
  case 1
  show ?case by simp
next
  case (2 jobName jobNamespace w x1 w1 job)
  then have "w1 = snd (jobs_Get jobNamespace jobName w)"
    by (metis snd_conv)
  then have "length (script w1) \<le> length (script w)"
    by (simp add: script_jobs_Get_le)
  moreover have "length (script (Sleep w1)) < length (script w1)"
    using 2 by (intro script_Sleep_less) simp
  ultimately show ?case by simp
qed

declare WaitForJobToSucceed.simps [simp del]

text \<open>The loop of \<open>DeleteJobSynchronously\<close>, entered with the error of the delete call.\<close>

function DeleteJobSynchronously_loop ::
  "string \<Rightarrow> string \<Rightarrow> error option \<Rightarrow> world \<Rightarrow> error option run \<times> world" where
  "DeleteJobSynchronously_loop jobName jobNamespace err w =
     (case err of
        Some e \<Rightarrow> (if e = ApiError NotFound then (Returns None, w) else (Returns (Some e), w))
      | None \<Rightarrow>
          (if script w = [] then (Hangs, w)
           else (case jobs_Get jobNamespace jobName (Sleep w) of
                   (Inl e, w1) \<Rightarrow> DeleteJobSynchronously_loop jobName jobNamespace (Some e) w1
                 | (Inr _, w1) \<Rightarrow> DeleteJobSynchronously_loop jobName jobNamespace None w1)))"
  by pat_completeness auto
termination
proof (relation "measure (\<lambda>(jobName, jobNamespace, err, w). length (script w))", goal_cases)
  case 1
  show ?case by simp
next
  case (2 jobName jobNamespace err w x1 w1 e)
  then have "w1 = snd (jobs_Get jobNamespace jobName (Sleep w))"
    by (metis snd_conv)
  then have "length (script w1) \<le> length (script (Sleep w))"
    by (simp add: script_jobs_Get_le)
  moreover have "length (script (Sleep w)) < length (script w)"
    using 2 by (intro script_Sleep_less) simp
  ultimately show ?case by simp
next
  case (3 jobName jobNamespace err w x1 w1 j)
  then have "w1 = snd (jobs_Get jobNamespace jobName (Sleep w))"
    by (metis snd_conv)
  then have "length (script w1) \<le> length (script (Sleep w))"
    by (simp add: script_jobs_Get_le)
  moreover have "length (script (Sleep w)) < length (script w)"
    using 3 by (intro script_Sleep_less) simp
  ultimately show ?case by simp
qed

declare DeleteJobSynchronously_loop.simps [simp del]

definition DeleteJobSynchronously :: "string \<Rightarrow> string \<Rightarrow> world \<Rightarrow> error option run \<times> world" where
  "DeleteJobSynchronously jobName jobNamespace w =
     (case jobs_Delete jobNamespace jobName w of
        (err, w1) \<Rightarrow> DeleteJobSynchronously_loop jobName jobNamespace err w1)"

subsection \<open>Names of images and jobs\<close>

definition GenerateVolumeImagePath :: "string \<Rightarrow> string" where
  "GenerateVolumeImagePath pvcUid = ''/var/backing/pvc-'' @ pvcUid @ ''.qcow2''"

definition GenerateCreationJobName :: "string \<Rightarrow> string" where
  "GenerateCreationJobName pvcUid = ''subprovisioner-create-'' @ pvcUid"

definition GenerateDeletionJobName :: "string \<Rightarrow> string" where
  "GenerateDeletionJobName pvcUid = ''subprovisioner-delete-'' @ pvcUid"

definition GenerateExpansionJobName :: "string \<Rightarrow> string" where
  "GenerateExpansionJobName pvcUid = ''subprovisioner-expand-'' @ pvcUid"

section \<open>The controller service\<close>

datatype access_type = Block | Mount

datatype access_mode =
    UNKNOWN
  | SINGLE_NODE_WRITER
  | SINGLE_NODE_READER_ONLY
  | MULTI_NODE_READER_ONLY
  | MULTI_NODE_SINGLE_WRITER
  | MULTI_NODE_MULTI_WRITER
  | SINGLE_NODE_SINGLE_WRITER
  | SINGLE_NODE_MULTI_WRITER

text \<open>A capability's access type is a one-of (\<open>GetBlock()\<close> is nil unless it is \<open>Block\<close>); its
  access mode is a pointer, which the code dereferences unchecked.\<close>

record VolumeCapability =
  AccessType :: "access_type option"
  AccessMode :: "access_mode option"

datatype content_source = VolumeSource string | SnapshotSource string | NoSourceType

record CreateVolumeRequest =
  Parameters :: "string \<rightharpoonup> string"
  cvCapacityRange :: "CapacityRange option"
  VolumeCapabilities :: "VolumeCapability list"
  VolumeContentSource :: "content_source option"

record Volume =
  CapacityBytes :: int
  VolumeId :: string
  VolumeContext :: "string \<rightharpoonup> string"
  ContentSource :: "content_source option"

record ControllerExpandVolumeRequest =
  exVolumeId :: string
  exCapacityRange :: "CapacityRange option"

record ControllerExpandVolumeResponse =
  exCapacityBytes :: int
  NodeExpansionRequired :: bool

definition creationScript :: string where
  \<open>creationScript =
     ''\<newline>set -o errexit -o pipefail -o nounset -o xtrace\<newline>\<newline>source="$1"\<newline>dest="$2"\<newline>common_ancestor_relative="$3"\<newline>capacity="$4"\<newline>\<newline># It's okay if we leave the "destination" volume image messed up when volume creation is cancelled, but\<newline># the same doesn't hold for the "source" volume image. Hence we replace the source volume image\<newline># atomically as the last operation.\<newline>\<newline>ln -f "${source}" "/var/backing/${common_ancestor_relative}"\<newline>\<newline>qemu-img create -f qcow2 -b "${common_ancestor_relative}" -F qcow2 "${dest}" "${capacity}"\<newline>\<newline>qemu-img create -f qcow2 -b "${common_ancestor_relative}" -F qcow2 "${source}.new"\<newline>mv -f "${source}.new" "${source}"\<newline>\<newline>chmod a-w "/var/backing/${common_ancestor_relative}"  # should never modify this image\<newline>''\<close>

definition expansionScript :: string where
  \<open>expansionScript =
     ''\<newline>set -o errexit -o pipefail -o nounset -o xtrace\<newline>size="$( qemu-img info -f qcow2 --output=json "$1" | jq '.["virtual-size"]' )"\<newline>if [ "${size}" -lt "$2" ]; then\<newline>    qemu-img resize -f qcow2 "$1" "$2"\<newline>fi\<newline>''\<close>

definition getParameter :: "CreateVolumeRequest \<Rightarrow> string \<Rightarrow> error + string" where
  "getParameter req key =
     (let v = lookup (Parameters req) key
      in if v = [] then
           Inl (Status InvalidArgument (''missing/empty parameter '' @ [dquote] @ key @ [dquote]))
         else Inr v)"

text \<open>The loop of \<open>CreateVolume\<close> over the requested capabilities.\<close>

fun check_capabilities :: "VolumeCapability list \<Rightarrow> error option" where
  "check_capabilities [] = None"
| "check_capabilities (cap # caps) =
     (if AccessType cap \<noteq> Some Block then
        Some (Status InvalidArgument ''only block volumes are supported'')
      else
        (case AccessMode cap of
           None \<Rightarrow> Some (Panic ''nil pointer dereference'')
         | Some m \<Rightarrow>
             (if m = SINGLE_NODE_WRITER \<or> m = SINGLE_NODE_READER_ONLY \<or>
                 m = MULTI_NODE_READER_ONLY \<or> m = SINGLE_NODE_SINGLE_WRITER \<or>
                 m = SINGLE_NODE_MULTI_WRITER
              then check_capabilities caps
              else
                Some (Status InvalidArgument
                  ''only access modes ReadWriteOnce, ReadWriteOncePod, and ReadOnlyMany are supported''))))"

definition createVolumeFromNothing ::
  "string \<Rightarrow> string \<Rightarrow> string \<Rightarrow> string \<Rightarrow> ObjectMeta \<Rightarrow> int \<Rightarrow> world \<Rightarrow>
     error option run \<times> world" where
  "createVolumeFromNothing simage backingPvcName backingPvcNamespace backingPvcBasePath pvc
       capacity w =
     (let volumeImagePath = GenerateVolumeImagePath (UID pvc);
          creationJobName = GenerateCreationJobName (UID pvc)
      in case CreateJob
                \<lparr>cfgName = creationJobName,
                 cfgNamespace = backingPvcNamespace,
                 cfgLabels =
                   [Domain' @ ''/component'' \<mapsto> ''volume-creation'',
                    Domain' @ ''/pvc-uid'' \<mapsto> UID pvc],
                 Image = simage,
                 Command =
                   [''qemu-img'', ''create'', ''-f'', ''qcow2'', volumeImagePath,
                    FormatInt capacity],
                 Args = [],
                 BackingPvcName = backingPvcName,
                 BackingPvcBasePath = backingPvcBasePath\<rparr> w of
           (Some err, w1) \<Rightarrow> (Returns (Some err), w1)
         | (None, w1) \<Rightarrow> WaitForJobToSucceed creationJobName backingPvcNamespace w1)"

definition createVolumeFromVolume ::
  "string \<Rightarrow> string \<Rightarrow> string \<Rightarrow> string \<Rightarrow> ObjectMeta \<Rightarrow> int \<Rightarrow> int \<Rightarrow> string \<Rightarrow> world \<Rightarrow>
     error option run \<times> world" where
  "createVolumeFromVolume simage backingPvcName backingPvcNamespace backingPvcBasePath destPvc
       capacity maxCapacity sourcePvcUid w =
     (case FindPvcByLabelSelector (Domain' @ ''/uid='' @ sourcePvcUid) w of
        (Inl err, w1) \<Rightarrow> (Returns (Some err), w1)
      | (Inr sourcePvc, w1) \<Rightarrow>
     (case SetPvcStateTo (Name sourcePvc) (Namespace sourcePvc) ''cloning'' w1 of
        (Some err, w2) \<Rightarrow> (Returns (Some err), w2)
      | (None, w2) \<Rightarrow>
     (case ParseInt (lookup (Annotations sourcePvc) (Domain' @ ''/capacity'')) of
        None \<Rightarrow>
          (Returns (Some (Status Unknown ''failed to determine source volume capacity'')), w2)
      | Some sourceCapacity \<Rightarrow>
          (if maxCapacity \<noteq> 0 \<and> sourceCapacity > maxCapacity then
             (Returns (Some (Status InvalidArgument
                (''source volume capacity ('' @ FormatInt sourceCapacity @
                 '') exceeds maximum capacity ('' @ FormatInt maxCapacity @ '')''))), w2)
           else
             (let capacity = (if capacity < sourceCapacity then sourceCapacity else capacity);
                  sourceVolumeImagePath = GenerateVolumeImagePath (UID sourcePvc);
                  destVolumeImagePath = GenerateVolumeImagePath (UID destPvc);
                  commonAncestorImageName =
                    ''cloned-'' @ UID sourcePvc @ ''-to-'' @ UID destPvc @ ''.qcow2'';
                  creationJobName = GenerateCreationJobName (UID destPvc)
              in case CreateJob
                        \<lparr>cfgName = creationJobName,
                         cfgNamespace = backingPvcNamespace,
                         cfgLabels =
                           [Domain' @ ''/component'' \<mapsto> ''volume-creation'',
                            Domain' @ ''/pvc-uid'' \<mapsto> UID destPvc],
                         Image = simage,
                         Command =
                           [''bash'', ''-c'', creationScript, ''bash'',
                            sourceVolumeImagePath, destVolumeImagePath, commonAncestorImageName,
                            FormatInt capacity],
                         Args = [],
                         BackingPvcName = backingPvcName,
                         BackingPvcBasePath = backingPvcBasePath\<rparr> w2 of
                   (Some err, w3) \<Rightarrow> (Returns (Some err), w3)
                 | (None, w3) \<Rightarrow>
                (case WaitForJobToSucceed creationJobName backingPvcNamespace w3 of
                   (Hangs, w4) \<Rightarrow> (Hangs, w4)
                 | (Returns (Some err), w4) \<Rightarrow> (Returns (Some err), w4)
                 | (Returns None, w4) \<Rightarrow>
                (case SetPvcStateToIdle (Name sourcePvc) (Namespace sourcePvc) w4 of
                   (err, w5) \<Rightarrow> (Returns err, w5))))))))"

definition createVolumeFromSnapshot ::
  "string \<Rightarrow> string \<Rightarrow> string \<Rightarrow> string \<Rightarrow> ObjectMeta \<Rightarrow> int \<Rightarrow> int \<Rightarrow> string \<Rightarrow> world \<Rightarrow>
     error option run \<times> world" where
  "createVolumeFromSnapshot simage backingPvcName backingPvcNamespace backingPvcBasePath destPvc
       capacity maxCapacity volumeSnapshotUid w =
     (case FindVolumeSnapshotByLabelSelector (Domain' @ ''/uid='' @ volumeSnapshotUid) w of
        (Inl err, w1) \<Rightarrow> (Returns (Some err), w1)
      | (Inr volumeSnapshot, w1) \<Rightarrow>
     (case ParseInt (lookup (Annotations volumeSnapshot) (Domain' @ ''/size'')) of
        None \<Rightarrow> (Returns (Some (Status Unknown ''failed to determine source snapshot size'')), w1)
      | Some snapshotSize \<Rightarrow>
          (if maxCapacity \<noteq> 0 \<and> snapshotSize > maxCapacity then
             (Returns (Some (Status InvalidArgument
                (''source snapshot size ('' @ FormatInt snapshotSize @
                 '') exceeds maximum capacity ('' @ FormatInt maxCapacity @ '')''))), w1)
           else
             (let capacity = (if capacity < snapshotSize then snapshotSize else capacity);
                  creationJobName = GenerateCreationJobName (UID destPvc)
              in case CreateJob
                        \<lparr>cfgName = creationJobName,
                         cfgNamespace = backingPvcNamespace,
                         cfgLabels =
                           [Domain' @ ''/component'' \<mapsto> ''volume-creation'',
                            Domain' @ ''/pvc-uid'' \<mapsto> UID destPvc],
                         Image = simage,
                         Command =
                           [''qemu-img'', ''create'', ''-f'', ''qcow2'',
                            ''-b'', ''snapshot-'' @ UID volumeSnapshot @ ''.qcow2'',
                            ''-F'', ''qcow2'',
                            ''/var/backing/pvc-'' @ UID destPvc @ ''.qcow2'',
                            FormatInt capacity],
                         Args = [],
                         BackingPvcName = backingPvcName,
                         BackingPvcBasePath = backingPvcBasePath\<rparr> w1 of
                   (Some err, w2) \<Rightarrow> (Returns (Some err), w2)
                 | (None, w2) \<Rightarrow> WaitForJobToSucceed creationJobName backingPvcNamespace w2))))"

text \<open>The patch that puts the cleanup finalizer, the uid label and the annotations on a new
  claim.\<close>

definition creation_patch :: "ObjectMeta \<Rightarrow> string \<Rightarrow> string \<Rightarrow> string \<Rightarrow> int \<Rightarrow> ObjectMeta" where
  "creation_patch pvc backingPvcName backingPvcNamespace backingPvcBasePath capacity =
     no_meta
       \<lparr>Labels := [Domain' @ ''/uid'' \<mapsto> UID pvc],
        Annotations :=
          [Domain' @ ''/backing-pvc-name'' \<mapsto> backingPvcName,
           Domain' @ ''/backing-pvc-namespace'' \<mapsto> backingPvcNamespace,
           Domain' @ ''/backing-pvc-base-path'' \<mapsto> backingPvcBasePath,
           Domain' @ ''/capacity'' \<mapsto> FormatInt capacity,
           Domain' @ ''/state'' \<mapsto> ''idle''],
        Finalizers := [Domain' @ ''/cleanup'']\<rparr>"

definition CreateVolume ::
  "string \<Rightarrow> CreateVolumeRequest \<Rightarrow> world \<Rightarrow> (error + Volume) run \<times> world" where
  "CreateVolume simage req w =
     (case getParameter req ''csi.storage.k8s.io/pvc/name'' of
        Inl err \<Rightarrow> (Returns (Inl err), w)
      | Inr pvcName \<Rightarrow>
     (case getParameter req ''csi.storage.k8s.io/pvc/namespace'' of
        Inl err \<Rightarrow> (Returns (Inl err), w)
      | Inr pvcNamespace \<Rightarrow>
     (case getParameter req ''backingClaimName'' of
        Inl err \<Rightarrow> (Returns (Inl err), w)
      | Inr backingPvcName \<Rightarrow>
     (case getParameter req ''backingClaimNamespace'' of
        Inl err \<Rightarrow> (Returns (Inl err), w)
      | Inr backingPvcNamespace \<Rightarrow>
     (let backingPvcBasePath = lookup (Parameters req) ''basePath''
      in case pvcs_Get pvcNamespace pvcName w of
           (Inl err, w1) \<Rightarrow> (Returns (Inl err), w1)
         | (Inr pvc, w1) \<Rightarrow>
     (case validateCapacity (cvCapacityRange req) of
        (capacity, minCapacity, maxCapacity, Some err) \<Rightarrow> (Returns (Inl err), w1)
      | (capacity, minCapacity, maxCapacity, None) \<Rightarrow>
     (case check_capabilities (VolumeCapabilities req) of
        Some err \<Rightarrow> (Returns (Inl err), w1)
      | None \<Rightarrow>
     (case StrategicMergePatchPvc pvcName pvcNamespace
             (creation_patch pvc backingPvcName backingPvcNamespace backingPvcBasePath capacity)
             w1 of
        (Some err, w2) \<Rightarrow> (Returns (Inl err), w2)
      | (None, w2) \<Rightarrow>
     (case (case VolumeContentSource req of
              None \<Rightarrow>
                createVolumeFromNothing simage backingPvcName backingPvcNamespace
                  backingPvcBasePath pvc capacity w2
            | Some (VolumeSource sourceVolumeId) \<Rightarrow>
                createVolumeFromVolume simage backingPvcName backingPvcNamespace
                  backingPvcBasePath pvc capacity maxCapacity sourceVolumeId w2
            | Some (SnapshotSource sourceSnapshotId) \<Rightarrow>
                createVolumeFromSnapshot simage backingPvcName backingPvcNamespace
                  backingPvcBasePath pvc capacity maxCapacity sourceSnapshotId w2
            | Some NoSourceType \<Rightarrow>
                (Returns (Some (Status InvalidArgument ''unsupported volume content source'')),
                 w2)) of
        (Hangs, w3) \<Rightarrow> (Hangs, w3)
      | (Returns (Some err), w3) \<Rightarrow> (Returns (Inl err), w3)
      | (Returns None, w3) \<Rightarrow>
          (Returns (Inr
             \<lparr>CapacityBytes = capacity,
              VolumeId = UID pvc,
              VolumeContext =
                [''pvcName'' \<mapsto> pvcName,
                 ''pvcNamespace'' \<mapsto> pvcNamespace,
                 ''backingPvcName'' \<mapsto> backingPvcName,
                 ''backingPvcNamespace'' \<mapsto> backingPvcNamespace,
                 ''backingPvcBasePath'' \<mapsto> backingPvcBasePath],
              ContentSource = VolumeContentSource req\<rparr>), w3))))))))))"

definition ControllerExpandVolume ::
  "string \<Rightarrow> ControllerExpandVolumeRequest \<Rightarrow> world \<Rightarrow>
     (error + ControllerExpandVolumeResponse) run \<times> world" where
  "ControllerExpandVolume simage req w =
     (if exVolumeId req = [] then
        (Returns (Inl (Status InvalidArgument ''must specify volume id'')), w)
      else
     (case validateCapacity (exCapacityRange req) of
        (capacity, minCapacity, maxCapacity, Some err) \<Rightarrow> (Returns (Inl err), w)
      | (capacity, minCapacity, maxCapacity, None) \<Rightarrow>
     (let pvcUid = exVolumeId req
      in case FindPvcByLabelSelector (Domain' @ ''/uid='' @ pvcUid) w of
           (Inl err, w1) \<Rightarrow> (Returns (Inl err), w1)
         | (Inr pvc, w1) \<Rightarrow>
     (let backingPvcName = lookup (Annotations pvc) (Domain' @ ''/backing-pvc-name'');
          backingPvcNamespace = lookup (Annotations pvc) (Domain' @ ''/backing-pvc-namespace'');
          backingPvcBasePath = lookup (Annotations pvc) (Domain' @ ''/backing-pvc-base-path'')
      in case ParseInt (lookup (Annotations pvc) (Domain' @ ''/capacity'')) of
           None \<Rightarrow>
             (Returns (Inl (Status Unknown ''failed to determine current volume capacity'')), w1)
         | Some currentCapacity \<Rightarrow>
     (if maxCapacity \<noteq> 0 \<and> currentCapacity > maxCapacity then
        (Returns (Inl (Status InvalidArgument
           (''current volume capacity ('' @ FormatInt currentCapacity @
            '') exceeds maximum capacity ('' @ FormatInt maxCapacity @ '')''))), w1)
      else if currentCapacity \<ge> capacity then
        (Returns (Inr \<lparr>exCapacityBytes = currentCapacity, NodeExpansionRequired = False\<rparr>), w1)
      else
     (case SetPvcStateTo (Name pvc) (Namespace pvc) ''expanding'' w1 of
        (Some err, w2) \<Rightarrow> (Returns (Inl err), w2)
      | (None, w2) \<Rightarrow>
     (let volumeImagePath = GenerateVolumeImagePath (UID pvc);
          expansionJobName = GenerateExpansionJobName (UID pvc)
      in case CreateJob
                \<lparr>cfgName = expansionJobName,
                 cfgNamespace = backingPvcNamespace,
                 cfgLabels =
                   [Domain' @ ''/component'' \<mapsto> ''volume-expansion'',
                    Domain' @ ''/pvc-uid'' \<mapsto> UID pvc],
                 Image = simage,
                 Command =
                   [''bash'', ''-c'', expansionScript, ''bash'',
                    volumeImagePath, FormatInt capacity],
                 Args = [],
                 BackingPvcName = backingPvcName,
                 BackingPvcBasePath = backingPvcBasePath\<rparr> w2 of
           (Some err, w3) \<Rightarrow> (Returns (Inl err), w3)
         | (None, w3) \<Rightarrow>
     (case WaitForJobToSucceed expansionJobName backingPvcNamespace w3 of
        (Hangs, w4) \<Rightarrow> (Hangs, w4)
      | (Returns (Some err), w4) \<Rightarrow> (Returns (Inl err), w4)
      | (Returns None, w4) \<Rightarrow>
     (case DeleteJobSynchronously expansionJobName backingPvcNamespace w4 of
        (Hangs, w5) \<Rightarrow> (Hangs, w5)
      | (Returns (Some err), w5) \<Rightarrow> (Returns (Inl err), w5)
      | (Returns None, w5) \<Rightarrow>
     (case StrategicMergePatchPvc (Name pvc) (Namespace pvc)
             (no_meta
                \<lparr>Annotations :=
                   [Domain' @ ''/capacity'' \<mapsto> FormatInt capacity,
                    Domain' @ ''/state'' \<mapsto> ''idle'']\<rparr>) w5 of
        (Some err, w6) \<Rightarrow> (Returns (Inl err), w6)
      | (None, w6) \<Rightarrow>
          (Returns (Inr \<lparr>exCapacityBytes = capacity, NodeExpansionRequired = False\<rparr>),
           w6)))))))))))"

section \<open>The deletion reaper (pkg/csiplugin/controller/monitor.go)\<close>

text \<open>The work queue of the reaper: the keys waiting, the keys handed back for a later
  retry (\<open>AddRateLimited\<close>), and whether the queue is shutting down.\<close>

record pvcDeletionController =
  cimage :: string
  queue :: "string list"
  requeued :: "string list"
  shuttingDown :: bool

text \<open>\<open>cache.SplitMetaNamespaceKey\<close>: \<open>name\<close> or \<open>namespace/name\<close>.\<close>

definition SplitMetaNamespaceKey :: "string \<Rightarrow> (string \<times> string) option" where
  "SplitMetaNamespaceKey key =
     (case Split slash key of
        [n] \<Rightarrow> Some ([], n)
      | [ns, n] \<Rightarrow> Some (ns, n)
      | _ \<Rightarrow> None)"

definition AddRateLimited :: "string \<Rightarrow> pvcDeletionController \<Rightarrow> pvcDeletionController" where
  "AddRateLimited key c = c\<lparr>requeued := requeued c @ [key]\<rparr>"

text \<open>The closure of \<open>deleteVolume\<close> that drops the cleanup finalizer.\<close>

definition removeFinalizer_body :: "ObjectMeta \<Rightarrow> world \<Rightarrow> error option \<times> world" where
  "removeFinalizer_body pvc w =
     (case pvcs_Get (Namespace pvc) (Name pvc) w of
        (Inl err, w1) \<Rightarrow> (Some err, w1)
      | (Inr pvc', w1) \<Rightarrow>
          pvcs_Update (pvc'\<lparr>Finalizers := remove1 (Domain' @ ''/cleanup'') (Finalizers pvc')\<rparr>) w1)"

definition deleteVolume ::
  "pvcDeletionController \<Rightarrow> ObjectMeta \<Rightarrow> world \<Rightarrow> error option run \<times> world" where
  "deleteVolume c pvc w =
     (let backingPvcName = lookup (Annotations pvc) (Domain' @ ''/backing-pvc-name'');
          backingPvcNamespace = lookup (Annotations pvc) (Domain' @ ''/backing-pvc-namespace'');
          backingPvcBasePath = lookup (Annotations pvc) (Domain' @ ''/backing-pvc-base-path'');
          creationJobName = GenerateCreationJobName (UID pvc)
      in case DeleteJobSynchronously creationJobName backingPvcNamespace w of
           (Hangs, w1) \<Rightarrow> (Hangs, w1)
         | (Returns (Some err), w1) \<Rightarrow> (Returns (Some err), w1)
         | (Returns None, w1) \<Rightarrow>
     (let volumeImagePath = GenerateVolumeImagePath (UID pvc);
          deletionJobName = GenerateDeletionJobName (UID pvc)
      in case CreateJob
                \<lparr>cfgName = deletionJobName,
                 cfgNamespace = backingPvcNamespace,
                 cfgLabels =
                   [Domain' @ ''/component'' \<mapsto> ''volume-deletion'',
                    Domain' @ ''/pvc-uid'' \<mapsto> UID pvc],
                 Image = cimage c,
                 Command = [''rm'', ''-f'', volumeImagePath],
                 Args = [],
                 BackingPvcName = backingPvcName,
                 BackingPvcBasePath = backingPvcBasePath\<rparr> w1 of
           (Some err, w2) \<Rightarrow> (Returns (Some err), w2)
         | (None, w2) \<Rightarrow>
     (case WaitForJobToSucceed deletionJobName backingPvcNamespace w2 of
        (Hangs, w3) \<Rightarrow> (Hangs, w3)
      | (Returns (Some err), w3) \<Rightarrow> (Returns (Some err), w3)
      | (Returns None, w3) \<Rightarrow>
     (case DeleteJobSynchronously deletionJobName backingPvcNamespace w3 of
        (Hangs, w4) \<Rightarrow> (Hangs, w4)
      | (Returns (Some err), w4) \<Rightarrow> (Returns (Some err), w4)
      | (Returns None, w4) \<Rightarrow>
     (case RetryOnConflict DefaultRetry (removeFinalizer_body pvc) w4 of
        (err, w5) \<Rightarrow> (Returns err, w5))))))"

text \<open>\<open>processNextItem\<close> takes the next key of the queue; taking from an empty queue blocks
  unless the queue is shutting down.  The result is whether the worker goes on, with the
  queue and the cluster as the call leaves them.\<close>

definition processNextItem ::
  "pvcDeletionController \<Rightarrow> world \<Rightarrow> bool run \<times> pvcDeletionController \<times> world" where
  "processNextItem c w =
     (case queue c of
        [] \<Rightarrow> (if shuttingDown c then (Returns False, c, w) else (Hangs, c, w))
      | key # rest \<Rightarrow>
     (let c1 = c\<lparr>queue := rest\<rparr>
      in case SplitMetaNamespaceKey key of
           None \<Rightarrow> (Returns True, AddRateLimited key c1, w)
         | Some (pvcNamespace, pvcName) \<Rightarrow>
     (case pvcs_Get pvcNamespace pvcName w of
        (Inl err, w1) \<Rightarrow>
          (if err \<noteq> ApiError NotFound then (Returns True, AddRateLimited key c1, w1)
           else (Returns True, c1, w1))
      | (Inr pvc, w1) \<Rightarrow>
          (let pvcIsStaged = (lookup (Annotations pvc) (Domain' @ ''/staged-on-nodes'') \<noteq> []);
               pvcHasFinalizer = (Domain' @ ''/cleanup'' \<in> set (Finalizers pvc))
           in if \<not> pvcIsStaged \<and> pvcHasFinalizer then
                (case deleteVolume c1 pvc w1 of
                   (Hangs, w2) \<Rightarrow> (Hangs, c1, w2)
                 | (Returns (Some err), w2) \<Rightarrow> (Returns True, AddRateLimited key c1, w2)
                 | (Returns None, w2) \<Rightarrow> (Returns True, c1, w2))
              else (Returns True, c1, w1)))))"

section \<open>Vocabulary of the properties\<close>

text \<open>\<open>answers k w\<close>: none of the next \<open>k\<close> steps of the script is a fault, so the next \<open>k\<close>
  calls to the store are answered from its contents.\<close>

definition is_Fault :: "env_step \<Rightarrow> bool" where
  "is_Fault s = (case s of Fault _ \<Rightarrow> True | _ \<Rightarrow> False)"

definition answers :: "nat \<Rightarrow> world \<Rightarrow> bool" where
  "answers k w \<longleftrightarrow> list_all (\<lambda>s. \<not> is_Fault s) (take k (script w))"

text \<open>The claim with its state annotation set, and a store in which the claim
  \<open>namespace/name\<close> has been replaced.\<close>

definition with_state :: "string \<Rightarrow> ObjectMeta \<Rightarrow> ObjectMeta" where
  "with_state s pvc = pvc\<lparr>Annotations := (Annotations pvc)(Domain' @ ''/state'' \<mapsto> s)\<rparr>"

definition replaced :: "string \<Rightarrow> string \<Rightarrow> ObjectMeta \<Rightarrow> ObjectMeta list \<Rightarrow> ObjectMeta list" where
  "replaced ns n p objs = map (\<lambda>ob. if is_obj ns n ob then p else ob) objs"

text \<open>A small cluster for the examples: one claim \<open>ns/vol\<close> with the cleanup finalizer, in a
  quiescent cluster.\<close>

definition sample_claim :: "string \<Rightarrow> ObjectMeta" where
  "sample_claim st =
     \<lparr>Name = ''vol'', Namespace = ''ns'', UID = ''u1'',
      Labels = [Domain' @ ''/uid'' \<mapsto> ''u1''],
      Annotations = [Domain' @ ''/state'' \<mapsto> st, Domain' @ ''/capacity'' \<mapsto> ''1024''],
      Finalizers = [Domain' @ ''/cleanup''],
      DeletionTimestamp = None\<rparr>"

definition sample_world :: "ObjectMeta \<Rightarrow> world" where
  "sample_world pvc = \<lparr>pvcs = [pvc], snapshots = [], jobs = [], script = [], trace = []\<rparr>"

definition staged_claim :: "string \<Rightarrow> ObjectMeta" where
  "staged_claim nodes =
     (sample_claim ''staged'')
       \<lparr>Annotations :=
          (Annotations (sample_claim ''staged''))(Domain' @ ''/staged-on-nodes'' \<mapsto> nodes)\<rparr>"

text \<open>A claim without a state annotation, and the same claim marked for deletion.\<close>

definition stateless_claim :: ObjectMeta where
  "stateless_claim =
     \<lparr>Name = ''vol'', Namespace = ''ns'', UID = ''u1'',
      Labels = [Domain' @ ''/uid'' \<mapsto> ''u1''],
      Annotations = Map.empty,
      Finalizers = [Domain' @ ''/cleanup''],
      DeletionTimestamp = None\<rparr>"

definition doomed_claim :: ObjectMeta where
  "doomed_claim = stateless_claim\<lparr>DeletionTimestamp := Some 0\<rparr>"

text \<open>\<open>extends P w w'\<close>: the trace of \<open>w'\<close> is the trace of \<open>w\<close> followed by calls that all
  satisfy \<open>P\<close>.\<close>

definition extends :: "(call \<Rightarrow> bool) \<Rightarrow> world \<Rightarrow> world \<Rightarrow> bool" where
  "extends P w w' \<longleftrightarrow> (\<exists>es. trace w' = trace w @ es \<and> list_all (\<lambda>e. P (fst e)) es)"

definition is_JobCreate :: "call \<Rightarrow> bool" where
  "is_JobCreate c = (case c of JobCreate _ \<Rightarrow> True | _ \<Rightarrow> False)"

text \<open>A cluster in which a new claim \<open>ns/new\<close> is to be filled from a snapshot of recorded
  size 1024, with a request for 512 bytes; the creation job succeeds when first polled.\<close>

definition new_claim :: ObjectMeta where
  "new_claim =
     \<lparr>Name = ''new'', Namespace = ''ns'', UID = ''u2'', Labels = Map.empty,
      Annotations = Map.empty, Finalizers = [], DeletionTimestamp = None\<rparr>"

definition sample_snapshot :: ObjectMeta where
  "sample_snapshot =
     \<lparr>Name = ''snap'', Namespace = ''ns'', UID = ''s1'',
      Labels = [Domain' @ ''/uid'' \<mapsto> ''s1''],
      Annotations = [Domain' @ ''/size'' \<mapsto> ''1024''],
      Finalizers = [], DeletionTimestamp = None\<rparr>"

definition restore_world :: world where
  "restore_world =
     \<lparr>pvcs = [new_claim], snapshots = [sample_snapshot], jobs = [],
      script = [Quiet, Quiet, Quiet, Quiet, JobSucceeds ''backing'' ''subprovisioner-create-u2''],
      trace = []\<rparr>"

definition restore_request :: CreateVolumeRequest where
  "restore_request =
     \<lparr>Parameters =
        [''csi.storage.k8s.io/pvc/name'' \<mapsto> ''new'',
         ''csi.storage.k8s.io/pvc/namespace'' \<mapsto> ''ns'',
         ''backingClaimName'' \<mapsto> ''shared'',
         ''backingClaimNamespace'' \<mapsto> ''backing''],
      cvCapacityRange = Some \<lparr>RequiredBytes = 512, LimitBytes = 0\<rparr>,
      VolumeCapabilities = [\<lparr>AccessType = Some Block, AccessMode = Some SINGLE_NODE_WRITER\<rparr>],
      VolumeContentSource = Some (SnapshotSource ''s1'')\<rparr>"

text \<open>The same for a clone of the sample claim (recorded capacity 1024).\<close>

definition clone_world :: world where
  "clone_world =
     \<lparr>pvcs = [sample_claim ''idle''], snapshots = [], jobs = [],
      script = [Quiet, Quiet, Quiet, Quiet, JobSucceeds ''backing'' ''subprovisioner-create-u2''],
      trace = []\<rparr>"

text \<open>The whole call for such a clone: the new claim and the source are both in the
  cluster, and the request names the source by its uid.\<close>

definition clone_request :: CreateVolumeRequest where
  "clone_request = restore_request\<lparr>VolumeContentSource := Some (VolumeSource ''u1'')\<rparr>"

definition clone_create_world :: world where
  "clone_create_world =
     \<lparr>pvcs = [new_claim, sample_claim ''idle''], snapshots = [], jobs = [],
      script =
        [Quiet, Quiet, Quiet, Quiet, Quiet, Quiet,
         JobSucceeds ''backing'' ''subprovisioner-create-u2''],
      trace = []\<rparr>"

text \<open>A claim marked for deletion, with the reaper's queue holding its key, in a cluster
  where the deletion job succeeds when first polled and is removed once its deletion was
  asked for.\<close>

definition condemned_claim :: "string \<Rightarrow> ObjectMeta" where
  "condemned_claim st =
     \<lparr>Name = ''vol'', Namespace = ''ns'', UID = ''u1'',
      Labels = [Domain' @ ''/uid'' \<mapsto> ''u1''],
      Annotations =
        [Domain' @ ''/state'' \<mapsto> st,
         Domain' @ ''/capacity'' \<mapsto> ''1024'',
         Domain' @ ''/backing-pvc-name'' \<mapsto> ''shared'',
         Domain' @ ''/backing-pvc-namespace'' \<mapsto> ''backing'',
         Domain' @ ''/backing-pvc-base-path'' \<mapsto> []],
      Finalizers = [Domain' @ ''/cleanup''],
      DeletionTimestamp = Some 0\<rparr>"

definition reaper_world :: "ObjectMeta \<Rightarrow> world" where
  "reaper_world pvc =
     \<lparr>pvcs = [pvc], snapshots = [], jobs = [],
      script =
        [Quiet, Quiet, Quiet, JobSucceeds ''backing'' ''subprovisioner-delete-u1'', Quiet,
         JobRemoved ''backing'' ''subprovisioner-delete-u1''],
      trace = []\<rparr>"

definition reaper :: pvcDeletionController where
  "reaper = \<lparr>cimage = ''img'', queue = [''ns/vol''], requeued = [], shuttingDown = False\<rparr>"

text \<open>The calls with which the reaper deletes a job, creates one or writes a claim.\<close>

definition is_write :: "call \<Rightarrow> bool" where
  "is_write c =
     (case c of
        JobDelete _ _ \<Rightarrow> True
      | JobCreate _ \<Rightarrow> True
      | PvcUpdate _ \<Rightarrow> True
      | PvcPatch _ _ _ \<Rightarrow> True
      | _ \<Rightarrow> False)"

text \<open>The same claim while a node still has it staged.\<close>

definition held_claim :: ObjectMeta where
  "held_claim =
     (condemned_claim ''idle'')
       \<lparr>Annotations :=
          (Annotations (condemned_claim ''idle''))(Domain' @ ''/staged-on-nodes'' \<mapsto> ''node-a'')\<rparr>"

text \<open>The calls of that kind made between two moments of a run, in order.\<close>

definition writes_since :: "world \<Rightarrow> world \<Rightarrow> call list" where
  "writes_since w w' = filter is_write (map fst (drop (length (trace w)) (trace w')))"


section \<open>The staged-on-nodes encoding round-trips\<close>

lemma valid_range_sorted_list_of_set: "valid_range sorted_list_of_set"
  by (simp add: valid_range_def)

lemma valid_range_empty: "valid_range iter \<Longrightarrow> iter {} = []"
proof -
  assume "valid_range iter"
  then have "set (iter {}) = {}"
    unfolding valid_range_def by blast
  then show ?thesis by simp
qed

lemma Split_no_sep: "sep \<notin> set x \<Longrightarrow> Split sep x = [x]"
  by (induction x) auto

lemma Split_append_sep:
  "sep \<notin> set x \<Longrightarrow> Split sep (x @ sep # rest) = x # Split sep rest"
  by (induction x) auto

lemma Split_items:
  "sep \<notin> set x \<Longrightarrow> \<forall>y\<in>set ys. sep \<notin> set y \<Longrightarrow>
   Split sep (x @ concat (map (\<lambda>y. sep # y) ys)) = x # ys"
proof (induction ys arbitrary: x)
  case Nil
  then show ?case by (simp add: Split_no_sep)
next
  case (Cons y ys)
  have "Split sep (x @ sep # (y @ concat (map (\<lambda>y. sep # y) ys))) =
        x # Split sep (y @ concat (map (\<lambda>y. sep # y) ys))"
    using Cons.prems(1) by (rule Split_append_sep)
  with Cons show ?case by simp
qed

lemma set_Split_no_sep: "x \<in> set (Split sep s) \<Longrightarrow> sep \<notin> set x"
  by (induction s arbitrary: x) (auto split: if_splits list.splits)

lemma setToStringList_loop_False:
  "setToStringList_loop xs builder False = builder @ concat (map (\<lambda>y. comma # y) xs)"
  by (induction xs arbitrary: builder) auto

lemma setToStringList_loop_True:
  "setToStringList_loop (x # xs) [] True = x @ concat (map (\<lambda>y. comma # y) xs)"
  by (simp add: setToStringList_loop_False)

lemma foldl_insert: "foldl (\<lambda>s item. insert item s) A xs = A \<union> set xs"
  by (induction xs arbitrary: A) auto

lemma stringListToSet_eq: "stringListToSet list = (if list = [] then {} else set (Split comma list))"
  by (simp add: stringListToSet_def foldl_insert)

lemma finite_stringListToSet: "finite (stringListToSet list)"
  by (simp add: stringListToSet_eq)

lemma stringListToSet_no_comma: "x \<in> stringListToSet list \<Longrightarrow> comma \<notin> set x"
  by (auto simp: stringListToSet_eq dest: set_Split_no_sep split: if_splits)

text \<open>The encoding of a list of items decodes to its set, unless the list is the single
  empty string (which encodes to the empty string, like the empty set).\<close>

lemma stringListToSet_loop_roundtrip:
  assumes "xs \<noteq> []" "xs \<noteq> [[]]" "\<forall>x\<in>set xs. comma \<notin> set x"
  shows "stringListToSet (setToStringList_loop xs [] True) = set xs"
proof -
  from assms(1) obtain x ys where xs: "xs = x # ys" by (cases xs) auto
  have ne: "x @ concat (map (\<lambda>y. comma # y) ys) \<noteq> []"
    using assms(2) xs by (cases ys) auto
  have "Split comma (x @ concat (map (\<lambda>y. comma # y) ys)) = x # ys"
    using assms(3) xs by (intro Split_items) auto
  moreover have "setToStringList_loop xs [] True = x @ concat (map (\<lambda>y. comma # y) ys)"
    unfolding xs by (rule setToStringList_loop_True)
  ultimately show ?thesis
    using ne by (simp add: xs stringListToSet_eq)
qed

lemma stringListToSet_setToStringList:
  assumes "valid_range iter" "finite s" "s \<noteq> {[]}" "\<forall>x\<in>s. comma \<notin> set x"
  shows "stringListToSet (setToStringList iter s) = s"
proof -
  from assms have it: "set (iter s) = s" "distinct (iter s)"
    by (simp_all add: valid_range_def)
  show ?thesis
  proof (cases "iter s = []")
    case True
    with it have "s = {}" by simp
    then show ?thesis
      using assms(1) by (simp add: setToStringList_def valid_range_empty stringListToSet_def)
  next
    case False
    moreover have "iter s \<noteq> [[]]"
    proof
      assume "iter s = [[]]"
      then have "set (iter s) = {[]}" by simp
      with it(1) assms(3) show False by simp
    qed
    ultimately have "stringListToSet (setToStringList_loop (iter s) [] True) = set (iter s)"
      using assms(4) it by (intro stringListToSet_loop_roundtrip) auto
    then show ?thesis by (simp add: setToStringList_def it)
  qed
qed

text \<open>
  C9.  For every iteration order of the Go map and every finite set of non-empty strings
  without a comma, decoding the comma-joined encoding of the set gives the set back; the
  empty set is encoded as the empty string, and the empty string decodes to the empty set.
\<close>

theorem staged_on_roundtrip:
  "valid_range iter \<Longrightarrow>
     (finite s \<and> (\<forall>x\<in>s. x \<noteq> [] \<and> comma \<notin> set x) \<longrightarrow>
        stringListToSet (setToStringList iter s) = s) \<and>
     setToStringList iter {} = [] \<and>
     stringListToSet [] = {}"
proof (intro conjI impI)
  assume v: "valid_range iter"
  show "setToStringList iter {} = []"
    by (simp add: setToStringList_def valid_range_empty [OF v])
  show "stringListToSet [] = {}"
    by (simp add: stringListToSet_def)
  assume h: "finite s \<and> (\<forall>x\<in>s. x \<noteq> [] \<and> comma \<notin> set x)"
  have "s \<noteq> {[]}"
  proof
    assume "s = {[]}"
    then have "[] \<in> s" by simp
    with h show False by blast
  qed
  with v h show "stringListToSet (setToStringList iter s) = s"
    by (intro stringListToSet_setToStringList) blast+
qed

lemma order_ab: "sorted_list_of_set {''node-a'', ''node-b''} = [''node-a'', ''node-b'']"
  by code_simp

theorem staged_on_roundtrip_witness:
  "valid_range sorted_list_of_set \<and>
   finite {''node-a'', ''node-b''} \<and>
   comma \<notin> set ''node-a'' \<and> comma \<notin> set ''node-b'' \<and>
   setToStringList sorted_list_of_set {''node-a'', ''node-b''} = ''node-a,node-b'' \<and>
   stringListToSet (setToStringList sorted_list_of_set {''node-a'', ''node-b''}) =
     {''node-a'', ''node-b''}"
  using staged_on_roundtrip [OF valid_range_sorted_list_of_set, of "{''node-a'', ''node-b''}"]
  by (simp add: valid_range_sorted_list_of_set comma_def setToStringList_def order_ab
        del: sorted_list_of_set_insert_remove)

section \<open>Capacity validation\<close>

lemma wrap64_id: "int64 x \<Longrightarrow> wrap64 x = x"
  by (simp add: int64_def wrap64_def)

lemma quo_nonneg: "0 \<le> a \<Longrightarrow> 0 < b \<Longrightarrow> quo a b = a div b"
  by (cases "a = 0") (simp_all add: quo_def)

text \<open>Where the sum \<open>minCapacity + 511\<close> does not overflow, the rounded capacity is the
  least multiple of 512 that is not below the minimum.\<close>

lemma round_up_512_bounds:
  fixes m :: int
  shows "m \<le> (m + 511) div 512 * 512" "(m + 511) div 512 * 512 \<le> m + 511"
proof -
  have e: "(m + 511) div 512 * 512 = m + 511 - (m + 511) mod 512"
    by (simp add: minus_mod_eq_div_mult)
  have "0 \<le> (m + 511) mod 512" "(m + 511) mod 512 < 512"
    by simp_all
  then show "m \<le> (m + 511) div 512 * 512" "(m + 511) div 512 * 512 \<le> m + 511"
    unfolding e by linarith+
qed

lemma round_up_512:
  assumes "0 < m" "m \<le> 2 ^ 63 - 512"
  shows "wrap64 (quo (wrap64 (m + 511)) 512 * 512) = (m + 511) div 512 * 512"
proof -
  have "int64 (m + 511)" using assms by (simp add: int64_def)
  then have a: "wrap64 (m + 511) = m + 511" by (rule wrap64_id)
  have b: "quo (m + 511) 512 = (m + 511) div 512"
    using assms by (intro quo_nonneg) auto
  have "int64 ((m + 511) div 512 * 512)"
    using assms round_up_512_bounds [of m] by (simp add: int64_def)
  then show ?thesis by (simp add: a b wrap64_id)
qed

lemma round_up_512_least:
  fixes m :: int
  assumes "m \<le> k" "k mod 512 = 0"
  shows "(m + 511) div 512 * 512 \<le> k"
proof -
  from assms(2) have k: "k = k div 512 * 512"
    by (simp add: mod_eq_0_iff_dvd)
  have "(m + 511) div 512 \<le> (k + 511) div 512"
    using assms(1) by (intro zdiv_mono1) auto
  also have "(k + 511) div 512 = k div 512"
  proof -
    have "(k div 512 * 512 + 511) div 512 = k div 512"
      by simp
    with k show ?thesis by simp
  qed
  finally have "(m + 511) div 512 * 512 \<le> k div 512 * 512"
    by simp
  with k show ?thesis by simp
qed

lemma validateCapacity_in_range:
  assumes "0 < RequiredBytes r" "RequiredBytes r \<le> 2 ^ 63 - 512"
  shows "validateCapacity (Some r) =
     (let c = (RequiredBytes r + 511) div 512 * 512
      in if LimitBytes r \<noteq> 0 \<and> (LimitBytes r < RequiredBytes r \<or> LimitBytes r < c)
         then (- 1, - 1, - 1,
               Some (Status InvalidArgument
                 (if LimitBytes r < RequiredBytes r
                  then ''minimum capacity must not exceed maximum capacity''
                  else ''capacity must be a multiple of 512'')))
         else (c, RequiredBytes r, LimitBytes r, None))"
  using assms by (auto simp: validateCapacity_def Let_def round_up_512)

text \<open>
  C5 (the code falls short of the claim).  With the largest \<open>int64\<close> as minimum and no
  maximum, the sum \<open>minCapacity + 511\<close> wraps around: the call reports no error and gives a
  negative capacity, which is no multiple of 512 at or above the minimum.
\<close>

theorem validateCapacity_overflow:
  "validateCapacity (Some \<lparr>RequiredBytes = 9223372036854775807, LimitBytes = 0\<rparr>) =
     (- 9223372036854775296, 9223372036854775807, 0, None)"
  by (simp add: validateCapacity_def wrap64_def quo_def)


section \<open>Calls to the store\<close>

lemma interact_pvcs [simp]: "pvcs (snd (interact w)) = pvcs w"
  by (cases "script w") (auto simp: interact_def env_apply_def split: env_step.splits)

lemma interact_snapshots [simp]: "snapshots (snd (interact w)) = snapshots w"
  by (cases "script w") (auto simp: interact_def env_apply_def split: env_step.splits)

lemma interact_trace [simp]: "trace (snd (interact w)) = trace w"
  by (cases "script w") (auto simp: interact_def env_apply_def split: env_step.splits)

lemma interact_frame:
  "interact w = (f, w0) \<Longrightarrow>
   pvcs w0 = pvcs w \<and> snapshots w0 = snapshots w \<and> trace w0 = trace w"
  using interact_pvcs [of w] interact_snapshots [of w] interact_trace [of w] by simp

lemma interact_answers:
  "answers (Suc k) w \<Longrightarrow> fst (interact w) = None \<and> answers k (snd (interact w))"
  by (cases "script w")
     (auto simp: answers_def interact_def env_apply_def is_Fault_def split: env_step.splits)

lemma answers_mono: "answers k w \<Longrightarrow> j \<le> k \<Longrightarrow> answers j w"
proof -
  assume a: "answers k w" and le: "j \<le> k"
  have "set (take j (script w)) \<subseteq> set (take k (script w))"
    using le by (rule set_take_subset_set_take)
  with a show ?thesis
    by (auto simp: answers_def list_all_iff)
qed

lemma answers_0 [simp]: "answers 0 w"
  by (simp add: answers_def)

lemma answers_quiescent [simp]: "script w = [] \<Longrightarrow> answers k w"
  by (simp add: answers_def)

lemma record_call_simps [simp]:
  "pvcs (record_call c r w) = pvcs w"
  "snapshots (record_call c r w) = snapshots w"
  "jobs (record_call c r w) = jobs w"
  "script (record_call c r w) = script w"
  "trace (record_call c r w) = trace w @ [(c, r)]"
  by (simp_all add: record_call_def)

lemma answers_record_call [simp]: "answers k (record_call c r w) = answers k w"
  by (simp add: answers_def)

lemma answers_pvcs_update [simp]: "answers k (w\<lparr>pvcs := x\<rparr>) = answers k w"
  by (simp add: answers_def)

lemma find_is_obj: "find (is_obj ns n) objs = Some p \<Longrightarrow> Namespace p = ns \<and> Name p = n"
  by (auto simp: find_Some_iff is_obj_def)

lemma pvcs_Get_pvcs: "pvcs_Get ns n w = (r, w1) \<Longrightarrow> pvcs w1 = pvcs w"
  by (cases "interact w")
     (auto simp: pvcs_Get_def split: option.splits dest: interact_frame)

lemma pvcs_Get_Inr:
  "pvcs_Get ns n w = (Inr p, w1) \<Longrightarrow> find (is_obj ns n) (pvcs w) = Some p"
  by (cases "interact w")
     (auto simp: pvcs_Get_def split: option.splits dest: interact_frame)

lemma pvcs_Get_answers:
  assumes "answers (Suc k) w" "find (is_obj ns n) (pvcs w) = Some p"
  shows "\<exists>w1. pvcs_Get ns n w = (Inr p, w1) \<and> pvcs w1 = pvcs w \<and> answers k w1 \<and>
              trace w1 = trace w @ [(PvcGet ns n, None)]"
proof -
  obtain f w0 where i: "interact w = (f, w0)" by (cases "interact w")
  with interact_answers [OF assms(1)] have f: "f = None" "answers k w0" by simp_all
  from i have "pvcs w0 = pvcs w" "trace w0 = trace w"
    by (auto dest: interact_frame)
  with i f assms(2) show ?thesis
    by (simp add: pvcs_Get_def)
qed

lemma pvcs_Get_missing:
  assumes "answers (Suc k) w" "find (is_obj ns n) (pvcs w) = None"
  shows "\<exists>w1. pvcs_Get ns n w = (Inl (ApiError NotFound), w1) \<and> pvcs w1 = pvcs w \<and>
              answers k w1"
proof -
  obtain f w0 where i: "interact w = (f, w0)" by (cases "interact w")
  with interact_answers [OF assms(1)] have f: "f = None" "answers k w0" by simp_all
  from i have "pvcs w0 = pvcs w"
    by (auto dest: interact_frame)
  with i f assms(2) show ?thesis
    by (simp add: pvcs_Get_def)
qed

lemma pvcs_Update_cases:
  assumes "pvcs_Update p w = (r, w1)"
  shows "(\<exists>e. r = Some (ApiError e) \<and> pvcs w1 = pvcs w) \<or>
         (r = None \<and> pvcs w1 = store_obj p (pvcs w) \<and>
          find (is_obj (Namespace p) (Name p)) (pvcs w) \<noteq> None)"
proof -
  obtain f w0 where i: "interact w = (f, w0)" by (cases "interact w")
  then have "pvcs w0 = pvcs w"
    by (auto dest: interact_frame)
  with i assms show ?thesis
    by (auto simp: pvcs_Update_def split: option.splits)
qed

lemma pvcs_Update_answers:
  assumes "answers (Suc k) w" "find (is_obj (Namespace p) (Name p)) (pvcs w) = Some q"
  shows "\<exists>w1. pvcs_Update p w = (None, w1) \<and> pvcs w1 = store_obj p (pvcs w) \<and> answers k w1 \<and>
              trace w1 = trace w @ [(PvcUpdate p, None)]"
proof -
  obtain f w0 where i: "interact w = (f, w0)" by (cases "interact w")
  with interact_answers [OF assms(1)] have f: "f = None" "answers k w0" by simp_all
  from i have "pvcs w0 = pvcs w" "trace w0 = trace w"
    by (auto dest: interact_frame)
  with i f assms(2) show ?thesis
    by (simp add: pvcs_Update_def)
qed

lemma store_obj_replaced:
  "DeletionTimestamp p = None \<Longrightarrow> store_obj p objs = replaced (Namespace p) (Name p) p objs"
  by (simp add: store_obj_def replaced_def)

section \<open>Retrying on conflict\<close>

lemma RetryOnConflict_done:
  "fn w = (r, w1) \<Longrightarrow> r \<noteq> Some (ApiError Conflict) \<Longrightarrow>
   RetryOnConflict (Suc k) fn w = (r, w1)"
  by (cases r) auto

lemma RetryOnConflict_error_frame:
  assumes "\<And>w e w1. fn w = (Some e, w1) \<Longrightarrow> pvcs w1 = pvcs w"
  shows "RetryOnConflict k fn w = (Some e, w') \<Longrightarrow> pvcs w' = pvcs w"
proof (induction k arbitrary: w)
  case 0
  then show ?case by simp
next
  case (Suc k)
  obtain r w1 where f: "fn w = (r, w1)" by (cases "fn w")
  show ?case
  proof (cases r)
    case None
    with f Suc.prems show ?thesis by simp
  next
    case (Some err)
    with f assms have p: "pvcs w1 = pvcs w" by simp
    show ?thesis
    proof (cases "err = ApiError Conflict \<and> k > 0")
      case True
      with f Some Suc.prems have "RetryOnConflict k fn w1 = (Some e, w')" by simp
      with Suc.IH p show ?thesis by simp
    next
      case False
      with f Some Suc.prems have "w' = w1" by auto
      with p show ?thesis by simp
    qed
  qed
qed


section \<open>The state transition \<open>SetPvcStateTo\<close>\<close>

lemma SetPvcStateTo_body_error_frame:
  assumes "SetPvcStateTo_body pvcName pvcNamespace s w = (Some e, w1)"
  shows "pvcs w1 = pvcs w"
proof -
  obtain g w0 where g: "pvcs_Get pvcNamespace pvcName w = (g, w0)"
    by (cases "pvcs_Get pvcNamespace pvcName w")
  then have p0: "pvcs w0 = pvcs w" by (rule pvcs_Get_pvcs)
  show ?thesis
  proof (cases g)
    case (Inl err)
    with g assms p0 show ?thesis by (simp add: SetPvcStateTo_body_def)
  next
    case (Inr pvc)
    show ?thesis
    proof (cases "DeletionTimestamp pvc = None \<and>
        lookup (Annotations pvc) (Domain' @ ''/state'') \<noteq> s \<and>
        lookup (Annotations pvc) (Domain' @ ''/state'') = ''idle''")
      case True
      then have "DeletionTimestamp pvc = None" "''idle'' \<noteq> s"
        "lookup (Annotations pvc) (Domain' @ ''/state'') = ''idle''"
        by auto
      with g Inr assms have
        "pvcs_Update (pvc\<lparr>Annotations := (Annotations pvc)(Domain' @ ''/state'' \<mapsto> s)\<rparr>) w0 =
           (Some e, w1)"
        by (simp add: SetPvcStateTo_body_def Let_def)
      from pvcs_Update_cases [OF this] p0 show ?thesis by auto
    next
      case False
      with g Inr assms have "w1 = w0"
        by (auto simp: SetPvcStateTo_body_def Let_def split: if_splits)
      with p0 show ?thesis by simp
    qed
  qed
qed

lemma SetPvcStateTo_body_answers:
  assumes "find (is_obj pvcNamespace pvcName) (pvcs w) = Some pvc" "answers 1 w"
    and "DeletionTimestamp pvc = None \<and> lookup (Annotations pvc) (Domain' @ ''/state'') \<noteq> s \<and>
         lookup (Annotations pvc) (Domain' @ ''/state'') = ''idle'' \<Longrightarrow> answers 2 w"
    and "SetPvcStateTo_body pvcName pvcNamespace s w = (r, w1)"
  shows "(r, pvcs w1) =
     (let state = lookup (Annotations pvc) (Domain' @ ''/state'')
      in if DeletionTimestamp pvc \<noteq> None then
           (Some (Status FailedPrecondition ''volume is being deleted''), pvcs w)
         else if state = s then (None, pvcs w)
         else if state = ''idle'' then
           (None, replaced pvcNamespace pvcName (with_state s pvc) (pvcs w))
         else if state = ''expanding'' then
           (Some (Status FailedPrecondition ''volume is being expanded''), pvcs w)
         else if state = ''cloning'' then
           (Some (Status FailedPrecondition ''volume is being cloned''), pvcs w)
         else if state = ''snapshotting'' then
           (Some (Status FailedPrecondition ''volume is being snapshotted''), pvcs w)
         else if state = ''staged'' then
           (Some (Status FailedPrecondition ''volume is staged''), pvcs w)
         else (Some (Status FailedPrecondition ''volume is in an unknown state''), pvcs w))"
proof -
  have a: "answers (Suc 0) w" using assms(2) by simp
  from pvcs_Get_answers [OF a assms(1)] obtain w0 where
    g: "pvcs_Get pvcNamespace pvcName w = (Inr pvc, w0)" and p0: "pvcs w0 = pvcs w"
    by auto
  have k: "Namespace pvc = pvcNamespace" "Name pvc = pvcName"
    using find_is_obj [OF assms(1)] by simp_all
  show ?thesis
  proof (cases "DeletionTimestamp pvc = None \<and>
      lookup (Annotations pvc) (Domain' @ ''/state'') \<noteq> s \<and>
      lookup (Annotations pvc) (Domain' @ ''/state'') = ''idle''")
    case True
    then have st: "DeletionTimestamp pvc = None" "''idle'' \<noteq> s"
      "lookup (Annotations pvc) (Domain' @ ''/state'') = ''idle''"
      by auto
    from assms(3) [OF True] have "answers (Suc 1) w" by (simp add: numeral_2_eq_2)
    from pvcs_Get_answers [OF this assms(1)] g have a0: "answers 1 w0" by auto
    have f: "find (is_obj (Namespace (with_state s pvc)) (Name (with_state s pvc))) (pvcs w0) =
        Some pvc"
      using assms(1) p0 k by (simp add: with_state_def)
    have a1: "answers (Suc 0) w0" using a0 by simp
    from pvcs_Update_answers [OF a1 f] obtain w2 where
      u: "pvcs_Update (with_state s pvc) w0 = (None, w2)"
      and p2: "pvcs w2 = store_obj (with_state s pvc) (pvcs w0)"
      by auto
    have d: "DeletionTimestamp (with_state s pvc) = None"
      using True by (simp add: with_state_def)
    have "store_obj (with_state s pvc) (pvcs w0) =
        replaced pvcNamespace pvcName (with_state s pvc) (pvcs w)"
      unfolding store_obj_replaced [OF d] using k p0 by (simp add: with_state_def)
    with g u p2 st assms(4) show ?thesis
      by (simp add: SetPvcStateTo_body_def with_state_def Let_def)
  next
    case False
    with g assms(4) p0 show ?thesis
      by (auto simp: SetPvcStateTo_body_def Let_def split: if_splits)
  qed
qed

text \<open>The outcome of \<open>SetPvcStateTo\<close> on a claim the store holds, when the store answers the
  read (and the update, for an idle claim).\<close>

lemma SetPvcStateTo_table:
  assumes "find (is_obj pvcNamespace pvcName) (pvcs w) = Some pvc" "answers 1 w"
    and "DeletionTimestamp pvc = None \<and> lookup (Annotations pvc) (Domain' @ ''/state'') \<noteq> s \<and>
         lookup (Annotations pvc) (Domain' @ ''/state'') = ''idle'' \<Longrightarrow> answers 2 w"
    and "SetPvcStateTo pvcName pvcNamespace s w = (r, w')"
  shows "(r, pvcs w') =
     (let state = lookup (Annotations pvc) (Domain' @ ''/state'')
      in if DeletionTimestamp pvc \<noteq> None then
           (Some (Status FailedPrecondition ''volume is being deleted''), pvcs w)
         else if state = s then (None, pvcs w)
         else if state = ''idle'' then
           (None, replaced pvcNamespace pvcName (with_state s pvc) (pvcs w))
         else if state = ''expanding'' then
           (Some (Status FailedPrecondition ''volume is being expanded''), pvcs w)
         else if state = ''cloning'' then
           (Some (Status FailedPrecondition ''volume is being cloned''), pvcs w)
         else if state = ''snapshotting'' then
           (Some (Status FailedPrecondition ''volume is being snapshotted''), pvcs w)
         else if state = ''staged'' then
           (Some (Status FailedPrecondition ''volume is staged''), pvcs w)
         else (Some (Status FailedPrecondition ''volume is in an unknown state''), pvcs w))"
proof -
  obtain r1 w1 where b: "SetPvcStateTo_body pvcName pvcNamespace s w = (r1, w1)"
    by (cases "SetPvcStateTo_body pvcName pvcNamespace s w")
  have t: "(r1, pvcs w1) =
     (let state = lookup (Annotations pvc) (Domain' @ ''/state'')
      in if DeletionTimestamp pvc \<noteq> None then
           (Some (Status FailedPrecondition ''volume is being deleted''), pvcs w)
         else if state = s then (None, pvcs w)
         else if state = ''idle'' then
           (None, replaced pvcNamespace pvcName (with_state s pvc) (pvcs w))
         else if state = ''expanding'' then
           (Some (Status FailedPrecondition ''volume is being expanded''), pvcs w)
         else if state = ''cloning'' then
           (Some (Status FailedPrecondition ''volume is being cloned''), pvcs w)
         else if state = ''snapshotting'' then
           (Some (Status FailedPrecondition ''volume is being snapshotted''), pvcs w)
         else if state = ''staged'' then
           (Some (Status FailedPrecondition ''volume is staged''), pvcs w)
         else (Some (Status FailedPrecondition ''volume is in an unknown state''), pvcs w))"
    using assms(1,2,3) b by (rule SetPvcStateTo_body_answers)
  then have "r1 \<noteq> Some (ApiError Conflict)"
    by (auto simp: Let_def split: if_splits)
  with b have "RetryOnConflict (Suc 4) (SetPvcStateTo_body pvcName pvcNamespace s) w = (r1, w1)"
    by (rule RetryOnConflict_done)
  with assms(4) have "r = r1" "w' = w1"
    by (simp_all add: SetPvcStateTo_def DefaultRetry_def eval_nat_numeral)
  with t show ?thesis by simp
qed

lemma SetPvcStateTo_error_frame:
  assumes "SetPvcStateTo pvcName pvcNamespace s w = (Some e, w')"
  shows "pvcs w' = pvcs w"
proof -
  from assms have
    "RetryOnConflict DefaultRetry (SetPvcStateTo_body pvcName pvcNamespace s) w = (Some e, w')"
    by (simp add: SetPvcStateTo_def)
  then show ?thesis
    by (rule RetryOnConflict_error_frame [rotated]) (rule SetPvcStateTo_body_error_frame)
qed

text \<open>
  C1.  \<open>SetPvcStateTo\<close> leaves the claims of the store as they were whenever it returns an
  error.  When the claim exists and the store answers the read and the update: a claim
  marked for deletion gives the precondition-failed error "volume is being deleted";
  otherwise a claim already in the requested state gives success with nothing written, an
  idle claim is rewritten with the requested state, and any other state gives a
  precondition-failed error that names it, with nothing written.
\<close>

theorem SetPvcStateTo_transition:
  "SetPvcStateTo pvcName pvcNamespace s w = (r, w') \<Longrightarrow>
     (r \<noteq> None \<longrightarrow> pvcs w' = pvcs w) \<and>
     (find (is_obj pvcNamespace pvcName) (pvcs w) = Some pvc \<and> answers 2 w \<longrightarrow>
        (r, pvcs w') =
          (let state = lookup (Annotations pvc) (Domain' @ ''/state'')
           in if DeletionTimestamp pvc \<noteq> None then
                (Some (Status FailedPrecondition ''volume is being deleted''), pvcs w)
              else if state = s then (None, pvcs w)
              else if state = ''idle'' then
                (None, replaced pvcNamespace pvcName (with_state s pvc) (pvcs w))
              else if state = ''expanding'' then
                (Some (Status FailedPrecondition ''volume is being expanded''), pvcs w)
              else if state = ''cloning'' then
                (Some (Status FailedPrecondition ''volume is being cloned''), pvcs w)
              else if state = ''snapshotting'' then
                (Some (Status FailedPrecondition ''volume is being snapshotted''), pvcs w)
              else if state = ''staged'' then
                (Some (Status FailedPrecondition ''volume is staged''), pvcs w)
              else (Some (Status FailedPrecondition ''volume is in an unknown state''), pvcs w)))"
proof (intro conjI impI)
  assume run: "SetPvcStateTo pvcName pvcNamespace s w = (r, w')"
  {
    assume "r \<noteq> None"
    then obtain e where "r = Some e" by auto
    with run show "pvcs w' = pvcs w"
      by (auto dest: SetPvcStateTo_error_frame)
  }
  assume h: "find (is_obj pvcNamespace pvcName) (pvcs w) = Some pvc \<and> answers 2 w"
  then have "answers 1 w"
    by (auto elim: answers_mono)
  with h run show "(r, pvcs w') =
     (let state = lookup (Annotations pvc) (Domain' @ ''/state'')
      in if DeletionTimestamp pvc \<noteq> None then
           (Some (Status FailedPrecondition ''volume is being deleted''), pvcs w)
         else if state = s then (None, pvcs w)
         else if state = ''idle'' then
           (None, replaced pvcNamespace pvcName (with_state s pvc) (pvcs w))
         else if state = ''expanding'' then
           (Some (Status FailedPrecondition ''volume is being expanded''), pvcs w)
         else if state = ''cloning'' then
           (Some (Status FailedPrecondition ''volume is being cloned''), pvcs w)
         else if state = ''snapshotting'' then
           (Some (Status FailedPrecondition ''volume is being snapshotted''), pvcs w)
         else if state = ''staged'' then
           (Some (Status FailedPrecondition ''volume is staged''), pvcs w)
         else (Some (Status FailedPrecondition ''volume is in an unknown state''), pvcs w))"
    by (intro SetPvcStateTo_table) simp_all
qed

theorem SetPvcStateTo_transition_witness:
  "find (is_obj ''ns'' ''vol'') (pvcs (sample_world (sample_claim ''idle''))) =
     Some (sample_claim ''idle'') \<and>
   answers 2 (sample_world (sample_claim ''idle'')) \<and>
   fst (SetPvcStateTo ''vol'' ''ns'' ''expanding'' (sample_world (sample_claim ''idle''))) = None \<and>
   pvcs (snd (SetPvcStateTo ''vol'' ''ns'' ''expanding'' (sample_world (sample_claim ''idle'')))) =
     [with_state ''expanding'' (sample_claim ''idle'')]"
  using SetPvcStateTo_transition
    [of "''vol''" "''ns''" "''expanding''" "sample_world (sample_claim ''idle'')"
        "fst (SetPvcStateTo ''vol'' ''ns'' ''expanding'' (sample_world (sample_claim ''idle'')))"
        "snd (SetPvcStateTo ''vol'' ''ns'' ''expanding'' (sample_world (sample_claim ''idle'')))"
        "sample_claim ''idle''"]
  by (simp add: sample_world_def sample_claim_def is_obj_def lookup_def Domain'_def
        replaced_def with_state_def Let_def)


section \<open>Staging a claim on a node\<close>

lemma StagePvcOnNode_body_error_frame:
  assumes "StagePvcOnNode_body iter pvcName pvcNamespace nodeName w = (Some e, w1)"
  shows "pvcs w1 = pvcs w"
proof -
  obtain g w0 where g: "pvcs_Get pvcNamespace pvcName w = (g, w0)"
    by (cases "pvcs_Get pvcNamespace pvcName w")
  then have p0: "pvcs w0 = pvcs w" by (rule pvcs_Get_pvcs)
  show ?thesis
  proof (cases g)
    case (Inl err)
    with g assms p0 show ?thesis by (simp add: StagePvcOnNode_body_def)
  next
    case (Inr pvc)
    show ?thesis
    proof (cases "DeletionTimestamp pvc = None \<and>
        (lookup (Annotations pvc) (Domain' @ ''/state'') = ''idle'' \<or>
         lookup (Annotations pvc) (Domain' @ ''/state'') = ''staged'')")
      case True
      with g Inr assms obtain p' where "pvcs_Update p' w0 = (Some e, w1)"
        by (auto simp: StagePvcOnNode_body_def Let_def)
      from pvcs_Update_cases [OF this] p0 show ?thesis by auto
    next
      case False
      with g Inr assms have "w1 = w0"
        by (auto simp: StagePvcOnNode_body_def Let_def split: if_splits)
      with p0 show ?thesis by simp
    qed
  qed
qed

lemma StagePvcOnNode_error_frame:
  assumes "StagePvcOnNode iter pvcName pvcNamespace nodeName w = (Some e, w')"
  shows "pvcs w' = pvcs w"
proof -
  from assms have
    "RetryOnConflict DefaultRetry (StagePvcOnNode_body iter pvcName pvcNamespace nodeName) w =
       (Some e, w')"
    by (simp add: StagePvcOnNode_def)
  then show ?thesis
    by (rule RetryOnConflict_error_frame [rotated]) (rule StagePvcOnNode_body_error_frame)
qed

text \<open>The claim as \<open>StagePvcOnNode\<close> writes it.\<close>

lemma StagePvcOnNode_accepts:
  assumes "find (is_obj pvcNamespace pvcName) (pvcs w) = Some pvc" "answers 2 w"
    and "DeletionTimestamp pvc = None"
    and "lookup (Annotations pvc) (Domain' @ ''/state'') = ''idle'' \<or>
         lookup (Annotations pvc) (Domain' @ ''/state'') = ''staged''"
    and "StagePvcOnNode iter pvcName pvcNamespace nodeName w = (r, w')"
  shows "r = None \<and>
     pvcs w' =
       replaced pvcNamespace pvcName
         (pvc\<lparr>Annotations :=
               (Annotations pvc)
                 (Domain' @ ''/state'' \<mapsto> ''staged'',
                  Domain' @ ''/staged-on-nodes'' \<mapsto>
                    setToStringList iter
                      (insert nodeName
                         (stringListToSet
                            (lookup (Annotations pvc) (Domain' @ ''/staged-on-nodes'')))))\<rparr>)
         (pvcs w)"
proof -
  define p' where "p' =
    pvc\<lparr>Annotations :=
          (Annotations pvc)
            (Domain' @ ''/state'' \<mapsto> ''staged'',
             Domain' @ ''/staged-on-nodes'' \<mapsto>
               setToStringList iter
                 (insert nodeName
                    (stringListToSet
                       (lookup (Annotations pvc) (Domain' @ ''/staged-on-nodes'')))))\<rparr>"
  have a: "answers (Suc 1) w" using assms(2) by (simp add: numeral_2_eq_2)
  from pvcs_Get_answers [OF a assms(1)] obtain w0 where
    g: "pvcs_Get pvcNamespace pvcName w = (Inr pvc, w0)" and p0: "pvcs w0 = pvcs w"
    and a0: "answers 1 w0"
    by auto
  have k: "Namespace pvc = pvcNamespace" "Name pvc = pvcName"
    using find_is_obj [OF assms(1)] by simp_all
  have f: "find (is_obj (Namespace p') (Name p')) (pvcs w0) = Some pvc"
    using assms(1) p0 k by (simp add: p'_def)
  have a1: "answers (Suc 0) w0" using a0 by simp
  from pvcs_Update_answers [OF a1 f] obtain w2 where
    u: "pvcs_Update p' w0 = (None, w2)" and p2: "pvcs w2 = store_obj p' (pvcs w0)"
    by auto
  have d: "DeletionTimestamp p' = None"
    using assms(3) by (simp add: p'_def)
  have s: "store_obj p' (pvcs w0) = replaced pvcNamespace pvcName p' (pvcs w)"
    unfolding store_obj_replaced [OF d] using k p0 by (simp add: p'_def)
  have b: "StagePvcOnNode_body iter pvcName pvcNamespace nodeName w = (None, w2)"
    using g u assms(3,4) by (auto simp: StagePvcOnNode_body_def Let_def p'_def)
  then have "RetryOnConflict (Suc 4) (StagePvcOnNode_body iter pvcName pvcNamespace nodeName) w =
      (None, w2)"
    by (rule RetryOnConflict_done) simp
  with assms(5) have "r = None" "w' = w2"
    by (simp_all add: StagePvcOnNode_def DefaultRetry_def eval_nat_numeral)
  with p2 s show ?thesis by (simp add: p'_def)
qed

lemma StagePvcOnNode_rejects:
  assumes "find (is_obj pvcNamespace pvcName) (pvcs w) = Some pvc" "answers 1 w"
    and "\<not> (DeletionTimestamp pvc = None \<and>
            (lookup (Annotations pvc) (Domain' @ ''/state'') = ''idle'' \<or>
             lookup (Annotations pvc) (Domain' @ ''/state'') = ''staged''))"
    and "StagePvcOnNode iter pvcName pvcNamespace nodeName w = (r, w')"
  shows "r =
     Some (Status FailedPrecondition
       (let state = lookup (Annotations pvc) (Domain' @ ''/state'')
        in if DeletionTimestamp pvc \<noteq> None then ''volume is being deleted''
           else if state = ''expanding'' then ''volume is being expanded''
           else if state = ''snapshotting'' then ''volume is being snapshotted''
           else if state = ''cloning'' then ''volume is being cloned''
           else ''volume is in an unknown state'')) \<and>
     pvcs w' = pvcs w"
proof -
  have a: "answers (Suc 0) w" using assms(2) by simp
  from pvcs_Get_answers [OF a assms(1)] obtain w0 where
    g: "pvcs_Get pvcNamespace pvcName w = (Inr pvc, w0)" and p0: "pvcs w0 = pvcs w"
    by auto
  obtain r1 w1 where b: "StagePvcOnNode_body iter pvcName pvcNamespace nodeName w = (r1, w1)"
    by (cases "StagePvcOnNode_body iter pvcName pvcNamespace nodeName w")
  with g assms(3) p0 have t: "r1 =
     Some (Status FailedPrecondition
       (let state = lookup (Annotations pvc) (Domain' @ ''/state'')
        in if DeletionTimestamp pvc \<noteq> None then ''volume is being deleted''
           else if state = ''expanding'' then ''volume is being expanded''
           else if state = ''snapshotting'' then ''volume is being snapshotted''
           else if state = ''cloning'' then ''volume is being cloned''
           else ''volume is in an unknown state'')) \<and> pvcs w1 = pvcs w"
    by (auto simp: StagePvcOnNode_body_def Let_def split: if_splits)
  then have "r1 \<noteq> Some (ApiError Conflict)" by auto
  with b have
    "RetryOnConflict (Suc 4) (StagePvcOnNode_body iter pvcName pvcNamespace nodeName) w =
       (r1, w1)"
    by (rule RetryOnConflict_done)
  with assms(4) have "r = r1" "w' = w1"
    by (simp_all add: StagePvcOnNode_def DefaultRetry_def eval_nat_numeral)
  with t show ?thesis by simp
qed

lemma staged_set_decodes:
  assumes "valid_range iter" "nodeName \<noteq> []" "comma \<notin> set nodeName"
  shows "stringListToSet (setToStringList iter (insert nodeName (stringListToSet old))) =
     insert nodeName (stringListToSet old)"
proof (rule stringListToSet_setToStringList [OF assms(1)])
  show "finite (insert nodeName (stringListToSet old))"
    by (simp add: finite_stringListToSet)
  show "insert nodeName (stringListToSet old) \<noteq> {[]}"
    using assms(2) by blast
  show "\<forall>x\<in>insert nodeName (stringListToSet old). comma \<notin> set x"
    using assms(3) by (auto dest: stringListToSet_no_comma)
qed

text \<open>
  C3.  \<open>StagePvcOnNode\<close> leaves the claims of the store as they were whenever it returns an
  error.  When the claim exists and the store answers: a claim that is not marked for
  deletion and is idle or staged is rewritten with the state staged and with
  staged-on-nodes set to the encoding of the previous set with the node added (which
  decodes to that set for a node name that is not empty and has no comma); a claim that
  is marked for deletion, expanding, cloning or snapshotting gives a precondition-failed
  error and nothing is written.
\<close>

theorem StagePvcOnNode_transition:
  "StagePvcOnNode iter pvcName pvcNamespace nodeName w = (r, w') \<Longrightarrow>
     (r \<noteq> None \<longrightarrow> pvcs w' = pvcs w) \<and>
     (find (is_obj pvcNamespace pvcName) (pvcs w) = Some pvc \<and> answers 2 w \<longrightarrow>
        (let state = lookup (Annotations pvc) (Domain' @ ''/state'');
             nodes = insert nodeName
               (stringListToSet (lookup (Annotations pvc) (Domain' @ ''/staged-on-nodes'')))
         in (DeletionTimestamp pvc = None \<and> (state = ''idle'' \<or> state = ''staged'') \<longrightarrow>
               r = None \<and>
               pvcs w' =
                 replaced pvcNamespace pvcName
                   (pvc\<lparr>Annotations :=
                         (Annotations pvc)
                           (Domain' @ ''/state'' \<mapsto> ''staged'',
                            Domain' @ ''/staged-on-nodes'' \<mapsto> setToStringList iter nodes)\<rparr>)
                   (pvcs w) \<and>
               (valid_range iter \<and> nodeName \<noteq> [] \<and> comma \<notin> set nodeName \<longrightarrow>
                  stringListToSet (setToStringList iter nodes) = nodes)) \<and>
            (DeletionTimestamp pvc \<noteq> None \<or> state = ''expanding'' \<or> state = ''cloning'' \<or>
             state = ''snapshotting'' \<longrightarrow>
               (\<exists>msg. r = Some (Status FailedPrecondition msg)) \<and> pvcs w' = pvcs w)))"
proof (intro conjI impI)
  assume run: "StagePvcOnNode iter pvcName pvcNamespace nodeName w = (r, w')"
  {
    assume "r \<noteq> None"
    then obtain e where "r = Some e" by auto
    with run show "pvcs w' = pvcs w"
      by (auto dest: StagePvcOnNode_error_frame)
  }
  assume h: "find (is_obj pvcNamespace pvcName) (pvcs w) = Some pvc \<and> answers 2 w"
  then have a1: "answers 1 w"
    by (auto elim: answers_mono)
  show "let state = lookup (Annotations pvc) (Domain' @ ''/state'');
            nodes = insert nodeName
              (stringListToSet (lookup (Annotations pvc) (Domain' @ ''/staged-on-nodes'')))
        in (DeletionTimestamp pvc = None \<and> (state = ''idle'' \<or> state = ''staged'') \<longrightarrow>
              r = None \<and>
              pvcs w' =
                replaced pvcNamespace pvcName
                  (pvc\<lparr>Annotations :=
                        (Annotations pvc)
                          (Domain' @ ''/state'' \<mapsto> ''staged'',
                           Domain' @ ''/staged-on-nodes'' \<mapsto> setToStringList iter nodes)\<rparr>)
                  (pvcs w) \<and>
              (valid_range iter \<and> nodeName \<noteq> [] \<and> comma \<notin> set nodeName \<longrightarrow>
                 stringListToSet (setToStringList iter nodes) = nodes)) \<and>
           (DeletionTimestamp pvc \<noteq> None \<or> state = ''expanding'' \<or> state = ''cloning'' \<or>
            state = ''snapshotting'' \<longrightarrow>
              (\<exists>msg. r = Some (Status FailedPrecondition msg)) \<and> pvcs w' = pvcs w)"
    unfolding Let_def
  proof (intro conjI impI)
    assume ok: "DeletionTimestamp pvc = None \<and>
      (lookup (Annotations pvc) (Domain' @ ''/state'') = ''idle'' \<or>
       lookup (Annotations pvc) (Domain' @ ''/state'') = ''staged'')"
    with h run have acc: "r = None \<and>
      pvcs w' =
        replaced pvcNamespace pvcName
          (pvc\<lparr>Annotations :=
                (Annotations pvc)
                  (Domain' @ ''/state'' \<mapsto> ''staged'',
                   Domain' @ ''/staged-on-nodes'' \<mapsto>
                     setToStringList iter
                       (insert nodeName
                          (stringListToSet
                             (lookup (Annotations pvc) (Domain' @ ''/staged-on-nodes'')))))\<rparr>)
          (pvcs w)"
      by (intro StagePvcOnNode_accepts) simp_all
    from acc show "r = None" by simp
    from acc show "pvcs w' =
        replaced pvcNamespace pvcName
          (pvc\<lparr>Annotations :=
                (Annotations pvc)
                  (Domain' @ ''/state'' \<mapsto> ''staged'',
                   Domain' @ ''/staged-on-nodes'' \<mapsto>
                     setToStringList iter
                       (insert nodeName
                          (stringListToSet
                             (lookup (Annotations pvc) (Domain' @ ''/staged-on-nodes'')))))\<rparr>)
          (pvcs w)"
      by simp
    assume "valid_range iter \<and> nodeName \<noteq> [] \<and> comma \<notin> set nodeName"
    then show "stringListToSet
        (setToStringList iter
          (insert nodeName
            (stringListToSet (lookup (Annotations pvc) (Domain' @ ''/staged-on-nodes''))))) =
        insert nodeName
          (stringListToSet (lookup (Annotations pvc) (Domain' @ ''/staged-on-nodes'')))"
      by (intro staged_set_decodes) simp_all
  next
    assume bad: "DeletionTimestamp pvc \<noteq> None \<or>
      lookup (Annotations pvc) (Domain' @ ''/state'') = ''expanding'' \<or>
      lookup (Annotations pvc) (Domain' @ ''/state'') = ''cloning'' \<or>
      lookup (Annotations pvc) (Domain' @ ''/state'') = ''snapshotting''"
    then have "\<not> (DeletionTimestamp pvc = None \<and>
            (lookup (Annotations pvc) (Domain' @ ''/state'') = ''idle'' \<or>
             lookup (Annotations pvc) (Domain' @ ''/state'') = ''staged''))"
      by auto
    from StagePvcOnNode_rejects [OF _ a1 this run] h
    show "\<exists>msg. r = Some (Status FailedPrecondition msg)" and "pvcs w' = pvcs w"
      by simp_all
  qed
qed

theorem StagePvcOnNode_transition_witness:
  "find (is_obj ''ns'' ''vol'') (pvcs (sample_world (sample_claim ''idle''))) =
     Some (sample_claim ''idle'') \<and>
   answers 2 (sample_world (sample_claim ''idle'')) \<and>
   valid_range sorted_list_of_set \<and>
   fst (StagePvcOnNode sorted_list_of_set ''vol'' ''ns'' ''node-a''
          (sample_world (sample_claim ''idle''))) = None \<and>
   pvcs (snd (StagePvcOnNode sorted_list_of_set ''vol'' ''ns'' ''node-a''
          (sample_world (sample_claim ''idle'')))) =
     [(sample_claim ''idle'')
        \<lparr>Annotations :=
           (Annotations (sample_claim ''idle''))
             (Domain' @ ''/state'' \<mapsto> ''staged'',
              Domain' @ ''/staged-on-nodes'' \<mapsto> ''node-a'')\<rparr>] \<and>
   stringListToSet ''node-a'' = {''node-a''} \<and>
   fst (StagePvcOnNode sorted_list_of_set ''vol'' ''ns'' ''node-a''
          (sample_world (sample_claim ''cloning''))) =
     Some (Status FailedPrecondition ''volume is being cloned'') \<and>
   pvcs (snd (StagePvcOnNode sorted_list_of_set ''vol'' ''ns'' ''node-a''
          (sample_world (sample_claim ''cloning'')))) = [sample_claim ''cloning'']"
proof -
  let ?w = "sample_world (sample_claim ''idle'')"
  let ?v = "sample_world (sample_claim ''cloning'')"
  have stage: "stringListToSet ''node-a'' = {''node-a''}"
    by (simp add: stringListToSet_def comma_def)
  have enc: "setToStringList sorted_list_of_set {''node-a''} = ''node-a''"
    by (simp add: setToStringList_def)
  have none: "stringListToSet [] = {}"
    by (simp add: stringListToSet_def)
  have idle: "fst (StagePvcOnNode sorted_list_of_set ''vol'' ''ns'' ''node-a'' ?w) = None \<and>
      pvcs (snd (StagePvcOnNode sorted_list_of_set ''vol'' ''ns'' ''node-a'' ?w)) =
        [(sample_claim ''idle'')
           \<lparr>Annotations :=
              (Annotations (sample_claim ''idle''))
                (Domain' @ ''/state'' \<mapsto> ''staged'',
                 Domain' @ ''/staged-on-nodes'' \<mapsto> ''node-a'')\<rparr>]"
    using StagePvcOnNode_transition
      [of sorted_list_of_set "''vol''" "''ns''" "''node-a''" ?w
          "fst (StagePvcOnNode sorted_list_of_set ''vol'' ''ns'' ''node-a'' ?w)"
          "snd (StagePvcOnNode sorted_list_of_set ''vol'' ''ns'' ''node-a'' ?w)"
          "sample_claim ''idle''"]
    by (simp add: sample_world_def sample_claim_def is_obj_def lookup_def Domain'_def
          replaced_def Let_def none enc)
  have cloning:
    "(\<exists>msg. fst (StagePvcOnNode sorted_list_of_set ''vol'' ''ns'' ''node-a'' ?v) =
        Some (Status FailedPrecondition msg)) \<and>
     pvcs (snd (StagePvcOnNode sorted_list_of_set ''vol'' ''ns'' ''node-a'' ?v)) =
       [sample_claim ''cloning'']"
    using StagePvcOnNode_transition
      [of sorted_list_of_set "''vol''" "''ns''" "''node-a''" ?v
          "fst (StagePvcOnNode sorted_list_of_set ''vol'' ''ns'' ''node-a'' ?v)"
          "snd (StagePvcOnNode sorted_list_of_set ''vol'' ''ns'' ''node-a'' ?v)"
          "sample_claim ''cloning''"]
    by (simp add: sample_world_def sample_claim_def is_obj_def lookup_def Domain'_def Let_def)
  have msg: "fst (StagePvcOnNode sorted_list_of_set ''vol'' ''ns'' ''node-a'' ?v) =
      Some (Status FailedPrecondition ''volume is being cloned'')"
    using StagePvcOnNode_rejects
      [of "''ns''" "''vol''" ?v "sample_claim ''cloning''" sorted_list_of_set "''node-a''"
          "fst (StagePvcOnNode sorted_list_of_set ''vol'' ''ns'' ''node-a'' ?v)"
          "snd (StagePvcOnNode sorted_list_of_set ''vol'' ''ns'' ''node-a'' ?v)"]
    by (simp add: sample_world_def sample_claim_def is_obj_def lookup_def Domain'_def Let_def)
  have "find (is_obj ''ns'' ''vol'') (pvcs ?w) = Some (sample_claim ''idle'')"
    by (simp add: sample_world_def sample_claim_def is_obj_def)
  moreover have "answers 2 ?w"
    by (simp add: sample_world_def)
  ultimately show ?thesis
    using idle cloning msg stage valid_range_sorted_list_of_set by simp
qed


section \<open>Unstaging a claim from a node\<close>

lemma pvcs_Get_Inl: "pvcs_Get ns n w = (Inl e, w1) \<Longrightarrow> \<exists>x. e = ApiError x"
  by (cases "interact w") (auto simp: pvcs_Get_def split: option.splits)

lemma RetryOnConflict_error_kind:
  assumes "\<And>w e w1. fn w = (Some e, w1) \<Longrightarrow> P e"
  shows "RetryOnConflict k fn w = (Some e, w') \<Longrightarrow> P e"
proof (induction k arbitrary: w)
  case 0
  then show ?case by simp
next
  case (Suc k)
  obtain r w1 where f: "fn w = (r, w1)" by (cases "fn w")
  show ?case
  proof (cases r)
    case None
    with f Suc.prems show ?thesis by simp
  next
    case (Some err)
    show ?thesis
    proof (cases "err = ApiError Conflict \<and> k > 0")
      case True
      with f Some Suc.prems have "RetryOnConflict k fn w1 = (Some e, w')" by simp
      then show ?thesis by (rule Suc.IH)
    next
      case False
      with f Some Suc.prems have "e = err" by auto
      with f Some assms show ?thesis by simp
    qed
  qed
qed

lemma UnstagePvcFromNode_body_error_kind:
  assumes "UnstagePvcFromNode_body iter pvcName pvcNamespace nodeName w = (Some e, w1)"
  shows "\<exists>x. e = ApiError x"
proof -
  obtain g w0 where g: "pvcs_Get pvcNamespace pvcName w = (g, w0)"
    by (cases "pvcs_Get pvcNamespace pvcName w")
  show ?thesis
  proof (cases g)
    case (Inl err)
    with g assms have "e = err" by (simp add: UnstagePvcFromNode_body_def)
    with g Inl show ?thesis by (auto dest: pvcs_Get_Inl)
  next
    case (Inr pvc)
    with g assms obtain p' where "pvcs_Update p' w0 = (Some e, w1)"
      by (auto simp: UnstagePvcFromNode_body_def)
    from pvcs_Update_cases [OF this] show ?thesis by auto
  qed
qed

lemma UnstagePvcFromNode_error_kind:
  assumes "UnstagePvcFromNode iter pvcName pvcNamespace nodeName w = (Some e, w')"
  shows "\<exists>x. e = ApiError x"
proof -
  from assms have
    "RetryOnConflict DefaultRetry (UnstagePvcFromNode_body iter pvcName pvcNamespace nodeName) w =
       (Some e, w')"
    by (simp add: UnstagePvcFromNode_def)
  then show ?thesis
    by (rule RetryOnConflict_error_kind [rotated]) (rule UnstagePvcFromNode_body_error_kind)
qed

lemma UnstagePvcFromNode_staged:
  assumes "find (is_obj pvcNamespace pvcName) (pvcs w) = Some pvc" "answers 2 w"
    and "lookup (Annotations pvc) (Domain' @ ''/state'') = ''staged''"
    and "UnstagePvcFromNode iter pvcName pvcNamespace nodeName w = (r, w')"
  shows "r = None \<and>
     pvcs w' =
       store_obj
         (if stringListToSet (lookup (Annotations pvc) (Domain' @ ''/staged-on-nodes''))
               - {nodeName} = {}
          then pvc\<lparr>Annotations :=
                    ((Annotations pvc)(Domain' @ ''/staged-on-nodes'' := None))
                      (Domain' @ ''/state'' \<mapsto> ''idle'')\<rparr>
          else pvc\<lparr>Annotations :=
                    (Annotations pvc)
                      (Domain' @ ''/staged-on-nodes'' \<mapsto>
                         setToStringList iter
                           (stringListToSet
                              (lookup (Annotations pvc) (Domain' @ ''/staged-on-nodes''))
                            - {nodeName}))\<rparr>)
         (pvcs w)"
proof -
  define nodes where
    "nodes = stringListToSet (lookup (Annotations pvc) (Domain' @ ''/staged-on-nodes''))
       - {nodeName}"
  define p' where "p' =
    (if nodes = {}
     then pvc\<lparr>Annotations :=
               ((Annotations pvc)(Domain' @ ''/staged-on-nodes'' := None))
                 (Domain' @ ''/state'' \<mapsto> ''idle'')\<rparr>
     else pvc\<lparr>Annotations :=
               (Annotations pvc)
                 (Domain' @ ''/staged-on-nodes'' \<mapsto> setToStringList iter nodes)\<rparr>)"
  have fin: "finite nodes"
    by (simp add: nodes_def finite_stringListToSet)
  have a: "answers (Suc 1) w" using assms(2) by (simp add: numeral_2_eq_2)
  from pvcs_Get_answers [OF a assms(1)] obtain w0 where
    g: "pvcs_Get pvcNamespace pvcName w = (Inr pvc, w0)" and p0: "pvcs w0 = pvcs w"
    and a0: "answers 1 w0"
    by auto
  have k: "Namespace pvc = pvcNamespace" "Name pvc = pvcName"
    using find_is_obj [OF assms(1)] by simp_all
  have f: "find (is_obj (Namespace p') (Name p')) (pvcs w0) = Some pvc"
    using assms(1) p0 k by (simp add: p'_def)
  have a1: "answers (Suc 0) w0" using a0 by simp
  from pvcs_Update_answers [OF a1 f] obtain w2 where
    u: "pvcs_Update p' w0 = (None, w2)" and p2: "pvcs w2 = store_obj p' (pvcs w0)"
    by auto
  have b: "UnstagePvcFromNode_body iter pvcName pvcNamespace nodeName w = (None, w2)"
    using g u assms(3) fin
    by (simp add: UnstagePvcFromNode_body_def Let_def p'_def nodes_def [symmetric])
  then have
    "RetryOnConflict (Suc 4) (UnstagePvcFromNode_body iter pvcName pvcNamespace nodeName) w =
       (None, w2)"
    by (rule RetryOnConflict_done) simp
  with assms(4) have "r = None" "w' = w2"
    by (simp_all add: UnstagePvcFromNode_def DefaultRetry_def eval_nat_numeral)
  with p2 p0 show ?thesis by (simp add: p'_def nodes_def)
qed

lemma state_key_neq [simp]:
  "Domain' @ ''/state'' \<noteq> Domain' @ ''/staged-on-nodes''"
  "Domain' @ ''/staged-on-nodes'' \<noteq> Domain' @ ''/state''"
  by simp_all

lemma reduced_set_decodes:
  assumes "valid_range iter" "nodes \<subseteq> stringListToSet old" "[] \<notin> nodes"
  shows "stringListToSet (setToStringList iter nodes) = nodes"
proof (rule stringListToSet_setToStringList [OF assms(1)])
  show "finite nodes"
    using assms(2) finite_stringListToSet by (rule finite_subset)
  show "nodes \<noteq> {[]}"
    using assms(3) by blast
  show "\<forall>x\<in>nodes. comma \<notin> set x"
    using assms(2) by (auto dest: stringListToSet_no_comma)
qed

text \<open>
  C4.  \<open>UnstagePvcFromNode\<close> never returns a gRPC status (so no precondition-failed
  rejection): it returns no error or an error of the store, whatever the claim's state and
  deletion mark.  For a claim in state staged, when the store answers, the node is removed
  from the decoded staged-on-nodes set; the claim is written with the annotation cleared
  and the state idle exactly when the remaining set is empty, and otherwise with the state
  still staged and the encoding of the remaining set (which decodes to that set when it
  does not hold the empty string).
\<close>

theorem UnstagePvcFromNode_transition:
  "UnstagePvcFromNode iter pvcName pvcNamespace nodeName w = (r, w') \<Longrightarrow>
     (\<forall>msg. r \<noteq> Some (Status FailedPrecondition msg)) \<and>
     (r = None \<or> (\<exists>x. r = Some (ApiError x))) \<and>
     (find (is_obj pvcNamespace pvcName) (pvcs w) = Some pvc \<and> answers 2 w \<and>
      lookup (Annotations pvc) (Domain' @ ''/state'') = ''staged'' \<longrightarrow>
        (let nodes =
               stringListToSet (lookup (Annotations pvc) (Domain' @ ''/staged-on-nodes''))
                 - {nodeName};
             pvc' =
               (if nodes = {}
                then pvc\<lparr>Annotations :=
                          ((Annotations pvc)(Domain' @ ''/staged-on-nodes'' := None))
                            (Domain' @ ''/state'' \<mapsto> ''idle'')\<rparr>
                else pvc\<lparr>Annotations :=
                          (Annotations pvc)
                            (Domain' @ ''/staged-on-nodes'' \<mapsto> setToStringList iter nodes)\<rparr>)
         in r = None \<and>
            pvcs w' = store_obj pvc' (pvcs w) \<and>
            (lookup (Annotations pvc') (Domain' @ ''/state'') = ''idle'') = (nodes = {}) \<and>
            (Annotations pvc' (Domain' @ ''/staged-on-nodes'') = None) = (nodes = {}) \<and>
            (nodes \<noteq> {} \<longrightarrow> lookup (Annotations pvc') (Domain' @ ''/state'') = ''staged'') \<and>
            (valid_range iter \<and> [] \<notin> nodes \<longrightarrow>
               stringListToSet (lookup (Annotations pvc') (Domain' @ ''/staged-on-nodes'')) =
                 nodes)))"
proof (intro conjI impI allI)
  assume run: "UnstagePvcFromNode iter pvcName pvcNamespace nodeName w = (r, w')"
  show kind: "r = None \<or> (\<exists>x. r = Some (ApiError x))"
  proof (cases r)
    case None
    then show ?thesis by simp
  next
    case (Some e)
    with run show ?thesis by (auto dest: UnstagePvcFromNode_error_kind)
  qed
  show "r \<noteq> Some (Status FailedPrecondition msg)" for msg
    using kind by auto
  assume h: "find (is_obj pvcNamespace pvcName) (pvcs w) = Some pvc \<and> answers 2 w \<and>
      lookup (Annotations pvc) (Domain' @ ''/state'') = ''staged''"
  define nodes where
    "nodes = stringListToSet (lookup (Annotations pvc) (Domain' @ ''/staged-on-nodes''))
       - {nodeName}"
  have sub: "nodes \<subseteq> stringListToSet (lookup (Annotations pvc) (Domain' @ ''/staged-on-nodes''))"
    by (auto simp: nodes_def)
  from h run have st: "r = None \<and>
     pvcs w' =
       store_obj
         (if nodes = {}
          then pvc\<lparr>Annotations :=
                    ((Annotations pvc)(Domain' @ ''/staged-on-nodes'' := None))
                      (Domain' @ ''/state'' \<mapsto> ''idle'')\<rparr>
          else pvc\<lparr>Annotations :=
                    (Annotations pvc)
                      (Domain' @ ''/staged-on-nodes'' \<mapsto> setToStringList iter nodes)\<rparr>)
         (pvcs w)"
    unfolding nodes_def by (intro UnstagePvcFromNode_staged) simp_all
  have dec: "valid_range iter \<and> [] \<notin> nodes \<longrightarrow>
      stringListToSet (setToStringList iter nodes) = nodes"
  proof
    assume "valid_range iter \<and> [] \<notin> nodes"
    then show "stringListToSet (setToStringList iter nodes) = nodes"
      using sub by (intro reduced_set_decodes [where old =
        "lookup (Annotations pvc) (Domain' @ ''/staged-on-nodes'')"]) simp_all
  qed
  have emp: "stringListToSet [] = {}"
    by (simp add: stringListToSet_def)
  from st dec h show "let nodes =
               stringListToSet (lookup (Annotations pvc) (Domain' @ ''/staged-on-nodes''))
                 - {nodeName};
             pvc' =
               (if nodes = {}
                then pvc\<lparr>Annotations :=
                          ((Annotations pvc)(Domain' @ ''/staged-on-nodes'' := None))
                            (Domain' @ ''/state'' \<mapsto> ''idle'')\<rparr>
                else pvc\<lparr>Annotations :=
                          (Annotations pvc)
                            (Domain' @ ''/staged-on-nodes'' \<mapsto> setToStringList iter nodes)\<rparr>)
         in r = None \<and>
            pvcs w' = store_obj pvc' (pvcs w) \<and>
            (lookup (Annotations pvc') (Domain' @ ''/state'') = ''idle'') = (nodes = {}) \<and>
            (Annotations pvc' (Domain' @ ''/staged-on-nodes'') = None) = (nodes = {}) \<and>
            (nodes \<noteq> {} \<longrightarrow> lookup (Annotations pvc') (Domain' @ ''/state'') = ''staged'') \<and>
            (valid_range iter \<and> [] \<notin> nodes \<longrightarrow>
               stringListToSet (lookup (Annotations pvc') (Domain' @ ''/staged-on-nodes'')) =
                 nodes)"
    unfolding Let_def nodes_def [symmetric]
    by (cases "nodes = {}") (simp_all add: lookup_def emp)
qed

theorem UnstagePvcFromNode_transition_witness:
  "find (is_obj ''ns'' ''vol'') (pvcs (sample_world (staged_claim ''node-a,node-b''))) =
     Some (staged_claim ''node-a,node-b'') \<and>
   answers 2 (sample_world (staged_claim ''node-a,node-b'')) \<and>
   lookup (Annotations (staged_claim ''node-a,node-b'')) (Domain' @ ''/state'') = ''staged'' \<and>
   fst (UnstagePvcFromNode sorted_list_of_set ''vol'' ''ns'' ''node-a''
          (sample_world (staged_claim ''node-a,node-b''))) = None \<and>
   pvcs (snd (UnstagePvcFromNode sorted_list_of_set ''vol'' ''ns'' ''node-a''
          (sample_world (staged_claim ''node-a,node-b'')))) =
     [(staged_claim ''node-a,node-b'')
        \<lparr>Annotations :=
           (Annotations (staged_claim ''node-a,node-b''))
             (Domain' @ ''/staged-on-nodes'' \<mapsto> ''node-b'')\<rparr>] \<and>
   fst (UnstagePvcFromNode sorted_list_of_set ''vol'' ''ns'' ''node-a''
          (sample_world (staged_claim ''node-a''))) = None \<and>
   pvcs (snd (UnstagePvcFromNode sorted_list_of_set ''vol'' ''ns'' ''node-a''
          (sample_world (staged_claim ''node-a'')))) =
     [(staged_claim ''node-a'')
        \<lparr>Annotations :=
           ((Annotations (staged_claim ''node-a''))(Domain' @ ''/staged-on-nodes'' := None))
             (Domain' @ ''/state'' \<mapsto> ''idle'')\<rparr>]"
proof -
  let ?w = "sample_world (staged_claim ''node-a,node-b'')"
  let ?v = "sample_world (staged_claim ''node-a'')"
  have two: "stringListToSet ''node-a,node-b'' - {''node-a''} = {''node-b''}"
    by (auto simp: stringListToSet_def comma_def)
  have one: "stringListToSet ''node-a'' - {''node-a''} = {}"
    by (simp add: stringListToSet_def comma_def)
  have enc: "setToStringList sorted_list_of_set {''node-b''} = ''node-b''"
    by (simp add: setToStringList_def)
  have st2: "lookup (Annotations (staged_claim ''node-a,node-b'')) (Domain' @ ''/staged-on-nodes'') =
      ''node-a,node-b''"
    and st1: "lookup (Annotations (staged_claim ''node-a'')) (Domain' @ ''/staged-on-nodes'') =
      ''node-a''"
    and staged: "\<And>n. lookup (Annotations (staged_claim n)) (Domain' @ ''/state'') = ''staged''"
    by (simp_all add: staged_claim_def sample_claim_def lookup_def Domain'_def)
  have found: "\<And>n. find (is_obj ''ns'' ''vol'') (pvcs (sample_world (staged_claim n))) =
      Some (staged_claim n)"
    by (simp add: sample_world_def staged_claim_def sample_claim_def is_obj_def)
  have keep: "\<And>n p. Name p = ''vol'' \<Longrightarrow> Namespace p = ''ns'' \<Longrightarrow> DeletionTimestamp p = None \<Longrightarrow>
      store_obj p (pvcs (sample_world (staged_claim n))) = [p]"
    by (simp add: store_obj_def sample_world_def staged_claim_def sample_claim_def is_obj_def)
  have meta: "\<And>n. Name (staged_claim n) = ''vol''" "\<And>n. Namespace (staged_claim n) = ''ns''"
    "\<And>n. DeletionTimestamp (staged_claim n) = None"
    by (simp_all add: staged_claim_def sample_claim_def)
  have quiet: "\<And>n. answers 2 (sample_world (staged_claim n))"
    by (simp add: sample_world_def)
  have a: "fst (UnstagePvcFromNode sorted_list_of_set ''vol'' ''ns'' ''node-a'' ?w) = None \<and>
      pvcs (snd (UnstagePvcFromNode sorted_list_of_set ''vol'' ''ns'' ''node-a'' ?w)) =
        [(staged_claim ''node-a,node-b'')
           \<lparr>Annotations :=
              (Annotations (staged_claim ''node-a,node-b''))
                (Domain' @ ''/staged-on-nodes'' \<mapsto> ''node-b'')\<rparr>]"
    using UnstagePvcFromNode_transition
      [of sorted_list_of_set "''vol''" "''ns''" "''node-a''" ?w
          "fst (UnstagePvcFromNode sorted_list_of_set ''vol'' ''ns'' ''node-a'' ?w)"
          "snd (UnstagePvcFromNode sorted_list_of_set ''vol'' ''ns'' ''node-a'' ?w)"
          "staged_claim ''node-a,node-b''"]
    by (simp add: Let_def found quiet staged st2 two enc keep meta)
  have b: "fst (UnstagePvcFromNode sorted_list_of_set ''vol'' ''ns'' ''node-a'' ?v) = None \<and>
      pvcs (snd (UnstagePvcFromNode sorted_list_of_set ''vol'' ''ns'' ''node-a'' ?v)) =
        [(staged_claim ''node-a'')
           \<lparr>Annotations :=
              ((Annotations (staged_claim ''node-a''))(Domain' @ ''/staged-on-nodes'' := None))
                (Domain' @ ''/state'' \<mapsto> ''idle'')\<rparr>]"
    using UnstagePvcFromNode_transition
      [of sorted_list_of_set "''vol''" "''ns''" "''node-a''" ?v
          "fst (UnstagePvcFromNode sorted_list_of_set ''vol'' ''ns'' ''node-a'' ?v)"
          "snd (UnstagePvcFromNode sorted_list_of_set ''vol'' ''ns'' ''node-a'' ?v)"
          "staged_claim ''node-a''"]
    by (simp add: Let_def found quiet staged st1 one keep meta)
  from a b found quiet staged show ?thesis by simp
qed


section \<open>Claims in an unknown state\<close>

text \<open>
  C10 (as amended).  For every claim that is not marked for deletion and whose state
  annotation is absent (read as the empty string) or is none of idle, expanding, cloning,
  snapshotting and staged, when the store answers the read: \<open>SetPvcStateTo\<close> with a
  requested state other than the annotation's value, and \<open>StagePvcOnNode\<close>, return the
  precondition-failed error "volume is in an unknown state" and write nothing.
\<close>

theorem unknown_state_rejected:
  assumes "find (is_obj pvcNamespace pvcName) (pvcs w) = Some pvc" "answers 1 w"
    and "DeletionTimestamp pvc = None"
    and "lookup (Annotations pvc) (Domain' @ ''/state'') \<notin>
           {''idle'', ''expanding'', ''cloning'', ''snapshotting'', ''staged''}"
  shows "(lookup (Annotations pvc) (Domain' @ ''/state'') \<noteq> s \<longrightarrow>
            fst (SetPvcStateTo pvcName pvcNamespace s w) =
              Some (Status FailedPrecondition ''volume is in an unknown state'') \<and>
            pvcs (snd (SetPvcStateTo pvcName pvcNamespace s w)) = pvcs w) \<and>
         fst (StagePvcOnNode iter pvcName pvcNamespace nodeName w) =
           Some (Status FailedPrecondition ''volume is in an unknown state'') \<and>
         pvcs (snd (StagePvcOnNode iter pvcName pvcNamespace nodeName w)) = pvcs w"
proof (intro conjI impI)
  assume ne: "lookup (Annotations pvc) (Domain' @ ''/state'') \<noteq> s"
  have "(fst (SetPvcStateTo pvcName pvcNamespace s w),
         pvcs (snd (SetPvcStateTo pvcName pvcNamespace s w))) =
        (Some (Status FailedPrecondition ''volume is in an unknown state''), pvcs w)"
    using SetPvcStateTo_table [OF assms(1,2), of s
        "fst (SetPvcStateTo pvcName pvcNamespace s w)"
        "snd (SetPvcStateTo pvcName pvcNamespace s w)"] assms(3,4) ne
    by (simp add: Let_def)
  then show "fst (SetPvcStateTo pvcName pvcNamespace s w) =
      Some (Status FailedPrecondition ''volume is in an unknown state'')"
    and "pvcs (snd (SetPvcStateTo pvcName pvcNamespace s w)) = pvcs w"
    by simp_all
next
  have "\<not> (DeletionTimestamp pvc = None \<and>
            (lookup (Annotations pvc) (Domain' @ ''/state'') = ''idle'' \<or>
             lookup (Annotations pvc) (Domain' @ ''/state'') = ''staged''))"
    using assms(4) by auto
  from StagePvcOnNode_rejects [OF assms(1,2) this, of iter nodeName
      "fst (StagePvcOnNode iter pvcName pvcNamespace nodeName w)"
      "snd (StagePvcOnNode iter pvcName pvcNamespace nodeName w)"] assms(3,4)
  show "fst (StagePvcOnNode iter pvcName pvcNamespace nodeName w) =
      Some (Status FailedPrecondition ''volume is in an unknown state'')"
    and "pvcs (snd (StagePvcOnNode iter pvcName pvcNamespace nodeName w)) = pvcs w"
    by (simp_all add: Let_def)
qed

theorem unknown_state_rejected_witness:
  "find (is_obj ''ns'' ''vol'') (pvcs (sample_world stateless_claim)) = Some stateless_claim \<and>
   answers 1 (sample_world stateless_claim) \<and>
   DeletionTimestamp stateless_claim = None \<and>
   Annotations stateless_claim (Domain' @ ''/state'') = None \<and>
   fst (SetPvcStateTo ''vol'' ''ns'' ''expanding'' (sample_world stateless_claim)) =
     Some (Status FailedPrecondition ''volume is in an unknown state'') \<and>
   pvcs (snd (SetPvcStateTo ''vol'' ''ns'' ''expanding'' (sample_world stateless_claim))) =
     [stateless_claim] \<and>
   fst (StagePvcOnNode sorted_list_of_set ''vol'' ''ns'' ''node-a''
          (sample_world stateless_claim)) =
     Some (Status FailedPrecondition ''volume is in an unknown state'') \<and>
   pvcs (snd (StagePvcOnNode sorted_list_of_set ''vol'' ''ns'' ''node-a''
          (sample_world stateless_claim))) = [stateless_claim]"
  using unknown_state_rejected
    [of "''ns''" "''vol''" "sample_world stateless_claim" stateless_claim "''expanding''"
        sorted_list_of_set "''node-a''"]
  by (simp add: sample_world_def stateless_claim_def is_obj_def lookup_def)

text \<open>The claim as first stated fails on a claim that is marked for deletion: the check of
  the deletion mark comes first, and the error names the deletion.\<close>

theorem unknown_state_deleted_counterexample:
  "Annotations doomed_claim (Domain' @ ''/state'') = None \<and>
   fst (SetPvcStateTo ''vol'' ''ns'' ''expanding'' (sample_world doomed_claim)) =
     Some (Status FailedPrecondition ''volume is being deleted'') \<and>
   fst (SetPvcStateTo ''vol'' ''ns'' ''expanding'' (sample_world doomed_claim)) \<noteq>
     Some (Status FailedPrecondition ''volume is in an unknown state'') \<and>
   fst (StagePvcOnNode sorted_list_of_set ''vol'' ''ns'' ''node-a'' (sample_world doomed_claim)) =
     Some (Status FailedPrecondition ''volume is being deleted'') \<and>
   fst (StagePvcOnNode sorted_list_of_set ''vol'' ''ns'' ''node-a'' (sample_world doomed_claim)) \<noteq>
     Some (Status FailedPrecondition ''volume is in an unknown state'')"
proof -
  have f: "find (is_obj ''ns'' ''vol'') (pvcs (sample_world doomed_claim)) = Some doomed_claim"
    by (simp add: sample_world_def doomed_claim_def stateless_claim_def is_obj_def)
  have a: "answers 1 (sample_world doomed_claim)"
    by (simp add: sample_world_def)
  have d: "DeletionTimestamp doomed_claim \<noteq> None"
    by (simp add: doomed_claim_def)
  have "(fst (SetPvcStateTo ''vol'' ''ns'' ''expanding'' (sample_world doomed_claim)),
         pvcs (snd (SetPvcStateTo ''vol'' ''ns'' ''expanding'' (sample_world doomed_claim)))) =
        (Some (Status FailedPrecondition ''volume is being deleted''),
         pvcs (sample_world doomed_claim))"
    using SetPvcStateTo_table [OF f a, of "''expanding''"
        "fst (SetPvcStateTo ''vol'' ''ns'' ''expanding'' (sample_world doomed_claim))"
        "snd (SetPvcStateTo ''vol'' ''ns'' ''expanding'' (sample_world doomed_claim))"] d
    by (simp add: Let_def)
  moreover have
    "fst (StagePvcOnNode sorted_list_of_set ''vol'' ''ns'' ''node-a'' (sample_world doomed_claim)) =
       Some (Status FailedPrecondition ''volume is being deleted'')"
    using StagePvcOnNode_rejects [OF f a, of sorted_list_of_set "''node-a''"
        "fst (StagePvcOnNode sorted_list_of_set ''vol'' ''ns'' ''node-a''
               (sample_world doomed_claim))"
        "snd (StagePvcOnNode sorted_list_of_set ''vol'' ''ns'' ''node-a''
               (sample_world doomed_claim))"] d
    by (simp add: Let_def)
  moreover have "Annotations doomed_claim (Domain' @ ''/state'') = None"
    by (simp add: doomed_claim_def stateless_claim_def)
  ultimately show ?thesis by simp
qed


section \<open>Expanding a volume that is already large enough\<close>

lemma pvcs_List_Inr:
  assumes "pvcs_List selector w = (Inr items, w1)"
  shows "pvcs w1 = pvcs w \<and> trace w1 = trace w @ [(PvcList selector, None)] \<and>
         items = filter (selects selector) (pvcs w)"
proof -
  obtain f w0 where i: "interact w = (f, w0)" by (cases "interact w")
  from interact_frame [OF i] i assms show ?thesis
    by (auto simp: pvcs_List_def split: option.splits)
qed

lemma FindPvcByLabelSelector_Inr:
  assumes "FindPvcByLabelSelector selector w = (Inr pvc, w1)"
  shows "pvcs w1 = pvcs w \<and> trace w1 = trace w @ [(PvcList selector, None)] \<and>
         filter (selects selector) (pvcs w) = [pvc]"
proof -
  obtain l w0 where l: "pvcs_List selector w = (l, w0)" by (cases "pvcs_List selector w")
  with assms obtain items where it: "l = Inr items"
    by (cases l) (auto simp: FindPvcByLabelSelector_def)
  with l assms have "items = [pvc]" "w1 = w0"
    by (auto simp: FindPvcByLabelSelector_def split: list.splits)
  with pvcs_List_Inr [of selector w items w0] l it show ?thesis by simp
qed

lemma parse_1024: "ParseInt ''1024'' = Some 1024"
  by code_simp

lemma format_1024: "FormatInt 1024 = ''1024''"
  by code_simp

lemma format_512: "FormatInt 512 = ''512''"
  by code_simp

lemma selects_sample: "selects (Domain' @ ''/uid=u1'') (sample_claim st)"
  by (simp add: selects_def requirement_holds_def sample_claim_def Domain'_def comma_def)

lemma find_sample:
  "FindPvcByLabelSelector (Domain' @ ''/uid=u1'') (sample_world (sample_claim st)) =
     (Inr (sample_claim st),
      record_call (PvcList (Domain' @ ''/uid=u1'')) None (sample_world (sample_claim st)))"
  by (simp add: FindPvcByLabelSelector_def pvcs_List_def interact_def sample_world_def
        selects_sample)

lemma capacity_sample:
  "lookup (Annotations (sample_claim st)) (Domain' @ ''/capacity'') = ''1024''"
  by (simp add: sample_claim_def lookup_def Domain'_def)

text \<open>
  C6 (as amended).  In a call of \<open>ControllerExpandVolume\<close> with a volume id, a valid
  capacity range, a claim found by its uid label and a recorded capacity that parses and is
  not below the rounded requested capacity, the only call to the store is the lookup of
  the claim: no claim is written and no job is created.  The call returns success with the
  recorded capacity and \<open>NodeExpansionRequired\<close> false, unless a non-zero maximum is given
  and the recorded capacity exceeds it; then it returns an invalid-argument error.
\<close>

theorem expand_already_large_enough:
  assumes "exVolumeId req \<noteq> []"
    and "validateCapacity (exCapacityRange req) = (capacity, minCapacity, maxCapacity, None)"
    and "FindPvcByLabelSelector (Domain' @ ''/uid='' @ exVolumeId req) w = (Inr pvc, w1)"
    and "ParseInt (lookup (Annotations pvc) (Domain' @ ''/capacity'')) = Some currentCapacity"
    and "currentCapacity \<ge> capacity"
  shows "ControllerExpandVolume simage req w =
           (if maxCapacity \<noteq> 0 \<and> currentCapacity > maxCapacity then
              Returns (Inl (Status InvalidArgument
                (''current volume capacity ('' @ FormatInt currentCapacity @
                 '') exceeds maximum capacity ('' @ FormatInt maxCapacity @ '')'')))
            else
              Returns (Inr \<lparr>exCapacityBytes = currentCapacity, NodeExpansionRequired = False\<rparr>),
            w1) \<and>
         pvcs w1 = pvcs w \<and>
         trace w1 = trace w @ [(PvcList (Domain' @ ''/uid='' @ exVolumeId req), None)]"
proof -
  have "ControllerExpandVolume simage req w =
           (if maxCapacity \<noteq> 0 \<and> currentCapacity > maxCapacity then
              Returns (Inl (Status InvalidArgument
                (''current volume capacity ('' @ FormatInt currentCapacity @
                 '') exceeds maximum capacity ('' @ FormatInt maxCapacity @ '')'')))
            else
              Returns (Inr \<lparr>exCapacityBytes = currentCapacity, NodeExpansionRequired = False\<rparr>),
            w1)"
    using assms by (simp add: ControllerExpandVolume_def Let_def)
  with FindPvcByLabelSelector_Inr [OF assms(3)] show ?thesis by simp
qed

theorem expand_already_large_enough_witness:
  "validateCapacity (Some \<lparr>RequiredBytes = 1000, LimitBytes = 0\<rparr>) = (1024, 1000, 0, None) \<and>
   ParseInt (lookup (Annotations (sample_claim ''idle'')) (Domain' @ ''/capacity'')) = Some 1024 \<and>
   ControllerExpandVolume ''img''
       \<lparr>exVolumeId = ''u1'', exCapacityRange = Some \<lparr>RequiredBytes = 1000, LimitBytes = 0\<rparr>\<rparr>
       (sample_world (sample_claim ''idle'')) =
     (Returns (Inr \<lparr>exCapacityBytes = 1024, NodeExpansionRequired = False\<rparr>),
      record_call (PvcList (Domain' @ ''/uid=u1'')) None (sample_world (sample_claim ''idle'')))"
proof -
  have v: "validateCapacity (Some \<lparr>RequiredBytes = 1000, LimitBytes = 0\<rparr>) = (1024, 1000, 0, None)"
    by (simp add: validateCapacity_def wrap64_def quo_def)
  have p: "ParseInt (lookup (Annotations (sample_claim ''idle'')) (Domain' @ ''/capacity'')) =
      Some 1024"
    by (simp add: capacity_sample parse_1024)
  from expand_already_large_enough
    [of "\<lparr>exVolumeId = ''u1'', exCapacityRange = Some \<lparr>RequiredBytes = 1000, LimitBytes = 0\<rparr>\<rparr>"
        1024 1000 0 "sample_world (sample_claim ''idle'')" "sample_claim ''idle''"
        "record_call (PvcList (Domain' @ ''/uid=u1'')) None (sample_world (sample_claim ''idle''))"
        1024 "''img''"]
  show ?thesis
    using v p by (simp add: find_sample)
qed

text \<open>The claim as first stated fails when a maximum below the recorded capacity is given:
  the recorded capacity 1024 is not below the requested 512, yet the call is rejected.\<close>

theorem expand_limit_counterexample:
  "validateCapacity (Some \<lparr>RequiredBytes = 512, LimitBytes = 512\<rparr>) = (512, 512, 512, None) \<and>
   ParseInt (lookup (Annotations (sample_claim ''idle'')) (Domain' @ ''/capacity'')) = Some 1024 \<and>
   fst (ControllerExpandVolume ''img''
          \<lparr>exVolumeId = ''u1'', exCapacityRange = Some \<lparr>RequiredBytes = 512, LimitBytes = 512\<rparr>\<rparr>
          (sample_world (sample_claim ''idle''))) =
     Returns (Inl (Status InvalidArgument
       ''current volume capacity (1024) exceeds maximum capacity (512)''))"
proof -
  have v: "validateCapacity (Some \<lparr>RequiredBytes = 512, LimitBytes = 512\<rparr>) = (512, 512, 512, None)"
    by (simp add: validateCapacity_def wrap64_def quo_def)
  then show ?thesis
    by (simp add: ControllerExpandVolume_def find_sample capacity_sample parse_1024
          format_1024 format_512)
qed


section \<open>What a call adds to the trace\<close>

lemma extends_refl [simp]: "extends P w w"
  by (simp add: extends_def)

lemma extends_trans: "extends P w w1 \<Longrightarrow> extends P w1 w2 \<Longrightarrow> extends P w w2"
  by (auto simp: extends_def)

lemma extends_weaken: "extends P w w' \<Longrightarrow> (\<And>c. P c \<Longrightarrow> Q c) \<Longrightarrow> extends Q w w'"
  by (auto simp: extends_def list_all_iff)

lemma extends_trace_eq: "trace w' = trace w \<Longrightarrow> extends P w w'"
  by (simp add: extends_def)

lemma extends_record_call:
  "P c \<Longrightarrow> trace w0 = trace w \<Longrightarrow> extends P w (record_call c r w0)"
  by (simp add: extends_def)

lemma extends_interact: "interact w = (f, w0) \<Longrightarrow> trace w0 = trace w"
  by (simp add: interact_frame)

lemma Sleep_trace [simp]: "trace (Sleep w) = trace w"
  by (simp add: Sleep_def)

lemma Sleep_pvcs [simp]: "pvcs (Sleep w) = pvcs w"
  by (simp add: Sleep_def)

lemma pvcs_Get_extends:
  assumes "pvcs_Get ns n w = (r, w1)" "P (PvcGet ns n)"
  shows "extends P w w1"
proof -
  obtain f w0 where i: "interact w = (f, w0)" by (cases "interact w")
  with assms show ?thesis
    by (auto simp: pvcs_Get_def split: option.splits
        intro!: extends_record_call dest: extends_interact)
qed

lemma pvcs_Update_extends:
  assumes "pvcs_Update p w = (r, w1)" "P (PvcUpdate p)"
  shows "extends P w w1"
proof -
  obtain f w0 where i: "interact w = (f, w0)" by (cases "interact w")
  with assms show ?thesis
    by (auto simp: pvcs_Update_def split: option.splits
        intro!: extends_record_call dest: extends_interact)
qed

lemma pvcs_Patch_extends:
  assumes "pvcs_Patch ns n patch w = (r, w1)" "P (PvcPatch ns n patch)"
  shows "extends P w w1"
proof -
  obtain f w0 where i: "interact w = (f, w0)" by (cases "interact w")
  with assms show ?thesis
    by (auto simp: pvcs_Patch_def split: option.splits
        intro!: extends_record_call dest: extends_interact)
qed

lemma pvcs_List_extends:
  assumes "pvcs_List selector w = (r, w1)" "P (PvcList selector)"
  shows "extends P w w1"
proof -
  obtain f w0 where i: "interact w = (f, w0)" by (cases "interact w")
  with assms show ?thesis
    by (auto simp: pvcs_List_def split: option.splits
        intro!: extends_record_call dest: extends_interact)
qed

lemma snapshots_List_extends:
  assumes "snapshots_List selector w = (r, w1)" "P (SnapshotList selector)"
  shows "extends P w w1"
proof -
  obtain f w0 where i: "interact w = (f, w0)" by (cases "interact w")
  with assms show ?thesis
    by (auto simp: snapshots_List_def split: option.splits
        intro!: extends_record_call dest: extends_interact)
qed

lemma jobs_Create_extends:
  assumes "jobs_Create cfg w = (r, w1)" "P (JobCreate cfg)"
  shows "extends P w w1"
proof -
  obtain f w0 where i: "interact w = (f, w0)" by (cases "interact w")
  with assms show ?thesis
    by (auto simp: jobs_Create_def split: option.splits
        intro!: extends_record_call dest: extends_interact)
qed

lemma jobs_Get_extends:
  assumes "jobs_Get ns n w = (r, w1)" "P (JobGet ns n)"
  shows "extends P w w1"
proof -
  obtain f w0 where i: "interact w = (f, w0)" by (cases "interact w")
  with assms show ?thesis
    by (auto simp: jobs_Get_def split: option.splits
        intro!: extends_record_call dest: extends_interact)
qed

lemma jobs_Delete_extends:
  assumes "jobs_Delete ns n w = (r, w1)" "P (JobDelete ns n)"
  shows "extends P w w1"
proof -
  obtain f w0 where i: "interact w = (f, w0)" by (cases "interact w")
  with assms show ?thesis
    by (auto simp: jobs_Delete_def split: option.splits
        intro!: extends_record_call dest: extends_interact)
qed

lemma FindPvcByLabelSelector_extends:
  assumes "FindPvcByLabelSelector selector w = (r, w1)" "P (PvcList selector)"
  shows "extends P w w1"
proof -
  obtain l w0 where l: "pvcs_List selector w = (l, w0)" by (cases "pvcs_List selector w")
  with assms(1) have "w1 = w0"
    by (auto simp: FindPvcByLabelSelector_def split: sum.splits list.splits)
  moreover have "extends P w w0"
    using l by (rule pvcs_List_extends) (rule assms)
  ultimately show ?thesis by simp
qed

lemma FindVolumeSnapshotByLabelSelector_extends:
  assumes "FindVolumeSnapshotByLabelSelector selector w = (r, w1)" "P (SnapshotList selector)"
  shows "extends P w w1"
proof -
  obtain l w0 where l: "snapshots_List selector w = (l, w0)"
    by (cases "snapshots_List selector w")
  with assms(1) have "w1 = w0"
    by (auto simp: FindVolumeSnapshotByLabelSelector_def split: sum.splits list.splits)
  moreover have "extends P w w0"
    using l by (rule snapshots_List_extends) (rule assms)
  ultimately show ?thesis by simp
qed

lemma CreateJob_extends:
  assumes "CreateJob cfg w = (r, w1)" "P (JobCreate cfg)"
  shows "extends P w w1"
proof -
  obtain c w0 where c: "jobs_Create cfg w = (c, w0)" by (cases "jobs_Create cfg w")
  with assms(1) have "w1 = w0"
    by (auto simp: CreateJob_def split: option.splits if_splits)
  moreover have "extends P w w0"
    using c by (rule jobs_Create_extends) (rule assms)
  ultimately show ?thesis by simp
qed

lemma RetryOnConflict_extends:
  assumes "\<And>w r w1. fn w = (r, w1) \<Longrightarrow> extends P w w1"
  shows "RetryOnConflict k fn w = (r, w') \<Longrightarrow> extends P w w'"
proof (induction k arbitrary: w)
  case 0
  then show ?case by simp
next
  case (Suc k)
  obtain r1 w1 where f: "fn w = (r1, w1)" by (cases "fn w")
  then have e: "extends P w w1" by (rule assms)
  show ?case
  proof (cases "\<exists>err. r1 = Some err \<and> err = ApiError Conflict \<and> k > 0")
    case True
    with f Suc.prems have "RetryOnConflict k fn w1 = (r, w')" by auto
    then have "extends P w1 w'" by (rule Suc.IH)
    with e show ?thesis by (rule extends_trans)
  next
    case False
    with f Suc.prems have "w' = w1" by (cases r1) auto
    with e show ?thesis by simp
  qed
qed

lemma WaitForJobToSucceed_extends:
  assumes "\<And>ns n. P (JobGet ns n)"
  shows "WaitForJobToSucceed jobName jobNamespace w = (r, w') \<Longrightarrow> extends P w w'"
proof (induction jobName jobNamespace w rule: WaitForJobToSucceed.induct)
  case (1 jobName jobNamespace w)
  obtain g w1 where g: "jobs_Get jobNamespace jobName w = (g, w1)"
    by (cases "jobs_Get jobNamespace jobName w")
  have e: "extends P w w1"
    using g by (rule jobs_Get_extends) (rule assms)
  show ?case
  proof (cases g)
    case (Inl err)
    with g "1.prems" have "w' = w1"
      by (simp add: WaitForJobToSucceed.simps [of jobName jobNamespace w])
    with e show ?thesis by simp
  next
    case (Inr job)
    show ?thesis
    proof (cases "Succeeded job > 0 \<or> script w1 = []")
      case True
      with g Inr "1.prems" have "w' = w1"
        by (auto simp: WaitForJobToSucceed.simps [of jobName jobNamespace w] split: if_splits)
      with e show ?thesis by simp
    next
      case False
      with g Inr "1.prems" have
        "WaitForJobToSucceed jobName jobNamespace (Sleep w1) = (r, w')"
        by (simp add: WaitForJobToSucceed.simps [of jobName jobNamespace w])
      with "1.IH" [OF g [symmetric] Inr] False have "extends P (Sleep w1) w'"
        by simp
      then have "extends P w1 w'"
        by (simp add: extends_def)
      with e show ?thesis by (rule extends_trans)
    qed
  qed
qed

lemma DeleteJobSynchronously_loop_extends:
  assumes "\<And>ns n. P (JobGet ns n)"
  shows "DeleteJobSynchronously_loop jobName jobNamespace err w = (r, w') \<Longrightarrow> extends P w w'"
proof (induction jobName jobNamespace err w rule: DeleteJobSynchronously_loop.induct)
  case (1 jobName jobNamespace err w)
  show ?case
  proof (cases "err = None \<and> script w \<noteq> []")
    case False
    with "1.prems" have "w' = w"
      by (auto simp: DeleteJobSynchronously_loop.simps [of jobName jobNamespace err w]
          split: option.splits if_splits)
    then show ?thesis by simp
  next
    case True
    obtain g w1 where g: "jobs_Get jobNamespace jobName (Sleep w) = (g, w1)"
      by (cases "jobs_Get jobNamespace jobName (Sleep w)")
    have "extends P (Sleep w) w1"
      using g by (rule jobs_Get_extends) (rule assms)
    then have e: "extends P w w1"
      by (simp add: extends_def)
    show ?thesis
    proof (cases g)
      case (Inl e')
      with g True "1.prems" have
        "DeleteJobSynchronously_loop jobName jobNamespace (Some e') w1 = (r, w')"
        by (simp add: DeleteJobSynchronously_loop.simps [of jobName jobNamespace None w])
      with "1.IH"(1) [OF _ _ g [symmetric] Inl] True have "extends P w1 w'"
        by simp
      with e show ?thesis by (rule extends_trans)
    next
      case (Inr j)
      with g True "1.prems" have
        "DeleteJobSynchronously_loop jobName jobNamespace None w1 = (r, w')"
        by (simp add: DeleteJobSynchronously_loop.simps [of jobName jobNamespace None w])
      with "1.IH"(2) [OF _ _ g [symmetric] Inr] True have "extends P w1 w'"
        by simp
      with e show ?thesis by (rule extends_trans)
    qed
  qed
qed


lemma not_JobCreate_simps [simp]:
  "\<not> is_JobCreate (PvcGet ns n)" "\<not> is_JobCreate (PvcList sel)"
  "\<not> is_JobCreate (PvcUpdate p)" "\<not> is_JobCreate (PvcPatch ns n patch)"
  "\<not> is_JobCreate (SnapshotList sel)" "\<not> is_JobCreate (JobGet ns n)"
  "\<not> is_JobCreate (JobDelete ns n)" "is_JobCreate (JobCreate cfg)"
  by (simp_all add: is_JobCreate_def)

lemma SetPvcStateTo_extends:
  assumes "SetPvcStateTo pvcName pvcNamespace s w = (r, w')"
    and "\<And>c. \<not> is_JobCreate c \<Longrightarrow> P c"
  shows "extends P w w'"
proof -
  have body: "extends P v v1"
    if b: "SetPvcStateTo_body pvcName pvcNamespace s v = (x, v1)" for v x v1
  proof -
    obtain g v0 where g: "pvcs_Get pvcNamespace pvcName v = (g, v0)"
      by (cases "pvcs_Get pvcNamespace pvcName v")
    have e0: "extends P v v0"
      using g by (rule pvcs_Get_extends) (simp add: assms(2))
    show ?thesis
    proof (cases g)
      case (Inl err)
      with g b have "v1 = v0" by (simp add: SetPvcStateTo_body_def)
      with e0 show ?thesis by simp
    next
      case (Inr pvc)
      show ?thesis
      proof (cases "v1 = v0")
        case True
        with e0 show ?thesis by simp
      next
        case False
        with g Inr b obtain p' where "pvcs_Update p' v0 = (x, v1)"
          by (auto simp: SetPvcStateTo_body_def Let_def split: if_splits)
        then have "extends P v0 v1"
          by (rule pvcs_Update_extends) (simp add: assms(2))
        with e0 show ?thesis by (rule extends_trans)
      qed
    qed
  qed
  from assms(1) have
    "RetryOnConflict DefaultRetry (SetPvcStateTo_body pvcName pvcNamespace s) w = (r, w')"
    by (simp add: SetPvcStateTo_def)
  then show ?thesis
    by (rule RetryOnConflict_extends [rotated]) (rule body)
qed

lemma SetPvcStateToIdle_extends:
  assumes "SetPvcStateToIdle pvcName pvcNamespace w = (r, w')"
    and "\<And>c. \<not> is_JobCreate c \<Longrightarrow> P c"
  shows "extends P w w'"
  using assms(1) unfolding SetPvcStateToIdle_def StrategicMergePatchPvc_def
  by (rule pvcs_Patch_extends) (simp add: assms(2))

lemma DeleteJobSynchronously_extends:
  assumes "DeleteJobSynchronously jobName jobNamespace w = (r, w')"
    and "\<And>c. \<not> is_JobCreate c \<Longrightarrow> P c"
  shows "extends P w w'"
proof -
  obtain d w1 where d: "jobs_Delete jobNamespace jobName w = (d, w1)"
    by (cases "jobs_Delete jobNamespace jobName w")
  then have e: "extends P w w1"
    by (rule jobs_Delete_extends) (simp add: assms(2))
  from d assms(1) have "DeleteJobSynchronously_loop jobName jobNamespace d w1 = (r, w')"
    by (simp add: DeleteJobSynchronously_def)
  then have "extends P w1 w'"
    by (rule DeleteJobSynchronously_loop_extends [rotated]) (simp add: assms(2))
  with e show ?thesis by (rule extends_trans)
qed

lemma WaitForJobToSucceed_extends':
  assumes "WaitForJobToSucceed jobName jobNamespace w = (r, w')"
    and "\<And>c. \<not> is_JobCreate c \<Longrightarrow> P c"
  shows "extends P w w'"
  using assms(1) by (rule WaitForJobToSucceed_extends [rotated]) (simp add: assms(2))

section \<open>The capacity of a volume made from a volume or a snapshot\<close>

text \<open>The job configurations built by the two functions, for the capacity they settle on.\<close>

lemma createVolumeFromVolume_extends:
  assumes run: "createVolumeFromVolume simage backingPvcName backingPvcNamespace
      backingPvcBasePath destPvc capacity maxCapacity sourcePvcUid w = (r, w')"
    and nonjob: "\<And>c. \<not> is_JobCreate c \<Longrightarrow> P c"
    and job: "\<And>cfg sourcePvc w1 sourceCapacity.
      FindPvcByLabelSelector (Domain' @ ''/uid='' @ sourcePvcUid) w = (Inr sourcePvc, w1) \<Longrightarrow>
      ParseInt (lookup (Annotations sourcePvc) (Domain' @ ''/capacity'')) = Some sourceCapacity \<Longrightarrow>
      cfgName cfg = GenerateCreationJobName (UID destPvc) \<Longrightarrow>
      last (Command cfg) = FormatInt (max capacity sourceCapacity) \<Longrightarrow>
      P (JobCreate cfg)"
  shows "extends P w w'"
proof -
  obtain f w1 where f: "FindPvcByLabelSelector (Domain' @ ''/uid='' @ sourcePvcUid) w = (f, w1)"
    by (cases "FindPvcByLabelSelector (Domain' @ ''/uid='' @ sourcePvcUid) w")
  then have e1: "extends P w w1"
    by (rule FindPvcByLabelSelector_extends) (simp add: nonjob)
  show ?thesis
  proof (cases f)
    case (Inl err)
    with f run have "w' = w1" by (simp add: createVolumeFromVolume_def)
    with e1 show ?thesis by simp
  next
    case (Inr sourcePvc)
    obtain s w2 where
      s: "SetPvcStateTo (Name sourcePvc) (Namespace sourcePvc) ''cloning'' w1 = (s, w2)"
      by (cases "SetPvcStateTo (Name sourcePvc) (Namespace sourcePvc) ''cloning'' w1")
    then have "extends P w1 w2"
      by (rule SetPvcStateTo_extends) (rule nonjob)
    with e1 have e2: "extends P w w2" by (rule extends_trans)
    show ?thesis
    proof (cases "s = None \<and>
        (\<exists>c. ParseInt (lookup (Annotations sourcePvc) (Domain' @ ''/capacity'')) = Some c \<and>
             \<not> (maxCapacity \<noteq> 0 \<and> c > maxCapacity))")
      case False
      with f Inr s run have "w' = w2"
        by (auto simp: createVolumeFromVolume_def split: option.splits if_splits)
      with e2 show ?thesis by simp
    next
      case True
      then obtain sourceCapacity where
        p: "ParseInt (lookup (Annotations sourcePvc) (Domain' @ ''/capacity'')) =
              Some sourceCapacity"
        and ok: "(maxCapacity \<noteq> 0 \<and> sourceCapacity > maxCapacity) = False" and sn: "s = None"
        by auto
      define cfg where "cfg =
        \<lparr>cfgName = GenerateCreationJobName (UID destPvc),
         cfgNamespace = backingPvcNamespace,
         cfgLabels =
           [Domain' @ ''/component'' \<mapsto> ''volume-creation'',
            Domain' @ ''/pvc-uid'' \<mapsto> UID destPvc],
         Image = simage,
         Command =
           [''bash'', ''-c'', creationScript, ''bash'',
            GenerateVolumeImagePath (UID sourcePvc), GenerateVolumeImagePath (UID destPvc),
            ''cloned-'' @ UID sourcePvc @ ''-to-'' @ UID destPvc @ ''.qcow2'',
            FormatInt (if capacity < sourceCapacity then sourceCapacity else capacity)],
         Args = [],
         BackingPvcName = backingPvcName,
         BackingPvcBasePath = backingPvcBasePath\<rparr>"
      have pc: "P (JobCreate cfg)"
        using f [unfolded Inr] p
        by (rule job) (simp_all add: cfg_def max_def)
      obtain c w3 where c: "CreateJob cfg w2 = (c, w3)" by (cases "CreateJob cfg w2")
      then have "extends P w2 w3"
        by (rule CreateJob_extends) (rule pc)
      with e2 have e3: "extends P w w3" by (rule extends_trans)
      show ?thesis
      proof (cases c)
        case (Some err)
        with f Inr s sn p c run have "w' = w3"
          by (simp add: createVolumeFromVolume_def Let_def cfg_def ok)
        with e3 show ?thesis by simp
      next
        case None
        obtain j w4 where
          j: "WaitForJobToSucceed (GenerateCreationJobName (UID destPvc)) backingPvcNamespace w3 =
                (j, w4)"
          by (cases "WaitForJobToSucceed (GenerateCreationJobName (UID destPvc))
                backingPvcNamespace w3")
        then have "extends P w3 w4"
          by (rule WaitForJobToSucceed_extends') (rule nonjob)
        with e3 have e4: "extends P w w4" by (rule extends_trans)
        show ?thesis
        proof (cases "j = Returns None")
          case False
          with f Inr s sn p c None j run have "w' = w4"
            by (cases j) (auto simp: createVolumeFromVolume_def Let_def cfg_def ok
                split: option.splits)
          with e4 show ?thesis by simp
        next
          case True
          obtain i w5 where
            i: "SetPvcStateToIdle (Name sourcePvc) (Namespace sourcePvc) w4 = (i, w5)"
            by (cases "SetPvcStateToIdle (Name sourcePvc) (Namespace sourcePvc) w4")
          then have "extends P w4 w5"
            by (rule SetPvcStateToIdle_extends) (rule nonjob)
          with e4 have e5: "extends P w w5" by (rule extends_trans)
          from f Inr s sn p c None j True i run have "w' = w5"
            by (simp add: createVolumeFromVolume_def Let_def cfg_def ok)
          with e5 show ?thesis by simp
        qed
      qed
    qed
  qed
qed

lemma createVolumeFromSnapshot_extends:
  assumes run: "createVolumeFromSnapshot simage backingPvcName backingPvcNamespace
      backingPvcBasePath destPvc capacity maxCapacity volumeSnapshotUid w = (r, w')"
    and nonjob: "\<And>c. \<not> is_JobCreate c \<Longrightarrow> P c"
    and job: "\<And>cfg volumeSnapshot w1 snapshotSize.
      FindVolumeSnapshotByLabelSelector (Domain' @ ''/uid='' @ volumeSnapshotUid) w =
        (Inr volumeSnapshot, w1) \<Longrightarrow>
      ParseInt (lookup (Annotations volumeSnapshot) (Domain' @ ''/size'')) = Some snapshotSize \<Longrightarrow>
      cfgName cfg = GenerateCreationJobName (UID destPvc) \<Longrightarrow>
      last (Command cfg) = FormatInt (max capacity snapshotSize) \<Longrightarrow>
      P (JobCreate cfg)"
  shows "extends P w w'"
proof -
  obtain f w1 where
    f: "FindVolumeSnapshotByLabelSelector (Domain' @ ''/uid='' @ volumeSnapshotUid) w = (f, w1)"
    by (cases "FindVolumeSnapshotByLabelSelector (Domain' @ ''/uid='' @ volumeSnapshotUid) w")
  then have e1: "extends P w w1"
    by (rule FindVolumeSnapshotByLabelSelector_extends) (simp add: nonjob)
  show ?thesis
  proof (cases "\<exists>volumeSnapshot c. f = Inr volumeSnapshot \<and>
      ParseInt (lookup (Annotations volumeSnapshot) (Domain' @ ''/size'')) = Some c \<and>
      \<not> (maxCapacity \<noteq> 0 \<and> c > maxCapacity)")
    case False
    with f run have "w' = w1"
      by (cases f) (auto simp: createVolumeFromSnapshot_def split: option.splits if_splits)
    with e1 show ?thesis by simp
  next
    case True
    then obtain volumeSnapshot snapshotSize where fi: "f = Inr volumeSnapshot"
      and p: "ParseInt (lookup (Annotations volumeSnapshot) (Domain' @ ''/size'')) =
            Some snapshotSize"
      and ok: "(maxCapacity \<noteq> 0 \<and> snapshotSize > maxCapacity) = False"
      by auto
    define cfg where "cfg =
      \<lparr>cfgName = GenerateCreationJobName (UID destPvc),
       cfgNamespace = backingPvcNamespace,
       cfgLabels =
         [Domain' @ ''/component'' \<mapsto> ''volume-creation'',
          Domain' @ ''/pvc-uid'' \<mapsto> UID destPvc],
       Image = simage,
       Command =
         [''qemu-img'', ''create'', ''-f'', ''qcow2'',
          ''-b'', ''snapshot-'' @ UID volumeSnapshot @ ''.qcow2'',
          ''-F'', ''qcow2'',
          ''/var/backing/pvc-'' @ UID destPvc @ ''.qcow2'',
          FormatInt (if capacity < snapshotSize then snapshotSize else capacity)],
       Args = [],
       BackingPvcName = backingPvcName,
       BackingPvcBasePath = backingPvcBasePath\<rparr>"
    have pc: "P (JobCreate cfg)"
      using f [unfolded fi] p
      by (rule job) (simp_all add: cfg_def max_def)
    obtain c w2 where c: "CreateJob cfg w1 = (c, w2)" by (cases "CreateJob cfg w1")
    then have "extends P w1 w2"
      by (rule CreateJob_extends) (rule pc)
    with e1 have e2: "extends P w w2" by (rule extends_trans)
    show ?thesis
    proof (cases c)
      case (Some err)
      with f fi p c run have "w' = w2"
        by (simp add: createVolumeFromSnapshot_def Let_def cfg_def ok)
      with e2 show ?thesis by simp
    next
      case None
      with f fi p c run have
        "WaitForJobToSucceed (GenerateCreationJobName (UID destPvc)) backingPvcNamespace w2 =
           (r, w')"
        by (simp add: createVolumeFromSnapshot_def Let_def cfg_def ok)
      then have "extends P w2 w'"
        by (rule WaitForJobToSucceed_extends') (rule nonjob)
      with e2 show ?thesis by (rule extends_trans)
    qed
  qed
qed


text \<open>
  What the two helpers do guarantee about the job, in every cluster.  Whatever
  \<open>createVolumeFromVolume\<close> and \<open>createVolumeFromSnapshot\<close> do after the source was found
  and its recorded capacity (the snapshot's recorded size) parsed, every job they create is
  the creation job of the new claim and is given, as its last argument, the maximum of the
  capacity passed in and the source's recorded capacity.  When a non-zero maximum is given
  and the source's recorded capacity exceeds it, the call returns an invalid-argument error
  and has created no job (for a volume source: once the source has entered the state
  cloning).
\<close>

theorem derived_volume_job_capacity:
  "(createVolumeFromVolume simage backingPvcName backingPvcNamespace backingPvcBasePath destPvc
        capacity maxCapacity sourcePvcUid w = (r, w') \<and>
    FindPvcByLabelSelector (Domain' @ ''/uid='' @ sourcePvcUid) w = (Inr sourcePvc, w1) \<and>
    ParseInt (lookup (Annotations sourcePvc) (Domain' @ ''/capacity'')) = Some sourceCapacity \<longrightarrow>
      extends
        (\<lambda>c. \<forall>cfg. c = JobCreate cfg \<longrightarrow>
           cfgName cfg = GenerateCreationJobName (UID destPvc) \<and>
           last (Command cfg) = FormatInt (max capacity sourceCapacity)) w w' \<and>
      (maxCapacity \<noteq> 0 \<and> sourceCapacity > maxCapacity \<and>
       SetPvcStateTo (Name sourcePvc) (Namespace sourcePvc) ''cloning'' w1 = (None, w2) \<longrightarrow>
         r = Returns (Some (Status InvalidArgument
               (''source volume capacity ('' @ FormatInt sourceCapacity @
                '') exceeds maximum capacity ('' @ FormatInt maxCapacity @ '')''))) \<and>
         extends (\<lambda>c. \<not> is_JobCreate c) w w')) \<and>
   (createVolumeFromSnapshot simage backingPvcName backingPvcNamespace backingPvcBasePath destPvc
        capacity maxCapacity volumeSnapshotUid v = (q, v') \<and>
    FindVolumeSnapshotByLabelSelector (Domain' @ ''/uid='' @ volumeSnapshotUid) v =
      (Inr volumeSnapshot, v1) \<and>
    ParseInt (lookup (Annotations volumeSnapshot) (Domain' @ ''/size'')) = Some snapshotSize \<longrightarrow>
      extends
        (\<lambda>c. \<forall>cfg. c = JobCreate cfg \<longrightarrow>
           cfgName cfg = GenerateCreationJobName (UID destPvc) \<and>
           last (Command cfg) = FormatInt (max capacity snapshotSize)) v v' \<and>
      (maxCapacity \<noteq> 0 \<and> snapshotSize > maxCapacity \<longrightarrow>
         q = Returns (Some (Status InvalidArgument
               (''source snapshot size ('' @ FormatInt snapshotSize @
                '') exceeds maximum capacity ('' @ FormatInt maxCapacity @ '')''))) \<and>
         extends (\<lambda>c. \<not> is_JobCreate c) v v'))"
proof (intro conjI impI)
  assume h: "createVolumeFromVolume simage backingPvcName backingPvcNamespace backingPvcBasePath
        destPvc capacity maxCapacity sourcePvcUid w = (r, w') \<and>
    FindPvcByLabelSelector (Domain' @ ''/uid='' @ sourcePvcUid) w = (Inr sourcePvc, w1) \<and>
    ParseInt (lookup (Annotations sourcePvc) (Domain' @ ''/capacity'')) = Some sourceCapacity"
  then have run: "createVolumeFromVolume simage backingPvcName backingPvcNamespace
        backingPvcBasePath destPvc capacity maxCapacity sourcePvcUid w = (r, w')"
    and f: "FindPvcByLabelSelector (Domain' @ ''/uid='' @ sourcePvcUid) w = (Inr sourcePvc, w1)"
    and p: "ParseInt (lookup (Annotations sourcePvc) (Domain' @ ''/capacity'')) =
        Some sourceCapacity"
    by simp_all
  show "extends
        (\<lambda>c. \<forall>cfg. c = JobCreate cfg \<longrightarrow>
           cfgName cfg = GenerateCreationJobName (UID destPvc) \<and>
           last (Command cfg) = FormatInt (max capacity sourceCapacity)) w w'"
    using run
  proof (rule createVolumeFromVolume_extends)
    fix c :: call
    assume "\<not> is_JobCreate c"
    then show "\<forall>cfg. c = JobCreate cfg \<longrightarrow>
           cfgName cfg = GenerateCreationJobName (UID destPvc) \<and>
           last (Command cfg) = FormatInt (max capacity sourceCapacity)"
      by auto
  next
    fix cfg :: JobConfig and sourcePvc' w1' sourceCapacity'
    assume "FindPvcByLabelSelector (Domain' @ ''/uid='' @ sourcePvcUid) w = (Inr sourcePvc', w1')"
      and "ParseInt (lookup (Annotations sourcePvc') (Domain' @ ''/capacity'')) =
        Some sourceCapacity'"
      and "cfgName cfg = GenerateCreationJobName (UID destPvc)"
      and "last (Command cfg) = FormatInt (max capacity sourceCapacity')"
    with f p show "\<forall>cfg'. JobCreate cfg = JobCreate cfg' \<longrightarrow>
           cfgName cfg' = GenerateCreationJobName (UID destPvc) \<and>
           last (Command cfg') = FormatInt (max capacity sourceCapacity)"
      by auto
  qed
  {
    assume big: "maxCapacity \<noteq> 0 \<and> sourceCapacity > maxCapacity \<and>
       SetPvcStateTo (Name sourcePvc) (Namespace sourcePvc) ''cloning'' w1 = (None, w2)"
    with run f p have res: "r = Returns (Some (Status InvalidArgument
               (''source volume capacity ('' @ FormatInt sourceCapacity @
                '') exceeds maximum capacity ('' @ FormatInt maxCapacity @ '')'')))"
      and w2: "w' = w2"
      by (simp_all add: createVolumeFromVolume_def)
    from res show "r = Returns (Some (Status InvalidArgument
               (''source volume capacity ('' @ FormatInt sourceCapacity @
                '') exceeds maximum capacity ('' @ FormatInt maxCapacity @ '')'')))" .
    have "extends (\<lambda>c. \<not> is_JobCreate c) w w1"
      using f by (rule FindPvcByLabelSelector_extends) simp
    moreover from big have
      "SetPvcStateTo (Name sourcePvc) (Namespace sourcePvc) ''cloning'' w1 = (None, w2)"
      by simp
    then have "extends (\<lambda>c. \<not> is_JobCreate c) w1 w2"
      by (rule SetPvcStateTo_extends)
    ultimately show "extends (\<lambda>c. \<not> is_JobCreate c) w w'"
      unfolding w2 by (rule extends_trans)
  }
next
  assume h: "createVolumeFromSnapshot simage backingPvcName backingPvcNamespace
        backingPvcBasePath destPvc capacity maxCapacity volumeSnapshotUid v = (q, v') \<and>
    FindVolumeSnapshotByLabelSelector (Domain' @ ''/uid='' @ volumeSnapshotUid) v =
      (Inr volumeSnapshot, v1) \<and>
    ParseInt (lookup (Annotations volumeSnapshot) (Domain' @ ''/size'')) = Some snapshotSize"
  then have run: "createVolumeFromSnapshot simage backingPvcName backingPvcNamespace
        backingPvcBasePath destPvc capacity maxCapacity volumeSnapshotUid v = (q, v')"
    and f: "FindVolumeSnapshotByLabelSelector (Domain' @ ''/uid='' @ volumeSnapshotUid) v =
      (Inr volumeSnapshot, v1)"
    and p: "ParseInt (lookup (Annotations volumeSnapshot) (Domain' @ ''/size'')) =
        Some snapshotSize"
    by simp_all
  show "extends
        (\<lambda>c. \<forall>cfg. c = JobCreate cfg \<longrightarrow>
           cfgName cfg = GenerateCreationJobName (UID destPvc) \<and>
           last (Command cfg) = FormatInt (max capacity snapshotSize)) v v'"
    using run
  proof (rule createVolumeFromSnapshot_extends)
    fix c :: call
    assume "\<not> is_JobCreate c"
    then show "\<forall>cfg. c = JobCreate cfg \<longrightarrow>
           cfgName cfg = GenerateCreationJobName (UID destPvc) \<and>
           last (Command cfg) = FormatInt (max capacity snapshotSize)"
      by auto
  next
    fix cfg :: JobConfig and volumeSnapshot' v1' snapshotSize'
    assume "FindVolumeSnapshotByLabelSelector (Domain' @ ''/uid='' @ volumeSnapshotUid) v =
        (Inr volumeSnapshot', v1')"
      and "ParseInt (lookup (Annotations volumeSnapshot') (Domain' @ ''/size'')) =
        Some snapshotSize'"
      and "cfgName cfg = GenerateCreationJobName (UID destPvc)"
      and "last (Command cfg) = FormatInt (max capacity snapshotSize')"
    with f p show "\<forall>cfg'. JobCreate cfg = JobCreate cfg' \<longrightarrow>
           cfgName cfg' = GenerateCreationJobName (UID destPvc) \<and>
           last (Command cfg') = FormatInt (max capacity snapshotSize)"
      by auto
  qed
  {
    assume big: "maxCapacity \<noteq> 0 \<and> snapshotSize > maxCapacity"
    with run f p have res: "q = Returns (Some (Status InvalidArgument
               (''source snapshot size ('' @ FormatInt snapshotSize @
                '') exceeds maximum capacity ('' @ FormatInt maxCapacity @ '')'')))"
      and v1: "v' = v1"
      by (simp_all add: createVolumeFromSnapshot_def)
    from res show "q = Returns (Some (Status InvalidArgument
               (''source snapshot size ('' @ FormatInt snapshotSize @
                '') exceeds maximum capacity ('' @ FormatInt maxCapacity @ '')'')))" .
    show "extends (\<lambda>c. \<not> is_JobCreate c) v v'"
      unfolding v1 using f by (rule FindVolumeSnapshotByLabelSelector_extends) simp
  }
qed


lemma validate_512: "validateCapacity (Some \<lparr>RequiredBytes = 512, LimitBytes = 0\<rparr>) = (512, 512, 0, None)"
  by (simp add: validateCapacity_def wrap64_def quo_def)

lemma restore_request_simps:
  "getParameter restore_request ''csi.storage.k8s.io/pvc/name'' = Inr ''new''"
  "getParameter restore_request ''csi.storage.k8s.io/pvc/namespace'' = Inr ''ns''"
  "getParameter restore_request ''backingClaimName'' = Inr ''shared''"
  "getParameter restore_request ''backingClaimNamespace'' = Inr ''backing''"
  "lookup (Parameters restore_request) ''basePath'' = []"
  "validateCapacity (cvCapacityRange restore_request) = (512, 512, 0, None)"
  "check_capabilities (VolumeCapabilities restore_request) = None"
  "VolumeContentSource restore_request = Some (SnapshotSource ''s1'')"
  by (simp_all add: getParameter_def restore_request_def lookup_def validate_512)

lemma selects_snapshot: "selects (Domain' @ ''/uid=s1'') sample_snapshot"
  by (simp add: selects_def requirement_holds_def sample_snapshot_def Domain'_def comma_def)

lemma size_snapshot:
  "ParseInt (lookup (Annotations sample_snapshot) (Domain' @ ''/size'')) = Some 1024"
  by (simp add: sample_snapshot_def lookup_def parse_1024)

lemma sample_claim_fields:
  "Name (sample_claim st) = ''vol''" "Namespace (sample_claim st) = ''ns''"
  "UID (sample_claim st) = ''u1''" "DeletionTimestamp (sample_claim st) = None"
  "lookup (Annotations (sample_claim st)) (Domain' @ ''/state'') = st"
  "lookup (Annotations (sample_claim st)) (Domain' @ ''/capacity'') = ''1024''"
  by (simp_all add: sample_claim_def lookup_def)

lemma new_claim_fields:
  "Name new_claim = ''new''" "Namespace new_claim = ''ns''" "UID new_claim = ''u2''"
  "DeletionTimestamp new_claim = None"
  by (simp_all add: new_claim_def)

lemma find_snapshot:
  "FindVolumeSnapshotByLabelSelector (Domain' @ ''/uid=s1'') restore_world =
     (Inr sample_snapshot,
      record_call (SnapshotList (Domain' @ ''/uid=s1'')) None
        (restore_world\<lparr>script := tl (script restore_world)\<rparr>))"
  by (simp add: FindVolumeSnapshotByLabelSelector_def snapshots_List_def interact_def
        env_apply_def restore_world_def selects_snapshot)

lemma find_clone_source:
  "FindPvcByLabelSelector (Domain' @ ''/uid=u1'') clone_world =
     (Inr (sample_claim ''idle''),
      record_call (PvcList (Domain' @ ''/uid=u1'')) None
        (clone_world\<lparr>script := tl (script clone_world)\<rparr>))"
  by (simp add: FindPvcByLabelSelector_def pvcs_List_def interact_def
        env_apply_def clone_world_def selects_sample)

lemma restore_from_snapshot_run:
  "fst (createVolumeFromSnapshot ''img'' ''shared'' ''backing'' [] new_claim 512 0 ''s1''
          restore_world) = Returns None \<and>
   last (Command (config (hd (jobs (snd (createVolumeFromSnapshot ''img'' ''shared'' ''backing''
          [] new_claim 512 0 ''s1'' restore_world)))))) = ''1024''"
  by (simp add: createVolumeFromSnapshot_def FindVolumeSnapshotByLabelSelector_def
        snapshots_List_def selects_snapshot size_snapshot Let_def
        restore_world_def record_call_def CreateJob_def jobs_Create_def interact_def
        env_apply_def is_job_def WaitForJobToSucceed.simps jobs_Get_def Sleep_def
        GenerateCreationJobName_def new_claim_fields format_1024)

lemma clone_run:
  "fst (createVolumeFromVolume ''img'' ''shared'' ''backing'' [] new_claim 512 0 ''u1''
          clone_world) = Returns None \<and>
   last (Command (config (hd (jobs (snd (createVolumeFromVolume ''img'' ''shared'' ''backing''
          [] new_claim 512 0 ''u1'' clone_world)))))) = ''1024''"
  by (simp add: createVolumeFromVolume_def FindPvcByLabelSelector_def pvcs_List_def
        selects_sample sample_claim_fields parse_1024 Let_def
        clone_world_def record_call_def CreateJob_def jobs_Create_def interact_def
        env_apply_def is_job_def WaitForJobToSucceed.simps jobs_Get_def Sleep_def
        GenerateCreationJobName_def new_claim_fields format_1024
        SetPvcStateTo_def DefaultRetry_def eval_nat_numeral SetPvcStateTo_body_def
        pvcs_Get_def pvcs_Update_def store_obj_def is_obj_def
        SetPvcStateToIdle_def StrategicMergePatchPvc_def pvcs_Patch_def)

theorem derived_volume_job_capacity_witness:
  "FindPvcByLabelSelector (Domain' @ ''/uid=u1'') clone_world =
     (Inr (sample_claim ''idle''),
      record_call (PvcList (Domain' @ ''/uid=u1'')) None
        (clone_world\<lparr>script := tl (script clone_world)\<rparr>)) \<and>
   ParseInt (lookup (Annotations (sample_claim ''idle'')) (Domain' @ ''/capacity'')) = Some 1024 \<and>
   fst (createVolumeFromVolume ''img'' ''shared'' ''backing'' [] new_claim 512 0 ''u1''
          clone_world) = Returns None \<and>
   last (Command (config (hd (jobs (snd (createVolumeFromVolume ''img'' ''shared'' ''backing''
          [] new_claim 512 0 ''u1'' clone_world)))))) = ''1024'' \<and>
   extends
     (\<lambda>c. \<forall>cfg. c = JobCreate cfg \<longrightarrow>
        cfgName cfg = GenerateCreationJobName (UID new_claim) \<and> last (Command cfg) = ''1024'')
     clone_world
     (snd (createVolumeFromVolume ''img'' ''shared'' ''backing'' [] new_claim 512 0 ''u1''
            clone_world)) \<and>
   FindVolumeSnapshotByLabelSelector (Domain' @ ''/uid=s1'') restore_world =
     (Inr sample_snapshot,
      record_call (SnapshotList (Domain' @ ''/uid=s1'')) None
        (restore_world\<lparr>script := tl (script restore_world)\<rparr>)) \<and>
   ParseInt (lookup (Annotations sample_snapshot) (Domain' @ ''/size'')) = Some 1024 \<and>
   fst (createVolumeFromSnapshot ''img'' ''shared'' ''backing'' [] new_claim 512 0 ''s1''
          restore_world) = Returns None \<and>
   last (Command (config (hd (jobs (snd (createVolumeFromSnapshot ''img'' ''shared'' ''backing''
          [] new_claim 512 0 ''s1'' restore_world)))))) = ''1024'' \<and>
   extends
     (\<lambda>c. \<forall>cfg. c = JobCreate cfg \<longrightarrow>
        cfgName cfg = GenerateCreationJobName (UID new_claim) \<and> last (Command cfg) = ''1024'')
     restore_world
     (snd (createVolumeFromSnapshot ''img'' ''shared'' ''backing'' [] new_claim 512 0 ''s1''
            restore_world))"
proof -
  have p: "ParseInt (lookup (Annotations (sample_claim ''idle'')) (Domain' @ ''/capacity'')) =
      Some 1024"
    by (simp add: capacity_sample parse_1024)
  have m: "FormatInt (max 512 1024) = ''1024''"
    by (simp add: format_1024)
  from derived_volume_job_capacity
    [of "''img''" "''shared''" "''backing''" "[]" new_claim 512 0 "''u1''" clone_world
        "fst (createVolumeFromVolume ''img'' ''shared'' ''backing'' [] new_claim 512 0 ''u1''
               clone_world)"
        "snd (createVolumeFromVolume ''img'' ''shared'' ''backing'' [] new_claim 512 0 ''u1''
               clone_world)"
        "sample_claim ''idle''"
        "record_call (PvcList (Domain' @ ''/uid=u1'')) None
           (clone_world\<lparr>script := tl (script clone_world)\<rparr>)"
        1024 _ "''s1''" restore_world
        "fst (createVolumeFromSnapshot ''img'' ''shared'' ''backing'' [] new_claim 512 0 ''s1''
               restore_world)"
        "snd (createVolumeFromSnapshot ''img'' ''shared'' ''backing'' [] new_claim 512 0 ''s1''
               restore_world)"
        sample_snapshot
        "record_call (SnapshotList (Domain' @ ''/uid=s1'')) None
           (restore_world\<lparr>script := tl (script restore_world)\<rparr>)"
        1024]
  moreover have "createVolumeFromVolume ''img'' ''shared'' ''backing'' [] new_claim 512 0 ''u1''
        clone_world =
      (fst (createVolumeFromVolume ''img'' ''shared'' ''backing'' [] new_claim 512 0 ''u1''
             clone_world),
       snd (createVolumeFromVolume ''img'' ''shared'' ''backing'' [] new_claim 512 0 ''u1''
             clone_world))"
    by simp
  moreover have "createVolumeFromSnapshot ''img'' ''shared'' ''backing'' [] new_claim 512 0 ''s1''
        restore_world =
      (fst (createVolumeFromSnapshot ''img'' ''shared'' ''backing'' [] new_claim 512 0 ''s1''
             restore_world),
       snd (createVolumeFromSnapshot ''img'' ''shared'' ''backing'' [] new_claim 512 0 ''s1''
             restore_world))"
    by simp
  ultimately have
    "extends
       (\<lambda>c. \<forall>cfg. c = JobCreate cfg \<longrightarrow>
          cfgName cfg = GenerateCreationJobName (UID new_claim) \<and>
          last (Command cfg) = ''1024'')
       clone_world
       (snd (createVolumeFromVolume ''img'' ''shared'' ''backing'' [] new_claim 512 0 ''u1''
              clone_world))"
    "extends
       (\<lambda>c. \<forall>cfg. c = JobCreate cfg \<longrightarrow>
          cfgName cfg = GenerateCreationJobName (UID new_claim) \<and>
          last (Command cfg) = ''1024'')
       restore_world
       (snd (createVolumeFromSnapshot ''img'' ''shared'' ''backing'' [] new_claim 512 0 ''s1''
              restore_world))"
    using p m find_clone_source find_snapshot size_snapshot by simp_all
  then show ?thesis
    using p m find_clone_source find_snapshot size_snapshot clone_run restore_from_snapshot_run
    by simp
qed

lemma restore_create_run:
  "fst (CreateVolume ''img'' restore_request restore_world) =
     Returns (Inr
       \<lparr>CapacityBytes = 512,
        VolumeId = ''u2'',
        VolumeContext =
          [''pvcName'' \<mapsto> ''new'',
           ''pvcNamespace'' \<mapsto> ''ns'',
           ''backingPvcName'' \<mapsto> ''shared'',
           ''backingPvcNamespace'' \<mapsto> ''backing'',
           ''backingPvcBasePath'' \<mapsto> []],
        ContentSource = Some (SnapshotSource ''s1'')\<rparr>) \<and>
   Annotations (hd (pvcs (snd (CreateVolume ''img'' restore_request restore_world))))
     (Domain' @ ''/capacity'') = Some ''512'' \<and>
   last (Command (config (hd (jobs (snd (CreateVolume ''img'' restore_request restore_world)))))) =
     ''1024''"
  by (simp add: CreateVolume_def restore_request_simps Let_def
        restore_world_def pvcs_Get_def interact_def env_apply_def record_call_def
        is_obj_def new_claim_def StrategicMergePatchPvc_def pvcs_Patch_def
        merge_patch_def creation_patch_def no_meta_def format_512
        createVolumeFromSnapshot_def FindVolumeSnapshotByLabelSelector_def snapshots_List_def
        selects_snapshot size_snapshot CreateJob_def jobs_Create_def is_job_def
        WaitForJobToSucceed.simps jobs_Get_def GenerateCreationJobName_def format_1024)

lemma clone_request_simps:
  "getParameter clone_request ''csi.storage.k8s.io/pvc/name'' = Inr ''new''"
  "getParameter clone_request ''csi.storage.k8s.io/pvc/namespace'' = Inr ''ns''"
  "getParameter clone_request ''backingClaimName'' = Inr ''shared''"
  "getParameter clone_request ''backingClaimNamespace'' = Inr ''backing''"
  "lookup (Parameters clone_request) ''basePath'' = []"
  "validateCapacity (cvCapacityRange clone_request) = (512, 512, 0, None)"
  "check_capabilities (VolumeCapabilities clone_request) = None"
  "VolumeContentSource clone_request = Some (VolumeSource ''u1'')"
  by (simp_all add: getParameter_def clone_request_def restore_request_def lookup_def
        validate_512)

lemma selects_uid:
  "selects (Domain' @ ''/uid=u1'') ob \<longleftrightarrow> Labels ob (Domain' @ ''/uid'') = Some ''u1''"
  by (simp add: selects_def requirement_holds_def Domain'_def comma_def)

lemma clone_labels:
  "Labels (sample_claim st) (Domain' @ ''/uid'') = Some ''u1''"
  "Labels new_claim = Map.empty" "Annotations new_claim = Map.empty"
  "Finalizers new_claim = []"
  by (simp_all add: sample_claim_def new_claim_def)

lemma clone_create_run:
  "fst (CreateVolume ''img'' clone_request clone_create_world) =
     Returns (Inr
       \<lparr>CapacityBytes = 512,
        VolumeId = ''u2'',
        VolumeContext =
          [''pvcName'' \<mapsto> ''new'',
           ''pvcNamespace'' \<mapsto> ''ns'',
           ''backingPvcName'' \<mapsto> ''shared'',
           ''backingPvcNamespace'' \<mapsto> ''backing'',
           ''backingPvcBasePath'' \<mapsto> []],
        ContentSource = Some (VolumeSource ''u1'')\<rparr>) \<and>
   Annotations (hd (pvcs (snd (CreateVolume ''img'' clone_request clone_create_world))))
     (Domain' @ ''/capacity'') = Some ''512'' \<and>
   last (Command (config (hd (jobs (snd (CreateVolume ''img'' clone_request
     clone_create_world)))))) = ''1024''"
  by (simp add: CreateVolume_def clone_request_simps Let_def
        clone_create_world_def pvcs_Get_def interact_def env_apply_def record_call_def
        is_obj_def new_claim_fields sample_claim_fields StrategicMergePatchPvc_def pvcs_Patch_def
        merge_patch_def creation_patch_def no_meta_def format_512
        createVolumeFromVolume_def FindPvcByLabelSelector_def pvcs_List_def
        selects_uid clone_labels parse_1024 CreateJob_def jobs_Create_def is_job_def
        WaitForJobToSucceed.simps jobs_Get_def Sleep_def GenerateCreationJobName_def format_1024
        SetPvcStateTo_def DefaultRetry_def eval_nat_numeral SetPvcStateTo_body_def
        pvcs_Update_def store_obj_def SetPvcStateToIdle_def)


text \<open>
  C7 (the code falls short of the claim).  A new claim is filled from a snapshot of recorded
  size 1024, and another is cloned from a claim of recorded capacity 1024, each with 512
  bytes requested and no maximum.  In both calls the creation job is given the capacity
  1024, the maximum of the two, but the capacity annotation written on the new claim and
  the capacity answered are 512: the capacity recorded for the derived volume is not the
  maximum and is less than the recorded capacity of its source.
\<close>

theorem derived_volume_recorded_capacity:
  "lookup (Annotations sample_snapshot) (Domain' @ ''/size'') = ''1024'' \<and>
   cvCapacityRange restore_request = Some \<lparr>RequiredBytes = 512, LimitBytes = 0\<rparr> \<and>
   fst (CreateVolume ''img'' restore_request restore_world) =
     Returns (Inr
       \<lparr>CapacityBytes = 512,
        VolumeId = ''u2'',
        VolumeContext =
          [''pvcName'' \<mapsto> ''new'',
           ''pvcNamespace'' \<mapsto> ''ns'',
           ''backingPvcName'' \<mapsto> ''shared'',
           ''backingPvcNamespace'' \<mapsto> ''backing'',
           ''backingPvcBasePath'' \<mapsto> []],
        ContentSource = Some (SnapshotSource ''s1'')\<rparr>) \<and>
   Annotations (hd (pvcs (snd (CreateVolume ''img'' restore_request restore_world))))
     (Domain' @ ''/capacity'') = Some ''512'' \<and>
   last (Command (config (hd (jobs (snd (CreateVolume ''img'' restore_request restore_world)))))) =
     ''1024'' \<and>
   lookup (Annotations (sample_claim ''idle'')) (Domain' @ ''/capacity'') = ''1024'' \<and>
   cvCapacityRange clone_request = Some \<lparr>RequiredBytes = 512, LimitBytes = 0\<rparr> \<and>
   fst (CreateVolume ''img'' clone_request clone_create_world) =
     Returns (Inr
       \<lparr>CapacityBytes = 512,
        VolumeId = ''u2'',
        VolumeContext =
          [''pvcName'' \<mapsto> ''new'',
           ''pvcNamespace'' \<mapsto> ''ns'',
           ''backingPvcName'' \<mapsto> ''shared'',
           ''backingPvcNamespace'' \<mapsto> ''backing'',
           ''backingPvcBasePath'' \<mapsto> []],
        ContentSource = Some (VolumeSource ''u1'')\<rparr>) \<and>
   Annotations (hd (pvcs (snd (CreateVolume ''img'' clone_request clone_create_world))))
     (Domain' @ ''/capacity'') = Some ''512'' \<and>
   last (Command (config (hd (jobs (snd (CreateVolume ''img'' clone_request
     clone_create_world)))))) = ''1024''"
proof -
  have "lookup (Annotations sample_snapshot) (Domain' @ ''/size'') = ''1024''"
    by (simp add: sample_snapshot_def lookup_def)
  moreover have "cvCapacityRange restore_request =
      Some \<lparr>RequiredBytes = 512, LimitBytes = 0\<rparr>"
    by (simp add: restore_request_def)
  moreover have "cvCapacityRange clone_request =
      Some \<lparr>RequiredBytes = 512, LimitBytes = 0\<rparr>"
    by (simp add: clone_request_def restore_request_def)
  moreover note sample_claim_fields(6) [of "''idle''"] restore_create_run clone_create_run
  ultimately show ?thesis by simp
qed

section \<open>Creating a volume: no job before the finalizer\<close>

lemma pvcs_Get_trace:
  assumes "pvcs_Get ns n w = (g, w1)"
  shows "\<exists>res. trace w1 = trace w @ [(PvcGet ns n, res)] \<and> ((\<exists>p. g = Inr p) \<longrightarrow> res = None)"
proof -
  obtain f w0 where i: "interact w = (f, w0)" by (cases "interact w")
  from interact_frame [OF i] i assms show ?thesis
    by (auto simp: pvcs_Get_def split: option.splits)
qed

lemma pvcs_Patch_trace:
  assumes "pvcs_Patch ns n patch w = (x, w1)"
  shows "\<exists>res. trace w1 = trace w @ [(PvcPatch ns n patch, res)] \<and> (x = None) = (res = None)"
proof -
  obtain f w0 where i: "interact w = (f, w0)" by (cases "interact w")
  from interact_frame [OF i] i assms show ?thesis
    by (auto simp: pvcs_Patch_def split: option.splits)
qed

lemma createVolumeFromNothing_extends:
  assumes "createVolumeFromNothing simage backingPvcName backingPvcNamespace backingPvcBasePath
      pvc capacity w = (r, w')"
  shows "extends (\<lambda>c. True) w w'"
proof -
  define cfg where "cfg =
    \<lparr>cfgName = GenerateCreationJobName (UID pvc),
     cfgNamespace = backingPvcNamespace,
     cfgLabels =
       [Domain' @ ''/component'' \<mapsto> ''volume-creation'',
        Domain' @ ''/pvc-uid'' \<mapsto> UID pvc],
     Image = simage,
     Command =
       [''qemu-img'', ''create'', ''-f'', ''qcow2'', GenerateVolumeImagePath (UID pvc),
        FormatInt capacity],
     Args = [],
     BackingPvcName = backingPvcName,
     BackingPvcBasePath = backingPvcBasePath\<rparr>"
  obtain c w1 where c: "CreateJob cfg w = (c, w1)" by (cases "CreateJob cfg w")
  then have e1: "extends (\<lambda>c. True) w w1"
    by (rule CreateJob_extends) simp
  show ?thesis
  proof (cases c)
    case (Some err)
    with c assms have "w' = w1"
      by (simp add: createVolumeFromNothing_def Let_def cfg_def)
    with e1 show ?thesis by simp
  next
    case None
    with c assms have
      "WaitForJobToSucceed (GenerateCreationJobName (UID pvc)) backingPvcNamespace w1 = (r, w')"
      by (simp add: createVolumeFromNothing_def Let_def cfg_def)
    then have "extends (\<lambda>c. True) w1 w'"
      by (rule WaitForJobToSucceed_extends') simp
    with e1 show ?thesis by (rule extends_trans)
  qed
qed

text \<open>The two ways a call of \<open>CreateVolume\<close> can go: it returns an error having made at most
  the read of the claim and a patch that failed, or its first two calls are the read of the
  claim and the successful patch that adds the cleanup finalizer.\<close>

lemma CreateVolume_shape:
  assumes "CreateVolume simage req w = (r, w')"
  shows "((\<exists>err. r = Returns (Inl err)) \<and>
          (trace w' = trace w \<or>
           (\<exists>ns n res. trace w' = trace w @ [(PvcGet ns n, res)]) \<or>
           (\<exists>ns n patch e.
              trace w' = trace w @ [(PvcGet ns n, None), (PvcPatch ns n patch, Some e)]))) \<or>
         (\<exists>ns n patch w2.
            trace w2 = trace w @ [(PvcGet ns n, None), (PvcPatch ns n patch, None)] \<and>
            Finalizers patch = [Domain' @ ''/cleanup''] \<and>
            extends (\<lambda>c. True) w2 w')"
proof -
  let ?early = "(\<exists>err. r = Returns (Inl err)) \<and> trace w' = trace w"
  show ?thesis
  proof (cases "\<exists>pvcName pvcNamespace backingPvcName backingPvcNamespace.
      getParameter req ''csi.storage.k8s.io/pvc/name'' = Inr pvcName \<and>
      getParameter req ''csi.storage.k8s.io/pvc/namespace'' = Inr pvcNamespace \<and>
      getParameter req ''backingClaimName'' = Inr backingPvcName \<and>
      getParameter req ''backingClaimNamespace'' = Inr backingPvcNamespace")
    case False
    with assms have ?early
      by (auto simp: CreateVolume_def split: sum.splits)
    then show ?thesis by simp
  next
    case True
    then obtain pvcName pvcNamespace backingPvcName backingPvcNamespace where
      params: "getParameter req ''csi.storage.k8s.io/pvc/name'' = Inr pvcName"
        "getParameter req ''csi.storage.k8s.io/pvc/namespace'' = Inr pvcNamespace"
        "getParameter req ''backingClaimName'' = Inr backingPvcName"
        "getParameter req ''backingClaimNamespace'' = Inr backingPvcNamespace"
      by auto
    obtain g w1 where g: "pvcs_Get pvcNamespace pvcName w = (g, w1)"
      by (cases "pvcs_Get pvcNamespace pvcName w")
    from pvcs_Get_trace [OF g] obtain res where
      t1: "trace w1 = trace w @ [(PvcGet pvcNamespace pvcName, res)]"
      and res: "(\<exists>p. g = Inr p) \<longrightarrow> res = None"
      by auto
    obtain capacity minCapacity maxCapacity verr where
      v: "validateCapacity (cvCapacityRange req) = (capacity, minCapacity, maxCapacity, verr)"
      by (cases "validateCapacity (cvCapacityRange req)") auto
    show ?thesis
    proof (cases "(\<exists>pvc. g = Inr pvc) \<and> verr = None \<and>
        check_capabilities (VolumeCapabilities req) = None")
      case False
      with assms params g v have "(\<exists>err. r = Returns (Inl err)) \<and> w' = w1"
        by (cases g; cases verr; cases "check_capabilities (VolumeCapabilities req)")
           (auto simp: CreateVolume_def Let_def)
      with t1 show ?thesis by auto
    next
      case True
      then obtain pvc where gi: "g = Inr pvc" and vn: "verr = None"
        and caps: "check_capabilities (VolumeCapabilities req) = None"
        by auto
      from res gi have t1': "trace w1 = trace w @ [(PvcGet pvcNamespace pvcName, None)]"
        using t1 by simp
      define patch where "patch =
        creation_patch pvc backingPvcName backingPvcNamespace
          (lookup (Parameters req) ''basePath'') capacity"
      have fin: "Finalizers patch = [Domain' @ ''/cleanup'']"
        by (simp add: patch_def creation_patch_def no_meta_def)
      obtain x w2 where x: "pvcs_Patch pvcNamespace pvcName patch w1 = (x, w2)"
        by (cases "pvcs_Patch pvcNamespace pvcName patch w1")
      from pvcs_Patch_trace [OF x] obtain pres where
        t2: "trace w2 = trace w1 @ [(PvcPatch pvcNamespace pvcName patch, pres)]"
        and pres: "(x = None) = (pres = None)"
        by auto
      show ?thesis
      proof (cases x)
        case (Some err)
        with pres obtain e where "pres = Some e" by (cases pres) auto
        moreover from assms params g gi v vn caps x Some
        have "r = Returns (Inl err) \<and> w' = w2"
          by (simp add: CreateVolume_def Let_def StrategicMergePatchPvc_def patch_def)
        ultimately show ?thesis
          using t1' t2 by auto
      next
        case None
        with pres have "pres = None" by simp
        with t1' t2 have
          t: "trace w2 = trace w @ [(PvcGet pvcNamespace pvcName, None),
                (PvcPatch pvcNamespace pvcName patch, None)]"
          by simp
        obtain q w3 where q:
          "(case VolumeContentSource req of
              None \<Rightarrow>
                createVolumeFromNothing simage backingPvcName backingPvcNamespace
                  (lookup (Parameters req) ''basePath'') pvc capacity w2
            | Some (VolumeSource sourceVolumeId) \<Rightarrow>
                createVolumeFromVolume simage backingPvcName backingPvcNamespace
                  (lookup (Parameters req) ''basePath'') pvc capacity maxCapacity
                  sourceVolumeId w2
            | Some (SnapshotSource sourceSnapshotId) \<Rightarrow>
                createVolumeFromSnapshot simage backingPvcName backingPvcNamespace
                  (lookup (Parameters req) ''basePath'') pvc capacity maxCapacity
                  sourceSnapshotId w2
            | Some NoSourceType \<Rightarrow>
                (Returns (Some (Status InvalidArgument ''unsupported volume content source'')),
                 w2)) = (q, w3)"
          by (cases "(case VolumeContentSource req of
              None \<Rightarrow>
                createVolumeFromNothing simage backingPvcName backingPvcNamespace
                  (lookup (Parameters req) ''basePath'') pvc capacity w2
            | Some (VolumeSource sourceVolumeId) \<Rightarrow>
                createVolumeFromVolume simage backingPvcName backingPvcNamespace
                  (lookup (Parameters req) ''basePath'') pvc capacity maxCapacity
                  sourceVolumeId w2
            | Some (SnapshotSource sourceSnapshotId) \<Rightarrow>
                createVolumeFromSnapshot simage backingPvcName backingPvcNamespace
                  (lookup (Parameters req) ''basePath'') pvc capacity maxCapacity
                  sourceSnapshotId w2
            | Some NoSourceType \<Rightarrow>
                (Returns (Some (Status InvalidArgument ''unsupported volume content source'')),
                 w2))")
        have e: "extends (\<lambda>c. True) w2 w3"
        proof (cases "VolumeContentSource req")
          case None
          with q show ?thesis
            by (auto dest: createVolumeFromNothing_extends)
        next
          case (Some src)
          show ?thesis
          proof (cases src)
            case (VolumeSource sourceVolumeId)
            with Some q have "createVolumeFromVolume simage backingPvcName backingPvcNamespace
                  (lookup (Parameters req) ''basePath'') pvc capacity maxCapacity
                  sourceVolumeId w2 = (q, w3)"
              by simp
            then show ?thesis
              by (rule createVolumeFromVolume_extends) simp_all
          next
            case (SnapshotSource sourceSnapshotId)
            with Some q have "createVolumeFromSnapshot simage backingPvcName backingPvcNamespace
                  (lookup (Parameters req) ''basePath'') pvc capacity maxCapacity
                  sourceSnapshotId w2 = (q, w3)"
              by simp
            then show ?thesis
              by (rule createVolumeFromSnapshot_extends) simp_all
          next
            case NoSourceType
            with Some q show ?thesis by simp
          qed
        qed
        from assms params g gi v vn caps x None q have "w' = w3"
          by (cases q; cases "case q of Returns y \<Rightarrow> y")
             (auto simp: CreateVolume_def Let_def StrategicMergePatchPvc_def patch_def
                split: run.splits option.splits)
        with e t fin show ?thesis by blast
      qed
    qed
  qed
qed


lemma CreateVolume_early:
  assumes run: "CreateVolume simage req w = (r, w')"
    and early:
      "lookup (Parameters req) ''csi.storage.k8s.io/pvc/name'' = [] \<or>
       lookup (Parameters req) ''csi.storage.k8s.io/pvc/namespace'' = [] \<or>
       lookup (Parameters req) ''backingClaimName'' = [] \<or>
       lookup (Parameters req) ''backingClaimNamespace'' = [] \<or>
       (\<exists>err. fst (pvcs_Get (lookup (Parameters req) ''csi.storage.k8s.io/pvc/namespace'')
                      (lookup (Parameters req) ''csi.storage.k8s.io/pvc/name'') w) = Inl err) \<or>
       snd (snd (snd (validateCapacity (cvCapacityRange req)))) \<noteq> None \<or>
       check_capabilities (VolumeCapabilities req) \<noteq> None"
  shows "(\<exists>err. r = Returns (Inl err)) \<and> extends (\<lambda>c. \<exists>ns n. c = PvcGet ns n) w w'"
proof (cases "lookup (Parameters req) ''csi.storage.k8s.io/pvc/name'' = [] \<or>
       lookup (Parameters req) ''csi.storage.k8s.io/pvc/namespace'' = [] \<or>
       lookup (Parameters req) ''backingClaimName'' = [] \<or>
       lookup (Parameters req) ''backingClaimNamespace'' = []")
  case True
  with run have "(\<exists>err. r = Returns (Inl err)) \<and> w' = w"
    by (auto simp: CreateVolume_def getParameter_def Let_def split: sum.splits if_splits)
  then show ?thesis by simp
next
  case False
  let ?n = "lookup (Parameters req) ''csi.storage.k8s.io/pvc/name''"
  let ?ns = "lookup (Parameters req) ''csi.storage.k8s.io/pvc/namespace''"
  from False have params:
    "getParameter req ''csi.storage.k8s.io/pvc/name'' = Inr ?n"
    "getParameter req ''csi.storage.k8s.io/pvc/namespace'' = Inr ?ns"
    "getParameter req ''backingClaimName'' = Inr (lookup (Parameters req) ''backingClaimName'')"
    "getParameter req ''backingClaimNamespace'' =
       Inr (lookup (Parameters req) ''backingClaimNamespace'')"
    by (simp_all add: getParameter_def Let_def)
  obtain g w1 where g: "pvcs_Get ?ns ?n w = (g, w1)"
    by (cases "pvcs_Get ?ns ?n w")
  then have e: "extends (\<lambda>c. \<exists>ns n. c = PvcGet ns n) w w1"
    by (rule pvcs_Get_extends) blast
  obtain capacity minCapacity maxCapacity verr where
    v: "validateCapacity (cvCapacityRange req) = (capacity, minCapacity, maxCapacity, verr)"
    by (cases "validateCapacity (cvCapacityRange req)") auto
  from early False g v have "(\<exists>err. g = Inl err) \<or> verr \<noteq> None \<or>
      check_capabilities (VolumeCapabilities req) \<noteq> None"
    by auto
  with run params g v have "(\<exists>err. r = Returns (Inl err)) \<and> w' = w1"
    by (cases g; cases verr; cases "check_capabilities (VolumeCapabilities req)")
       (auto simp: CreateVolume_def Let_def)
  with e show ?thesis by simp
qed

text \<open>
  C8.  In every call of \<open>CreateVolume\<close>, whatever the cluster does, a call that creates a
  job comes after a successful patch of the claim that adds the cleanup finalizer.  When a
  required parameter is missing or empty, the claim cannot be fetched, the capacity range
  is invalid or a capability is refused, the call returns an error and has made no call to
  the store but (at most) the read of the claim: no job was created.
\<close>

theorem CreateVolume_job_follows_finalizer:
  "CreateVolume simage req w = (r, w') \<Longrightarrow>
     (\<exists>es. trace w' = trace w @ es \<and>
        (\<forall>i<length es. is_JobCreate (fst (es ! i)) \<longrightarrow>
           (\<exists>j<i. \<exists>ns n patch. es ! j = (PvcPatch ns n patch, None) \<and>
              Domain' @ ''/cleanup'' \<in> set (Finalizers patch)))) \<and>
     (lookup (Parameters req) ''csi.storage.k8s.io/pvc/name'' = [] \<or>
      lookup (Parameters req) ''csi.storage.k8s.io/pvc/namespace'' = [] \<or>
      lookup (Parameters req) ''backingClaimName'' = [] \<or>
      lookup (Parameters req) ''backingClaimNamespace'' = [] \<or>
      (\<exists>err. fst (pvcs_Get (lookup (Parameters req) ''csi.storage.k8s.io/pvc/namespace'')
                     (lookup (Parameters req) ''csi.storage.k8s.io/pvc/name'') w) = Inl err) \<or>
      snd (snd (snd (validateCapacity (cvCapacityRange req)))) \<noteq> None \<or>
      check_capabilities (VolumeCapabilities req) \<noteq> None \<longrightarrow>
        (\<exists>err. r = Returns (Inl err)) \<and> extends (\<lambda>c. \<exists>ns n. c = PvcGet ns n) w w')"
proof (intro conjI impI)
  assume run: "CreateVolume simage req w = (r, w')"
  from CreateVolume_shape [OF run]
  show "\<exists>es. trace w' = trace w @ es \<and>
        (\<forall>i<length es. is_JobCreate (fst (es ! i)) \<longrightarrow>
           (\<exists>j<i. \<exists>ns n patch. es ! j = (PvcPatch ns n patch, None) \<and>
              Domain' @ ''/cleanup'' \<in> set (Finalizers patch)))"
  proof (elim disjE conjE exE)
    assume "trace w' = trace w"
    then show ?thesis by (intro exI [of _ "[]"]) simp
  next
    fix ns n res
    assume "trace w' = trace w @ [(PvcGet ns n, res)]"
    then show ?thesis by (intro exI [of _ "[(PvcGet ns n, res)]"]) simp
  next
    fix ns n patch e
    assume "trace w' = trace w @ [(PvcGet ns n, None), (PvcPatch ns n patch, Some e)]"
    then show ?thesis
      by (intro exI [of _ "[(PvcGet ns n, None), (PvcPatch ns n patch, Some e)]"])
         (simp add: less_Suc_eq)
  next
    fix ns n patch w2
    assume t: "trace w2 = trace w @ [(PvcGet ns n, None), (PvcPatch ns n patch, None)]"
      and fin: "Finalizers patch = [Domain' @ ''/cleanup'']"
      and e: "extends (\<lambda>c. True) w2 w'"
    from e obtain es' where es': "trace w' = trace w2 @ es'"
      by (auto simp: extends_def)
    let ?es = "[(PvcGet ns n, None), (PvcPatch ns n patch, None)] @ es'"
    have "trace w' = trace w @ ?es"
      using t es' by simp
    moreover have "\<forall>i<length ?es. is_JobCreate (fst (?es ! i)) \<longrightarrow>
           (\<exists>j<i. \<exists>ns n patch. ?es ! j = (PvcPatch ns n patch, None) \<and>
              Domain' @ ''/cleanup'' \<in> set (Finalizers patch))"
    proof (intro allI impI)
      fix i
      assume "i < length ?es" and j: "is_JobCreate (fst (?es ! i))"
      have "1 < i"
      proof (rule ccontr)
        assume "\<not> 1 < i"
        then have "i = 0 \<or> i = 1" by auto
        with j show False by auto
      qed
      moreover have "?es ! 1 = (PvcPatch ns n patch, None)" by simp
      ultimately show "\<exists>j<i. \<exists>ns n patch. ?es ! j = (PvcPatch ns n patch, None) \<and>
              Domain' @ ''/cleanup'' \<in> set (Finalizers patch)"
        using fin by (intro exI [of _ 1]) auto
    qed
    ultimately show ?thesis by blast
  qed
next
  assume run: "CreateVolume simage req w = (r, w')"
    and early: "lookup (Parameters req) ''csi.storage.k8s.io/pvc/name'' = [] \<or>
      lookup (Parameters req) ''csi.storage.k8s.io/pvc/namespace'' = [] \<or>
      lookup (Parameters req) ''backingClaimName'' = [] \<or>
      lookup (Parameters req) ''backingClaimNamespace'' = [] \<or>
      (\<exists>err. fst (pvcs_Get (lookup (Parameters req) ''csi.storage.k8s.io/pvc/namespace'')
                     (lookup (Parameters req) ''csi.storage.k8s.io/pvc/name'') w) = Inl err) \<or>
      snd (snd (snd (validateCapacity (cvCapacityRange req)))) \<noteq> None \<or>
      check_capabilities (VolumeCapabilities req) \<noteq> None"
  from CreateVolume_early [OF run early]
  show "\<exists>err. r = Returns (Inl err)" and "extends (\<lambda>c. \<exists>ns n. c = PvcGet ns n) w w'"
    by simp_all
qed


lemma restore_trace:
  "map (\<lambda>e. (is_JobCreate (fst e), snd e))
     (trace (snd (CreateVolume ''img'' restore_request restore_world))) =
     [(False, None), (False, None), (False, None), (True, None), (False, None)] \<and>
   fst (trace (snd (CreateVolume ''img'' restore_request restore_world)) ! 1) =
     PvcPatch ''ns'' ''new'' (creation_patch new_claim ''shared'' ''backing'' [] 512)"
  by (simp add: CreateVolume_def restore_request_simps Let_def
        restore_world_def pvcs_Get_def interact_def env_apply_def record_call_def
        is_obj_def new_claim_fields StrategicMergePatchPvc_def pvcs_Patch_def
        createVolumeFromSnapshot_def FindVolumeSnapshotByLabelSelector_def snapshots_List_def
        selects_snapshot size_snapshot CreateJob_def jobs_Create_def is_job_def
        WaitForJobToSucceed.simps jobs_Get_def GenerateCreationJobName_def format_1024)

lemma no_parameters_run:
  "CreateVolume ''img'' (restore_request\<lparr>Parameters := Map.empty\<rparr>) restore_world =
     (Returns (Inl (Status InvalidArgument
        (''missing/empty parameter '' @ [dquote] @ ''csi.storage.k8s.io/pvc/name'' @ [dquote]))),
      restore_world)"
  by (simp add: CreateVolume_def getParameter_def lookup_def)

theorem CreateVolume_job_follows_finalizer_witness:
  "map (\<lambda>e. (is_JobCreate (fst e), snd e))
     (trace (snd (CreateVolume ''img'' restore_request restore_world))) =
     [(False, None), (False, None), (False, None), (True, None), (False, None)] \<and>
   fst (trace (snd (CreateVolume ''img'' restore_request restore_world)) ! 1) =
     PvcPatch ''ns'' ''new'' (creation_patch new_claim ''shared'' ''backing'' [] 512) \<and>
   (\<exists>es. trace (snd (CreateVolume ''img'' restore_request restore_world)) =
           trace restore_world @ es \<and>
      (\<forall>i<length es. is_JobCreate (fst (es ! i)) \<longrightarrow>
         (\<exists>j<i. \<exists>ns n patch. es ! j = (PvcPatch ns n patch, None) \<and>
            Domain' @ ''/cleanup'' \<in> set (Finalizers patch)))) \<and>
   lookup (Parameters (restore_request\<lparr>Parameters := Map.empty\<rparr>))
     ''csi.storage.k8s.io/pvc/name'' = [] \<and>
   CreateVolume ''img'' (restore_request\<lparr>Parameters := Map.empty\<rparr>) restore_world =
     (Returns (Inl (Status InvalidArgument
        (''missing/empty parameter '' @ [dquote] @ ''csi.storage.k8s.io/pvc/name'' @ [dquote]))),
      restore_world) \<and>
   extends (\<lambda>c. \<exists>ns n. c = PvcGet ns n) restore_world restore_world"
proof -
  have a: "\<exists>es. trace (snd (CreateVolume ''img'' restore_request restore_world)) =
           trace restore_world @ es \<and>
      (\<forall>i<length es. is_JobCreate (fst (es ! i)) \<longrightarrow>
         (\<exists>j<i. \<exists>ns n patch. es ! j = (PvcPatch ns n patch, None) \<and>
            Domain' @ ''/cleanup'' \<in> set (Finalizers patch)))"
    using CreateVolume_job_follows_finalizer
      [of "''img''" restore_request restore_world
          "fst (CreateVolume ''img'' restore_request restore_world)"
          "snd (CreateVolume ''img'' restore_request restore_world)"]
    by simp
  have b: "extends (\<lambda>c. \<exists>ns n. c = PvcGet ns n) restore_world restore_world"
    using CreateVolume_job_follows_finalizer
      [OF no_parameters_run]
    by (simp add: lookup_def)
  have "lookup (Parameters (restore_request\<lparr>Parameters := Map.empty\<rparr>))
     ''csi.storage.k8s.io/pvc/name'' = []"
    by (simp add: lookup_def)
  with a b restore_trace no_parameters_run show ?thesis by simp
qed


section \<open>The deletion reaper\<close>

subsection \<open>The calls on jobs leave the claims alone\<close>

lemma jobs_Get_pvcs: "jobs_Get ns n w = (r, w1) \<Longrightarrow> pvcs w1 = pvcs w"
  by (cases "interact w")
     (auto simp: jobs_Get_def split: option.splits dest: interact_frame)

lemma jobs_Delete_pvcs: "jobs_Delete ns n w = (r, w1) \<Longrightarrow> pvcs w1 = pvcs w"
  by (cases "interact w")
     (auto simp: jobs_Delete_def split: option.splits dest: interact_frame)

lemma jobs_Create_pvcs: "jobs_Create cfg w = (r, w1) \<Longrightarrow> pvcs w1 = pvcs w"
  by (cases "interact w")
     (auto simp: jobs_Create_def split: option.splits dest: interact_frame)

lemma CreateJob_pvcs: "CreateJob cfg w = (r, w1) \<Longrightarrow> pvcs w1 = pvcs w"
  by (cases "jobs_Create cfg w")
     (auto simp: CreateJob_def split: option.splits if_splits dest: jobs_Create_pvcs)

lemma WaitForJobToSucceed_pvcs:
  "WaitForJobToSucceed jobName jobNamespace w = (r, w') \<Longrightarrow> pvcs w' = pvcs w"
proof (induction jobName jobNamespace w rule: WaitForJobToSucceed.induct)
  case (1 jobName jobNamespace w)
  obtain g w1 where g: "jobs_Get jobNamespace jobName w = (g, w1)"
    by (cases "jobs_Get jobNamespace jobName w")
  then have e: "pvcs w1 = pvcs w"
    by (rule jobs_Get_pvcs)
  show ?case
  proof (cases g)
    case (Inl err)
    with g "1.prems" have "w' = w1"
      by (simp add: WaitForJobToSucceed.simps [of jobName jobNamespace w])
    with e show ?thesis by simp
  next
    case (Inr job)
    show ?thesis
    proof (cases "Succeeded job > 0 \<or> script w1 = []")
      case True
      with g Inr "1.prems" have "w' = w1"
        by (auto simp: WaitForJobToSucceed.simps [of jobName jobNamespace w] split: if_splits)
      with e show ?thesis by simp
    next
      case False
      with g Inr "1.prems" have
        "WaitForJobToSucceed jobName jobNamespace (Sleep w1) = (r, w')"
        by (simp add: WaitForJobToSucceed.simps [of jobName jobNamespace w])
      with "1.IH" [OF g [symmetric] Inr] False have "pvcs w' = pvcs (Sleep w1)"
        by simp
      with e show ?thesis by simp
    qed
  qed
qed

lemma DeleteJobSynchronously_loop_pvcs:
  "DeleteJobSynchronously_loop jobName jobNamespace err w = (r, w') \<Longrightarrow> pvcs w' = pvcs w"
proof (induction jobName jobNamespace err w rule: DeleteJobSynchronously_loop.induct)
  case (1 jobName jobNamespace err w)
  show ?case
  proof (cases "err = None \<and> script w \<noteq> []")
    case False
    with "1.prems" have "w' = w"
      by (auto simp: DeleteJobSynchronously_loop.simps [of jobName jobNamespace err w]
          split: option.splits if_splits)
    then show ?thesis by simp
  next
    case True
    obtain g w1 where g: "jobs_Get jobNamespace jobName (Sleep w) = (g, w1)"
      by (cases "jobs_Get jobNamespace jobName (Sleep w)")
    then have "pvcs w1 = pvcs (Sleep w)"
      by (rule jobs_Get_pvcs)
    then have e: "pvcs w1 = pvcs w"
      by simp
    show ?thesis
    proof (cases g)
      case (Inl e')
      with g True "1.prems" have
        "DeleteJobSynchronously_loop jobName jobNamespace (Some e') w1 = (r, w')"
        by (simp add: DeleteJobSynchronously_loop.simps [of jobName jobNamespace None w])
      with "1.IH"(1) [OF _ _ g [symmetric] Inl] True have "pvcs w' = pvcs w1"
        by simp
      with e show ?thesis by simp
    next
      case (Inr j)
      with g True "1.prems" have
        "DeleteJobSynchronously_loop jobName jobNamespace None w1 = (r, w')"
        by (simp add: DeleteJobSynchronously_loop.simps [of jobName jobNamespace None w])
      with "1.IH"(2) [OF _ _ g [symmetric] Inr] True have "pvcs w' = pvcs w1"
        by simp
      with e show ?thesis by simp
    qed
  qed
qed

lemma DeleteJobSynchronously_pvcs:
  "DeleteJobSynchronously jobName jobNamespace w = (r, w') \<Longrightarrow> pvcs w' = pvcs w"
proof -
  assume run: "DeleteJobSynchronously jobName jobNamespace w = (r, w')"
  obtain d w1 where d: "jobs_Delete jobNamespace jobName w = (d, w1)"
    by (cases "jobs_Delete jobNamespace jobName w")
  with run have "DeleteJobSynchronously_loop jobName jobNamespace d w1 = (r, w')"
    by (simp add: DeleteJobSynchronously_def)
  then have "pvcs w' = pvcs w1"
    by (rule DeleteJobSynchronously_loop_pvcs)
  with jobs_Delete_pvcs [OF d] show ?thesis by simp
qed

subsection \<open>The writes of each step\<close>

lemma writes_since_refl [simp]: "writes_since w w = []"
  by (simp add: writes_since_def)

lemma writes_since_trans:
  "extends P w w1 \<Longrightarrow> extends Q w1 w2 \<Longrightarrow>
     writes_since w w2 = writes_since w w1 @ writes_since w1 w2"
  by (auto simp: extends_def writes_since_def)

lemma writes_since_reads:
  "extends (\<lambda>c. \<not> is_write c) w w' \<Longrightarrow> writes_since w w' = []"
  by (auto simp: extends_def writes_since_def list_all_iff)

lemma writes_since_call:
  "trace w' = trace w @ [(c, r)] \<Longrightarrow> writes_since w w' = (if is_write c then [c] else [])"
  by (simp add: writes_since_def)

lemma is_write_simps [simp]:
  "is_write (JobDelete ns n)" "is_write (JobCreate cfg)" "is_write (PvcUpdate p)"
  "is_write (PvcPatch ns n p)" "\<not> is_write (JobGet ns n)" "\<not> is_write (PvcGet ns n)"
  "\<not> is_write (PvcList sel)" "\<not> is_write (SnapshotList sel)"
  by (simp_all add: is_write_def)

lemma jobs_Delete_trace:
  assumes "jobs_Delete ns n w = (x, w1)"
  shows "\<exists>res. trace w1 = trace w @ [(JobDelete ns n, res)]"
proof -
  obtain f w0 where i: "interact w = (f, w0)" by (cases "interact w")
  from interact_frame [OF i] i assms show ?thesis
    by (auto simp: jobs_Delete_def split: option.splits)
qed

lemma jobs_Create_trace:
  assumes "jobs_Create cfg w = (x, w1)"
  shows "\<exists>res. trace w1 = trace w @ [(JobCreate cfg, res)]"
proof -
  obtain f w0 where i: "interact w = (f, w0)" by (cases "interact w")
  from interact_frame [OF i] i assms show ?thesis
    by (auto simp: jobs_Create_def split: option.splits)
qed

lemma pvcs_Update_trace:
  assumes "pvcs_Update p w = (x, w1)"
  shows "\<exists>res. trace w1 = trace w @ [(PvcUpdate p, res)]"
proof -
  obtain f w0 where i: "interact w = (f, w0)" by (cases "interact w")
  from interact_frame [OF i] i assms show ?thesis
    by (auto simp: pvcs_Update_def split: option.splits)
qed

lemma DeleteJobSynchronously_writes:
  assumes "DeleteJobSynchronously jobName jobNamespace w = (r, w')"
  shows "extends (\<lambda>c. True) w w' \<and>
         writes_since w w' = [JobDelete jobNamespace jobName] \<and>
         (\<exists>res es. trace w' = trace w @ (JobDelete jobNamespace jobName, res) # es)"
proof -
  obtain d w1 where d: "jobs_Delete jobNamespace jobName w = (d, w1)"
    by (cases "jobs_Delete jobNamespace jobName w")
  from jobs_Delete_trace [OF d] obtain res where
    t: "trace w1 = trace w @ [(JobDelete jobNamespace jobName, res)]"
    by auto
  then have e1: "extends (\<lambda>c. True) w w1"
    by (simp add: extends_def)
  from d assms have l: "DeleteJobSynchronously_loop jobName jobNamespace d w1 = (r, w')"
    by (simp add: DeleteJobSynchronously_def)
  then have e2: "extends (\<lambda>c. \<not> is_write c) w1 w'"
    by (rule DeleteJobSynchronously_loop_extends [rotated]) simp
  from e2 obtain es where es: "trace w' = trace w1 @ es"
    by (auto simp: extends_def)
  from e2 have e2': "extends (\<lambda>c. True) w1 w'"
    by (rule extends_weaken) simp
  have "writes_since w w' = writes_since w w1 @ writes_since w1 w'"
    using e1 e2 by (rule writes_since_trans)
  with writes_since_call [OF t] writes_since_reads [OF e2]
  have "writes_since w w' = [JobDelete jobNamespace jobName]"
    by simp
  moreover from e1 e2' have "extends (\<lambda>c. True) w w'" by (rule extends_trans)
  ultimately show ?thesis using t es by simp
qed

lemma CreateJob_writes:
  assumes "CreateJob cfg w = (r, w')"
  shows "extends (\<lambda>c. True) w w' \<and> writes_since w w' = [JobCreate cfg]"
proof -
  obtain c w0 where c: "jobs_Create cfg w = (c, w0)" by (cases "jobs_Create cfg w")
  with assms have "w' = w0"
    by (auto simp: CreateJob_def split: option.splits if_splits)
  with jobs_Create_trace [OF c] obtain res where
    t: "trace w' = trace w @ [(JobCreate cfg, res)]"
    by auto
  then have "extends (\<lambda>c. True) w w'"
    by (simp add: extends_def)
  with writes_since_call [OF t] show ?thesis by simp
qed

lemma WaitForJobToSucceed_writes:
  assumes "WaitForJobToSucceed jobName jobNamespace w = (r, w')"
  shows "extends (\<lambda>c. True) w w' \<and> writes_since w w' = []"
proof -
  from assms have e: "extends (\<lambda>c. \<not> is_write c) w w'"
    by (rule WaitForJobToSucceed_extends [rotated]) simp
  then have "extends (\<lambda>c. True) w w'"
    by (rule extends_weaken) simp
  with writes_since_reads [OF e] show ?thesis by simp
qed

lemma removeFinalizer_body_writes:
  assumes "removeFinalizer_body pvc w = (y, w1)"
    and "find (is_obj (Namespace pvc) (Name pvc)) (pvcs w) = Some pvc"
  shows "extends (\<lambda>c. True) w w1"
    and "set (writes_since w w1) \<subseteq>
           {PvcUpdate (pvc\<lparr>Finalizers := remove1 (Domain' @ ''/cleanup'') (Finalizers pvc)\<rparr>)}"
    and "length (writes_since w w1) \<le> 1"
    and "y \<noteq> None \<longrightarrow> pvcs w1 = pvcs w"
proof -
  let ?u = "pvc\<lparr>Finalizers := remove1 (Domain' @ ''/cleanup'') (Finalizers pvc)\<rparr>"
  obtain g v0 where g: "pvcs_Get (Namespace pvc) (Name pvc) w = (g, v0)"
    by (cases "pvcs_Get (Namespace pvc) (Name pvc) w")
  then have e0: "extends (\<lambda>c. \<not> is_write c) w v0"
    by (rule pvcs_Get_extends) simp
  then have e0': "extends (\<lambda>c. True) w v0"
    by (rule extends_weaken) simp
  from g have p0: "pvcs v0 = pvcs w"
    by (rule pvcs_Get_pvcs)
  have "extends (\<lambda>c. True) w w1 \<and> set (writes_since w w1) \<subseteq> {PvcUpdate ?u} \<and>
      length (writes_since w w1) \<le> 1 \<and> (y \<noteq> None \<longrightarrow> pvcs w1 = pvcs w)"
  proof (cases g)
    case (Inl err)
    with g assms(1) have "w1 = v0" "y \<noteq> None"
      by (auto simp: removeFinalizer_body_def)
    with e0' p0 writes_since_reads [OF e0] show ?thesis
      by simp
  next
    case (Inr p)
    with g assms(2) have "p = pvc"
      by (auto dest: pvcs_Get_Inr)
    with Inr g assms(1) have u: "pvcs_Update ?u v0 = (y, w1)"
      by (simp add: removeFinalizer_body_def)
    from pvcs_Update_trace [OF u] obtain res where
      t: "trace w1 = trace v0 @ [(PvcUpdate ?u, res)]"
      by auto
    then have e1: "extends (\<lambda>c. True) v0 w1"
      by (simp add: extends_def)
    have "writes_since w w1 = writes_since w v0 @ writes_since v0 w1"
      using e0 e1 by (rule writes_since_trans)
    with writes_since_reads [OF e0] writes_since_call [OF t]
    have a: "writes_since w w1 = [PvcUpdate ?u]"
      by simp
    have b: "extends (\<lambda>c. True) w w1"
      using e0' e1 by (rule extends_trans)
    from pvcs_Update_cases [OF u] have "y \<noteq> None \<longrightarrow> pvcs w1 = pvcs v0"
      by auto
    with p0 have c: "y \<noteq> None \<longrightarrow> pvcs w1 = pvcs w"
      by simp
    from a b c show ?thesis by simp
  qed
  then show "extends (\<lambda>c. True) w w1"
    and "set (writes_since w w1) \<subseteq> {PvcUpdate ?u}"
    and "length (writes_since w w1) \<le> 1"
    and "y \<noteq> None \<longrightarrow> pvcs w1 = pvcs w"
    by simp_all
qed

lemma RetryOnConflict_removeFinalizer_writes:
  assumes "find (is_obj (Namespace pvc) (Name pvc)) (pvcs w) = Some pvc"
    and "RetryOnConflict k (removeFinalizer_body pvc) w = (y, w')"
  shows "extends (\<lambda>c. True) w w' \<and>
         set (writes_since w w') \<subseteq>
           {PvcUpdate (pvc\<lparr>Finalizers := remove1 (Domain' @ ''/cleanup'') (Finalizers pvc)\<rparr>)} \<and>
         length (writes_since w w') \<le> k"
  using assms
proof (induction k arbitrary: w)
  case 0
  then have "w' = w" by simp
  then show ?case by simp
next
  case (Suc k)
  let ?U = "{PvcUpdate (pvc\<lparr>Finalizers := remove1 (Domain' @ ''/cleanup'') (Finalizers pvc)\<rparr>)}"
  obtain r1 w1 where f: "removeFinalizer_body pvc w = (r1, w1)"
    by (cases "removeFinalizer_body pvc w")
  note b = removeFinalizer_body_writes [OF f Suc.prems(1)]
  show ?case
  proof (cases "\<exists>err. r1 = Some err \<and> err = ApiError Conflict \<and> k > 0")
    case True
    with f Suc.prems(2) have r: "RetryOnConflict k (removeFinalizer_body pvc) w1 = (y, w')"
      by auto
    from True b(4) have "pvcs w1 = pvcs w"
      by auto
    with Suc.prems(1) have "find (is_obj (Namespace pvc) (Name pvc)) (pvcs w1) = Some pvc"
      by simp
    note i = Suc.IH [OF this r]
    from i have e2: "extends (\<lambda>c. True) w1 w'" by (rule conjunct1)
    from i have s2: "set (writes_since w1 w') \<subseteq> ?U" by simp
    from i have l2: "length (writes_since w1 w') \<le> k" by simp
    have t: "writes_since w w' = writes_since w w1 @ writes_since w1 w'"
      using b(1) e2 by (rule writes_since_trans)
    from b(2) s2 have "set (writes_since w w') \<subseteq> ?U"
      unfolding t by simp
    moreover from b(3) l2 have "length (writes_since w w') \<le> Suc k"
      unfolding t by simp
    moreover from b(1) e2 have "extends (\<lambda>c. True) w w'" by (rule extends_trans)
    ultimately show ?thesis by simp
  next
    case False
    with f Suc.prems(2) have "w' = w1"
      by (cases r1) (auto split: if_splits)
    with b(1) b(2) b(3) show ?thesis by simp
  qed
qed

lemma all_same: "set xs \<subseteq> {u} \<Longrightarrow> n = length xs \<Longrightarrow> xs = replicate n u"
  by (induction xs arbitrary: n) auto

subsection \<open>The order of the writes of \<open>deleteVolume\<close>\<close>

lemma deleteVolume_writes:
  assumes run: "deleteVolume c pvc w = (r, w')"
    and f: "find (is_obj (Namespace pvc) (Name pvc)) (pvcs w) = Some pvc"
  shows "\<exists>res es n. trace w' =
      trace w @
        (JobDelete (lookup (Annotations pvc) (Domain' @ ''/backing-pvc-namespace''))
           (GenerateCreationJobName (UID pvc)), res) # es \<and>
      filter is_write (map fst es) =
        take n
          (JobCreate
             \<lparr>cfgName = GenerateDeletionJobName (UID pvc),
              cfgNamespace = lookup (Annotations pvc) (Domain' @ ''/backing-pvc-namespace''),
              cfgLabels =
                [Domain' @ ''/component'' \<mapsto> ''volume-deletion'',
                 Domain' @ ''/pvc-uid'' \<mapsto> UID pvc],
              Image = cimage c,
              Command = [''rm'', ''-f'', GenerateVolumeImagePath (UID pvc)],
              Args = [],
              BackingPvcName = lookup (Annotations pvc) (Domain' @ ''/backing-pvc-name''),
              BackingPvcBasePath =
                lookup (Annotations pvc) (Domain' @ ''/backing-pvc-base-path'')\<rparr> #
           JobDelete (lookup (Annotations pvc) (Domain' @ ''/backing-pvc-namespace''))
             (GenerateDeletionJobName (UID pvc)) #
           replicate DefaultRetry
             (PvcUpdate
                (pvc\<lparr>Finalizers := remove1 (Domain' @ ''/cleanup'') (Finalizers pvc)\<rparr>)))"
proof -
  let ?ns = "lookup (Annotations pvc) (Domain' @ ''/backing-pvc-namespace'')"
  let ?cj = "GenerateCreationJobName (UID pvc)"
  let ?dj = "GenerateDeletionJobName (UID pvc)"
  let ?u = "PvcUpdate (pvc\<lparr>Finalizers := remove1 (Domain' @ ''/cleanup'') (Finalizers pvc)\<rparr>)"
  define cfg where "cfg =
    \<lparr>cfgName = ?dj,
     cfgNamespace = ?ns,
     cfgLabels =
       [Domain' @ ''/component'' \<mapsto> ''volume-deletion'',
        Domain' @ ''/pvc-uid'' \<mapsto> UID pvc],
     Image = cimage c,
     Command = [''rm'', ''-f'', GenerateVolumeImagePath (UID pvc)],
     Args = [],
     BackingPvcName = lookup (Annotations pvc) (Domain' @ ''/backing-pvc-name''),
     BackingPvcBasePath = lookup (Annotations pvc) (Domain' @ ''/backing-pvc-base-path'')\<rparr>"
  define plan where "plan = JobCreate cfg # JobDelete ?ns ?dj # replicate DefaultRetry ?u"
  obtain d w1 where d: "DeleteJobSynchronously ?cj ?ns w = (d, w1)"
    by (cases "DeleteJobSynchronously ?cj ?ns w")
  note d1 = DeleteJobSynchronously_writes [OF d]
  from d1 have e1: "extends (\<lambda>c. True) w w1" by simp
  from d1 have s1: "writes_since w w1 = [JobDelete ?ns ?cj]" by simp
  from d1 obtain res es1 where t1: "trace w1 = trace w @ (JobDelete ?ns ?cj, res) # es1"
    by auto
  from d have p1: "pvcs w1 = pvcs w"
    by (rule DeleteJobSynchronously_pvcs)
  have rest: "\<exists>n. extends (\<lambda>c. True) w1 w' \<and> writes_since w1 w' = take n plan"
  proof (cases "d = Returns None")
    case False
    with d run have "w' = w1"
      by (cases d) (auto simp: deleteVolume_def Let_def split: option.splits)
    then have "extends (\<lambda>c. True) w1 w' \<and> writes_since w1 w' = take 0 plan"
      by simp
    then show ?thesis ..
  next
    case True
    obtain x w2 where x: "CreateJob cfg w1 = (x, w2)" by (cases "CreateJob cfg w1")
    note x2 = CreateJob_writes [OF x]
    from x2 have e2: "extends (\<lambda>c. True) w1 w2" by simp
    from x2 have s2: "writes_since w1 w2 = [JobCreate cfg]" by simp
    from x have p2: "pvcs w2 = pvcs w1" by (rule CreateJob_pvcs)
    show ?thesis
    proof (cases x)
      case (Some err)
      with d True x run have "w' = w2"
        by (simp add: deleteVolume_def Let_def cfg_def)
      with e2 s2 have "extends (\<lambda>c. True) w1 w' \<and> writes_since w1 w' = take 1 plan"
        by (simp add: plan_def)
      then show ?thesis ..
    next
      case None
      obtain j w3 where j: "WaitForJobToSucceed ?dj ?ns w2 = (j, w3)"
        by (cases "WaitForJobToSucceed ?dj ?ns w2")
      note j3 = WaitForJobToSucceed_writes [OF j]
      from j3 have e23: "extends (\<lambda>c. True) w2 w3" by simp
      with e2 have e3: "extends (\<lambda>c. True) w1 w3" by (rule extends_trans)
      have "writes_since w1 w3 = writes_since w1 w2 @ writes_since w2 w3"
        using e2 e23 by (rule writes_since_trans)
      with s2 j3 have s3: "writes_since w1 w3 = [JobCreate cfg]" by simp
      from j have p3: "pvcs w3 = pvcs w2" by (rule WaitForJobToSucceed_pvcs)
      show ?thesis
      proof (cases "j = Returns None")
        case False
        with d True x None j run have "w' = w3"
          by (cases j) (auto simp: deleteVolume_def Let_def cfg_def split: option.splits)
        with e3 s3 have "extends (\<lambda>c. True) w1 w' \<and> writes_since w1 w' = take 1 plan"
          by (simp add: plan_def)
        then show ?thesis ..
      next
        case jn: True
        obtain k w4 where k: "DeleteJobSynchronously ?dj ?ns w3 = (k, w4)"
          by (cases "DeleteJobSynchronously ?dj ?ns w3")
        note k4 = DeleteJobSynchronously_writes [OF k]
        from k4 have e34: "extends (\<lambda>c. True) w3 w4" by simp
        with e3 have e4: "extends (\<lambda>c. True) w1 w4" by (rule extends_trans)
        have "writes_since w1 w4 = writes_since w1 w3 @ writes_since w3 w4"
          using e3 e34 by (rule writes_since_trans)
        with s3 k4 have s4: "writes_since w1 w4 = [JobCreate cfg, JobDelete ?ns ?dj]"
          by simp
        from k have p4: "pvcs w4 = pvcs w3" by (rule DeleteJobSynchronously_pvcs)
        show ?thesis
        proof (cases "k = Returns None")
          case False
          with d True x None j jn k run have "w' = w4"
            by (cases k) (auto simp: deleteVolume_def Let_def cfg_def split: option.splits)
          with e4 s4 have "extends (\<lambda>c. True) w1 w' \<and> writes_since w1 w' = take 2 plan"
            by (simp add: plan_def numeral_2_eq_2)
          then show ?thesis ..
        next
          case kn: True
          obtain y w5 where
            y: "RetryOnConflict DefaultRetry (removeFinalizer_body pvc) w4 = (y, w5)"
            by (cases "RetryOnConflict DefaultRetry (removeFinalizer_body pvc) w4")
          from f p1 p2 p3 p4 have
            "find (is_obj (Namespace pvc) (Name pvc)) (pvcs w4) = Some pvc"
            by simp
          note y5 = RetryOnConflict_removeFinalizer_writes [OF this y]
          from y5 have e45: "extends (\<lambda>c. True) w4 w5" by simp
          with e4 have e5: "extends (\<lambda>c. True) w1 w5" by (rule extends_trans)
          from y5 have l5: "length (writes_since w4 w5) \<le> DefaultRetry" by simp
          from y5 have "set (writes_since w4 w5) \<subseteq> {?u}" by simp
          then have a5: "writes_since w4 w5 = replicate (length (writes_since w4 w5)) ?u"
            by (rule all_same) simp
          have "writes_since w1 w5 = writes_since w1 w4 @ writes_since w4 w5"
            using e4 e45 by (rule writes_since_trans)
          with s4 have "writes_since w1 w5 =
              JobCreate cfg # JobDelete ?ns ?dj # writes_since w4 w5"
            by simp
          also have "writes_since w4 w5 =
              take (length (writes_since w4 w5)) (replicate DefaultRetry ?u)"
            using l5 by (subst a5) (simp add: min_def)
          finally have s5: "writes_since w1 w5 =
              take (Suc (Suc (length (writes_since w4 w5)))) plan"
            by (simp add: plan_def)
          from d True x None j jn k kn y run have "w' = w5"
            by (simp add: deleteVolume_def Let_def cfg_def)
          with e5 s5 have "extends (\<lambda>c. True) w1 w' \<and>
              writes_since w1 w' = take (Suc (Suc (length (writes_since w4 w5)))) plan"
            by simp
          then show ?thesis ..
        qed
      qed
    qed
  qed
  then obtain n where e: "extends (\<lambda>c. True) w1 w'" and s: "writes_since w1 w' = take n plan"
    by auto
  from e obtain es2 where t2: "trace w' = trace w1 @ es2"
    by (auto simp: extends_def)
  have "writes_since w w' = writes_since w w1 @ writes_since w1 w'"
    using e1 e by (rule writes_since_trans)
  with s1 s have "writes_since w w' = JobDelete ?ns ?cj # take n plan"
    by simp
  with t1 t2 have "filter is_write (map fst (es1 @ es2)) = take n plan"
    by (simp add: writes_since_def)
  moreover from t1 t2 have "trace w' = trace w @ (JobDelete ?ns ?cj, res) # (es1 @ es2)"
    by simp
  ultimately have "\<exists>es. trace w' = trace w @ (JobDelete ?ns ?cj, res) # es \<and>
      filter is_write (map fst es) = take n plan"
    by blast
  then show ?thesis
    unfolding plan_def cfg_def by blast
qed

text \<open>
  C2 (as amended).  When \<open>processNextItem\<close> has taken a key \<open>namespace/name\<close> from the queue:
  unless the claim it fetches carries the cleanup finalizer and has an empty staged-on-nodes
  annotation, the only call it makes is the read of the claim and no claim is written, so
  no job is deleted or created and the finalizer stays.  When the fetched claim carries
  the finalizer and its staged-on-nodes annotation is empty, whatever its state annotation
  holds, the deletion starts: the next call deletes the creation job of the claim, and the
  calls that follow and are not reads are, in this order and as far as the run gets, the
  creation of the deletion job that removes the image, the deletion of that job, and the
  updates (at most \<open>DefaultRetry\<close>) that drop the cleanup finalizer from the claim.
\<close>

theorem reaper_guard:
  assumes "processNextItem c w = (r, c', w')" "queue c = key # rest"
    and "SplitMetaNamespaceKey key = Some (pvcNamespace, pvcName)"
  shows "(\<not> (\<exists>pvc. find (is_obj pvcNamespace pvcName) (pvcs w) = Some pvc \<and>
               lookup (Annotations pvc) (Domain' @ ''/staged-on-nodes'') = [] \<and>
               Domain' @ ''/cleanup'' \<in> set (Finalizers pvc)) \<longrightarrow>
            r = Returns True \<and> pvcs w' = pvcs w \<and>
            extends (\<lambda>c. c = PvcGet pvcNamespace pvcName) w w') \<and>
         (\<forall>pvc. find (is_obj pvcNamespace pvcName) (pvcs w) = Some pvc \<and> answers 1 w \<and>
               lookup (Annotations pvc) (Domain' @ ''/staged-on-nodes'') = [] \<and>
               Domain' @ ''/cleanup'' \<in> set (Finalizers pvc) \<longrightarrow>
            (\<exists>res es n. trace w' =
               trace w @
                 [(PvcGet pvcNamespace pvcName, None),
                  (JobDelete (lookup (Annotations pvc) (Domain' @ ''/backing-pvc-namespace''))
                     (GenerateCreationJobName (UID pvc)), res)] @ es \<and>
               filter is_write (map fst es) =
                 take n
                   (JobCreate
                      \<lparr>cfgName = GenerateDeletionJobName (UID pvc),
                       cfgNamespace =
                         lookup (Annotations pvc) (Domain' @ ''/backing-pvc-namespace''),
                       cfgLabels =
                         [Domain' @ ''/component'' \<mapsto> ''volume-deletion'',
                          Domain' @ ''/pvc-uid'' \<mapsto> UID pvc],
                       Image = cimage c,
                       Command = [''rm'', ''-f'', GenerateVolumeImagePath (UID pvc)],
                       Args = [],
                       BackingPvcName =
                         lookup (Annotations pvc) (Domain' @ ''/backing-pvc-name''),
                       BackingPvcBasePath =
                         lookup (Annotations pvc) (Domain' @ ''/backing-pvc-base-path'')\<rparr> #
                    JobDelete (lookup (Annotations pvc) (Domain' @ ''/backing-pvc-namespace''))
                      (GenerateDeletionJobName (UID pvc)) #
                    replicate DefaultRetry
                      (PvcUpdate
                         (pvc\<lparr>Finalizers :=
                                remove1 (Domain' @ ''/cleanup'') (Finalizers pvc)\<rparr>)))))"
proof (intro conjI impI allI)
  assume no: "\<not> (\<exists>pvc. find (is_obj pvcNamespace pvcName) (pvcs w) = Some pvc \<and>
               lookup (Annotations pvc) (Domain' @ ''/staged-on-nodes'') = [] \<and>
               Domain' @ ''/cleanup'' \<in> set (Finalizers pvc))"
  obtain g w1 where g: "pvcs_Get pvcNamespace pvcName w = (g, w1)"
    by (cases "pvcs_Get pvcNamespace pvcName w")
  have e: "extends (\<lambda>c. c = PvcGet pvcNamespace pvcName) w w1"
    using g by (rule pvcs_Get_extends) simp
  have p: "pvcs w1 = pvcs w"
    using g by (rule pvcs_Get_pvcs)
  have "r = Returns True \<and> w' = w1"
  proof (cases g)
    case (Inl err)
    with assms g show ?thesis
      by (auto simp: processNextItem_def Let_def split: if_splits)
  next
    case (Inr pvc)
    with g have "find (is_obj pvcNamespace pvcName) (pvcs w) = Some pvc"
      by (auto dest: pvcs_Get_Inr)
    with no have "\<not> (lookup (Annotations pvc) (Domain' @ ''/staged-on-nodes'') = [] \<and>
        Domain' @ ''/cleanup'' \<in> set (Finalizers pvc))"
      by auto
    with assms g Inr show ?thesis
      by (auto simp: processNextItem_def Let_def)
  qed
  with e p show "r = Returns True" "pvcs w' = pvcs w"
    "extends (\<lambda>c. c = PvcGet pvcNamespace pvcName) w w'"
    by simp_all
next
  fix pvc
  assume h: "find (is_obj pvcNamespace pvcName) (pvcs w) = Some pvc \<and> answers 1 w \<and>
               lookup (Annotations pvc) (Domain' @ ''/staged-on-nodes'') = [] \<and>
               Domain' @ ''/cleanup'' \<in> set (Finalizers pvc)"
  then have "answers (Suc 0) w" by simp
  from pvcs_Get_answers [OF this, of pvcNamespace pvcName pvc] h obtain w1 where
    g: "pvcs_Get pvcNamespace pvcName w = (Inr pvc, w1)"
    and p1: "pvcs w1 = pvcs w"
    and t1: "trace w1 = trace w @ [(PvcGet pvcNamespace pvcName, None)]"
    by auto
  from h have "Namespace pvc = pvcNamespace \<and> Name pvc = pvcName"
    by (auto dest: find_is_obj)
  with h p1 have f: "find (is_obj (Namespace pvc) (Name pvc)) (pvcs w1) = Some pvc"
    by simp
  obtain d w2 where d: "deleteVolume (c\<lparr>queue := rest\<rparr>) pvc w1 = (d, w2)"
    by (cases "deleteVolume (c\<lparr>queue := rest\<rparr>) pvc w1")
  note t2 = deleteVolume_writes [OF d f]
  from assms g h d have "w' = w2"
    by (cases d; cases "case d of Returns y \<Rightarrow> y")
       (auto simp: processNextItem_def Let_def split: run.splits option.splits)
  with t1 t2 show "\<exists>res es n. trace w' =
               trace w @
                 [(PvcGet pvcNamespace pvcName, None),
                  (JobDelete (lookup (Annotations pvc) (Domain' @ ''/backing-pvc-namespace''))
                     (GenerateCreationJobName (UID pvc)), res)] @ es \<and>
               filter is_write (map fst es) =
                 take n
                   (JobCreate
                      \<lparr>cfgName = GenerateDeletionJobName (UID pvc),
                       cfgNamespace =
                         lookup (Annotations pvc) (Domain' @ ''/backing-pvc-namespace''),
                       cfgLabels =
                         [Domain' @ ''/component'' \<mapsto> ''volume-deletion'',
                          Domain' @ ''/pvc-uid'' \<mapsto> UID pvc],
                       Image = cimage c,
                       Command = [''rm'', ''-f'', GenerateVolumeImagePath (UID pvc)],
                       Args = [],
                       BackingPvcName =
                         lookup (Annotations pvc) (Domain' @ ''/backing-pvc-name''),
                       BackingPvcBasePath =
                         lookup (Annotations pvc) (Domain' @ ''/backing-pvc-base-path'')\<rparr> #
                    JobDelete (lookup (Annotations pvc) (Domain' @ ''/backing-pvc-namespace''))
                      (GenerateDeletionJobName (UID pvc)) #
                    replicate DefaultRetry
                      (PvcUpdate
                         (pvc\<lparr>Finalizers :=
                                remove1 (Domain' @ ''/cleanup'') (Finalizers pvc)\<rparr>)))"
    by simp
qed


lemma condemned_claim_fields:
  "Name (condemned_claim st) = ''vol''"
  "Namespace (condemned_claim st) = ''ns''"
  "UID (condemned_claim st) = ''u1''"
  "Finalizers (condemned_claim st) = [Domain' @ ''/cleanup'']"
  "DeletionTimestamp (condemned_claim st) = Some 0"
  "lookup (Annotations (condemned_claim st)) (Domain' @ ''/state'') = st"
  "lookup (Annotations (condemned_claim st)) (Domain' @ ''/staged-on-nodes'') = []"
  "lookup (Annotations (condemned_claim st)) (Domain' @ ''/backing-pvc-name'') = ''shared''"
  "lookup (Annotations (condemned_claim st)) (Domain' @ ''/backing-pvc-namespace'') = ''backing''"
  "lookup (Annotations (condemned_claim st)) (Domain' @ ''/backing-pvc-base-path'') = []"
  by (simp_all add: condemned_claim_def lookup_def)

lemma reaper_key: "SplitMetaNamespaceKey ''ns/vol'' = Some (''ns'', ''vol'')"
  by (simp add: SplitMetaNamespaceKey_def slash_def)

lemma reaper_run:
  "fst (processNextItem reaper (reaper_world (condemned_claim st))) = Returns True \<and>
   requeued (fst (snd (processNextItem reaper (reaper_world (condemned_claim st))))) = [] \<and>
   pvcs (snd (snd (processNextItem reaper (reaper_world (condemned_claim st))))) = [] \<and>
   map fst (trace (snd (snd (processNextItem reaper (reaper_world (condemned_claim st)))))) =
     [PvcGet ''ns'' ''vol'',
      JobDelete ''backing'' ''subprovisioner-create-u1'',
      JobCreate
        \<lparr>cfgName = ''subprovisioner-delete-u1'', cfgNamespace = ''backing'',
         cfgLabels =
           [Domain' @ ''/component'' \<mapsto> ''volume-deletion'',
            Domain' @ ''/pvc-uid'' \<mapsto> ''u1''],
         Image = ''img'',
         Command = [''rm'', ''-f'', ''/var/backing/pvc-u1.qcow2''],
         Args = [], BackingPvcName = ''shared'', BackingPvcBasePath = []\<rparr>,
      JobGet ''backing'' ''subprovisioner-delete-u1'',
      JobDelete ''backing'' ''subprovisioner-delete-u1'',
      JobGet ''backing'' ''subprovisioner-delete-u1'',
      PvcGet ''ns'' ''vol'',
      PvcUpdate ((condemned_claim st)\<lparr>Finalizers := []\<rparr>)]"
  by (simp add: processNextItem_def reaper_def reaper_key reaper_world_def Let_def
        pvcs_Get_def interact_def env_apply_def record_call_def is_obj_def is_job_def
        condemned_claim_fields deleteVolume_def DeleteJobSynchronously_def
        DeleteJobSynchronously_loop.simps jobs_Delete_def CreateJob_def jobs_Create_def
        WaitForJobToSucceed.simps jobs_Get_def Sleep_def GenerateCreationJobName_def
        GenerateDeletionJobName_def GenerateVolumeImagePath_def
        DefaultRetry_def eval_nat_numeral removeFinalizer_body_def pvcs_Update_def
        store_obj_def)


lemma held_claim_fields:
  "Name held_claim = ''vol''"
  "Namespace held_claim = ''ns''"
  "Finalizers held_claim = [Domain' @ ''/cleanup'']"
  "lookup (Annotations held_claim) (Domain' @ ''/staged-on-nodes'') = ''node-a''"
  by (simp_all add: held_claim_def condemned_claim_def lookup_def)

theorem reaper_guard_witness:
  "lookup (Annotations held_claim) (Domain' @ ''/staged-on-nodes'') = ''node-a'' \<and>
   fst (processNextItem reaper (reaper_world held_claim)) = Returns True \<and>
   pvcs (snd (snd (processNextItem reaper (reaper_world held_claim)))) = [held_claim] \<and>
   extends (\<lambda>c. c = PvcGet ''ns'' ''vol'') (reaper_world held_claim)
     (snd (snd (processNextItem reaper (reaper_world held_claim)))) \<and>
   lookup (Annotations (condemned_claim ''idle'')) (Domain' @ ''/staged-on-nodes'') = [] \<and>
   (\<exists>res es n.
      trace (snd (snd (processNextItem reaper (reaper_world (condemned_claim ''idle''))))) =
        [(PvcGet ''ns'' ''vol'', None),
         (JobDelete ''backing'' ''subprovisioner-create-u1'', res)] @ es \<and>
      filter is_write (map fst es) =
        take n
          (JobCreate
             \<lparr>cfgName = ''subprovisioner-delete-u1'', cfgNamespace = ''backing'',
              cfgLabels =
                [Domain' @ ''/component'' \<mapsto> ''volume-deletion'',
                 Domain' @ ''/pvc-uid'' \<mapsto> ''u1''],
              Image = ''img'',
              Command = [''rm'', ''-f'', ''/var/backing/pvc-u1.qcow2''],
              Args = [], BackingPvcName = ''shared'', BackingPvcBasePath = []\<rparr> #
           JobDelete ''backing'' ''subprovisioner-delete-u1'' #
           replicate DefaultRetry (PvcUpdate ((condemned_claim ''idle'')\<lparr>Finalizers := []\<rparr>)))) \<and>
   pvcs (snd (snd (processNextItem reaper (reaper_world (condemned_claim ''idle''))))) = []"
proof -
  have k: "queue reaper = [''ns/vol'']"
    by (simp add: reaper_def)
  have "find (is_obj ''ns'' ''vol'') (pvcs (reaper_world held_claim)) = Some held_claim"
    by (simp add: reaper_world_def is_obj_def held_claim_fields)
  then have a: "fst (processNextItem reaper (reaper_world held_claim)) = Returns True \<and>
      pvcs (snd (snd (processNextItem reaper (reaper_world held_claim)))) = [held_claim] \<and>
      extends (\<lambda>c. c = PvcGet ''ns'' ''vol'') (reaper_world held_claim)
        (snd (snd (processNextItem reaper (reaper_world held_claim))))"
    using reaper_guard [of reaper "reaper_world held_claim"
        "fst (processNextItem reaper (reaper_world held_claim))"
        "fst (snd (processNextItem reaper (reaper_world held_claim)))"
        "snd (snd (processNextItem reaper (reaper_world held_claim)))",
        OF _ k reaper_key]
    by (simp add: held_claim_fields) (simp add: reaper_world_def)
  have "find (is_obj ''ns'' ''vol'') (pvcs (reaper_world (condemned_claim ''idle''))) =
      Some (condemned_claim ''idle'')"
    by (simp add: reaper_world_def is_obj_def condemned_claim_fields)
  moreover have "answers 1 (reaper_world (condemned_claim ''idle''))"
    by (simp add: answers_def reaper_world_def is_Fault_def)
  moreover have "trace (reaper_world (condemned_claim ''idle'')) = []"
    by (simp add: reaper_world_def)
  moreover have "cimage reaper = ''img''"
    by (simp add: reaper_def)
  ultimately have b: "\<exists>res es n.
      trace (snd (snd (processNextItem reaper (reaper_world (condemned_claim ''idle''))))) =
        [(PvcGet ''ns'' ''vol'', None),
         (JobDelete ''backing'' ''subprovisioner-create-u1'', res)] @ es \<and>
      filter is_write (map fst es) =
        take n
          (JobCreate
             \<lparr>cfgName = ''subprovisioner-delete-u1'', cfgNamespace = ''backing'',
              cfgLabels =
                [Domain' @ ''/component'' \<mapsto> ''volume-deletion'',
                 Domain' @ ''/pvc-uid'' \<mapsto> ''u1''],
              Image = ''img'',
              Command = [''rm'', ''-f'', ''/var/backing/pvc-u1.qcow2''],
              Args = [], BackingPvcName = ''shared'', BackingPvcBasePath = []\<rparr> #
           JobDelete ''backing'' ''subprovisioner-delete-u1'' #
           replicate DefaultRetry (PvcUpdate ((condemned_claim ''idle'')\<lparr>Finalizers := []\<rparr>)))"
    using reaper_guard [of reaper "reaper_world (condemned_claim ''idle'')"
        "fst (processNextItem reaper (reaper_world (condemned_claim ''idle'')))"
        "fst (snd (processNextItem reaper (reaper_world (condemned_claim ''idle''))))"
        "snd (snd (processNextItem reaper (reaper_world (condemned_claim ''idle''))))",
        OF _ k reaper_key]
    by (simp add: condemned_claim_fields GenerateCreationJobName_def
          GenerateDeletionJobName_def GenerateVolumeImagePath_def)
  from a b reaper_run [of "''idle''"] show ?thesis
    by (simp add: held_claim_fields condemned_claim_fields)
qed

text \<open>The claim as first stated fails on a claim whose state annotation is not
  \<open>idle\<close>: the reaper does not read the state annotation, and with the finalizer present and
  no node staged it deletes the image and releases the finalizer of a claim that is
  \<open>expanding\<close>.\<close>

theorem reaper_ignores_state_counterexample:
  "lookup (Annotations (condemned_claim ''expanding'')) (Domain' @ ''/state'') = ''expanding'' \<and>
   fst (processNextItem reaper (reaper_world (condemned_claim ''expanding''))) = Returns True \<and>
   pvcs (snd (snd (processNextItem reaper (reaper_world (condemned_claim ''expanding''))))) = [] \<and>
   map fst
     (trace (snd (snd (processNextItem reaper (reaper_world (condemned_claim ''expanding'')))))) =
     [PvcGet ''ns'' ''vol'',
      JobDelete ''backing'' ''subprovisioner-create-u1'',
      JobCreate
        \<lparr>cfgName = ''subprovisioner-delete-u1'', cfgNamespace = ''backing'',
         cfgLabels =
           [Domain' @ ''/component'' \<mapsto> ''volume-deletion'',
            Domain' @ ''/pvc-uid'' \<mapsto> ''u1''],
         Image = ''img'',
         Command = [''rm'', ''-f'', ''/var/backing/pvc-u1.qcow2''],
         Args = [], BackingPvcName = ''shared'', BackingPvcBasePath = []\<rparr>,
      JobGet ''backing'' ''subprovisioner-delete-u1'',
      JobDelete ''backing'' ''subprovisioner-delete-u1'',
      JobGet ''backing'' ''subprovisioner-delete-u1'',
      PvcGet ''ns'' ''vol'',
      PvcUpdate ((condemned_claim ''expanding'')\<lparr>Finalizers := []\<rparr>)]"
  using reaper_run [of "''expanding''"]
  by (simp add: condemned_claim_fields)

end
